(* ===== verification/Nulo_Prelude.thy ===== *)
theory Nulo_Prelude
  imports Main "HOL-Library.Word"
begin

text \<open>
  Shared vocabulary of the development.

  \<^item> The machine integers of the Rust sources as words, with the saturating operations the
    sources use (\<^verbatim>\<open>saturating_add\<close>, \<^verbatim>\<open>saturating_sub\<close>, \<^verbatim>\<open>saturating_mul\<close>) and their
    readings as natural numbers, collected in \<open>sat_simps\<close>.
  \<^item> \<^verbatim>\<open>Result<A, E>\<close> as the sum \<open>'e + 'a\<close>: \<open>and_then\<close> is the \<^verbatim>\<open>?\<close> operator,
    \<open>ensure\<close> the \<^verbatim>\<open>ensure!\<close> macro, \<open>ok_or\<close> the method of \<^verbatim>\<open>Option\<close>. Their
    inversion rules are collected in \<open>result_simps\<close>.
  \<^item> A bounded vector as a list with its bound written where it is checked.
  \<^item> Sums over the entries of a finite storage map, the abstract totals the ledgers of the
    pallets are compared with.
\<close>

named_theorems sat_simps \<open>saturating arithmetic read as natural numbers\<close>
named_theorems result_simps \<open>inversion of the Result combinators\<close>

type_synonym u8 = "8 word"
type_synonym u16 = "16 word"
type_synonym u32 = "32 word"
type_synonym u64 = "64 word"
type_synonym u128 = "128 word"
type_synonym u256 = "256 word"
type_synonym byte = "8 word"

definition saturating_add :: "'n::len word \<Rightarrow> 'n word \<Rightarrow> 'n word" where
  "saturating_add a b = (if unat a + unat b < 2 ^ LENGTH('n) then a + b else - 1)"

definition saturating_sub :: "'n::len word \<Rightarrow> 'n word \<Rightarrow> 'n word" where
  "saturating_sub a b = (if b \<le> a then a - b else 0)"

definition saturating_mul :: "'n::len word \<Rightarrow> 'n word \<Rightarrow> 'n word" where
  "saturating_mul a b = (if unat a * unat b < 2 ^ LENGTH('n) then a * b else - 1)"

definition and_then :: "'e + 'a \<Rightarrow> ('a \<Rightarrow> 'e + 'b) \<Rightarrow> 'e + 'b" where
  "and_then r f = (case r of Inl e \<Rightarrow> Inl e | Inr x \<Rightarrow> f x)"

definition ensure :: "bool \<Rightarrow> 'e \<Rightarrow> 'e + unit" where
  "ensure b e = (if b then Inr () else Inl e)"

definition ok_or :: "'e \<Rightarrow> 'a option \<Rightarrow> 'e + 'a" where
  "ok_or e x = (case x of None \<Rightarrow> Inl e | Some y \<Rightarrow> Inr y)"

definition try_push :: "nat \<Rightarrow> 'a \<Rightarrow> 'a list \<Rightarrow> 'a list option" where
  "try_push bound x xs = (if length xs < bound then Some (xs @ [x]) else None)"

definition storage_sum :: "('k \<Rightarrow> 'v \<Rightarrow> nat) \<Rightarrow> ('k \<rightharpoonup> 'v) \<Rightarrow> nat" where
  "storage_sum f m = (\<Sum>k\<in>dom m. f k (the (m k)))"

subsection \<open>Saturating arithmetic\<close>

lemma unat_max_word: "unat (- 1 :: 'n::len word) = 2 ^ LENGTH('n) - 1"
  by (simp add: unsigned_minus_1_eq_mask mask_eq_exp_minus_1)

lemma unat_bound: "unat (a :: 'n::len word) \<le> 2 ^ LENGTH('n) - 1"
  using unsigned_less [of a, where ?'a = nat] by linarith

lemma unat_saturating_add [sat_simps]:
  fixes a b :: "'n::len word"
  shows "unat (saturating_add a b) = min (unat a + unat b) (2 ^ LENGTH('n) - 1)"
proof (cases "unat a + unat b < 2 ^ LENGTH('n)")
  case True
  then show ?thesis by (simp add: saturating_add_def unat_word_ariths)
next
  case False
  then have "2 ^ LENGTH('n) - 1 \<le> unat a + unat b" by linarith
  with False show ?thesis by (simp add: saturating_add_def unat_max_word min_absorb2)
qed

lemma unat_saturating_sub [sat_simps]:
  "unat (saturating_sub a b) = unat a - unat b"
  by (auto simp: saturating_sub_def unat_sub word_le_nat_alt)

lemma saturating_add_0 [simp]: "saturating_add a 0 = a" "saturating_add 0 a = a"
  by (simp_all add: saturating_add_def)

lemma saturating_sub_0 [simp]: "saturating_sub a 0 = a" "saturating_sub a a = 0"
  by (simp_all add: saturating_sub_def)

lemma saturating_add_commute: "saturating_add a b = saturating_add b a"
  by (simp add: saturating_add_def add.commute)

lemma saturating_add_ge: "a \<le> saturating_add a b" "b \<le> saturating_add a b"
  by (simp_all add: word_le_nat_alt unat_saturating_add)
    (use unat_bound [of a] unat_bound [of b] in linarith)+

lemma saturating_sub_le: "saturating_sub a b \<le> a"
  by (simp add: word_le_nat_alt unat_saturating_sub)

text \<open>A sum that stays below a bound smaller than the largest word did not saturate.\<close>

lemma saturating_add_le_exact:
  fixes a b c :: "'n::len word"
  assumes "saturating_add a b \<le> c" and "c < - 1"
  shows "unat (saturating_add a b) = unat a + unat b"
proof -
  have "unat (saturating_add a b) < 2 ^ LENGTH('n) - 1"
    using assms by (simp add: word_le_nat_alt word_less_nat_alt unat_max_word)
  then show ?thesis by (simp add: unat_saturating_add)
qed

lemma saturating_sub_add_cancel:
  "b \<le> a \<Longrightarrow> saturating_add (saturating_sub a b) b = a"
  by (auto simp: word_unat_eq_iff unat_saturating_add unat_saturating_sub word_le_nat_alt)
    (use unat_bound [of a] in linarith)

subsection \<open>Results\<close>

lemma and_then_simps [simp]:
  "and_then (Inl e) f = Inl e" "and_then (Inr x) f = f x"
  by (simp_all add: and_then_def)

lemma and_then_Inr [result_simps]:
  "and_then r f = Inr y \<longleftrightarrow> (\<exists>x. r = Inr x \<and> f x = Inr y)"
  by (cases r) auto

lemma and_then_Inl [result_simps]:
  "and_then r f = Inl e \<longleftrightarrow> r = Inl e \<or> (\<exists>x. r = Inr x \<and> f x = Inl e)"
  by (cases r) auto

lemma ensure_Inr [result_simps]: "ensure b e = Inr u \<longleftrightarrow> b"
  by (simp add: ensure_def)

lemma ensure_Inl [result_simps]: "ensure b e = Inl e' \<longleftrightarrow> \<not> b \<and> e = e'"
  by (auto simp: ensure_def)

lemma ensure_True [simp]: "ensure True e = Inr ()"
  by (simp add: ensure_def)

lemma ensure_False [simp]: "ensure False e = Inl e"
  by (simp add: ensure_def)

lemma ok_or_simps [simp]: "ok_or e None = Inl e" "ok_or e (Some x) = Inr x"
  by (simp_all add: ok_or_def)

lemma ok_or_Inr [result_simps]: "ok_or e x = Inr y \<longleftrightarrow> x = Some y"
  by (cases x) auto

lemma ok_or_Inl [result_simps]: "ok_or e x = Inl e' \<longleftrightarrow> x = None \<and> e = e'"
  by (cases x) auto

subsection \<open>Bounded vectors\<close>

lemma try_push_Some [result_simps]:
  "try_push n x xs = Some ys \<longleftrightarrow> length xs < n \<and> ys = xs @ [x]"
  by (auto simp: try_push_def)

lemma try_push_None [result_simps]: "try_push n x xs = None \<longleftrightarrow> n \<le> length xs"
  by (auto simp: try_push_def)

subsection \<open>Sums over storage maps\<close>

lemma storage_sum_empty [simp]: "storage_sum f Map.empty = 0"
  by (simp add: storage_sum_def)

lemma storage_sum_insert:
  assumes "finite (dom m)" and "m k = None"
  shows "storage_sum f (m(k \<mapsto> v)) = storage_sum f m + f k v"
proof -
  have k: "k \<notin> dom m" using assms(2) by auto
  have "(\<Sum>j\<in>dom m. f j (the ((m(k \<mapsto> v)) j))) = (\<Sum>j\<in>dom m. f j (the (m j)))"
    using k by (intro sum.cong) auto
  then show ?thesis
    using assms(1) k by (simp add: storage_sum_def)
qed

lemma storage_sum_delete:
  assumes "finite (dom m)" and "m k = Some v"
  shows "storage_sum f (m(k := None)) + f k v = storage_sum f m"
proof -
  have "m = (m(k := None))(k \<mapsto> v)"
    using assms(2) by auto
  then have "storage_sum f m = storage_sum f ((m(k := None))(k \<mapsto> v))"
    by simp
  also have "\<dots> = storage_sum f (m(k := None)) + f k v"
    using assms(1) by (intro storage_sum_insert) auto
  finally show ?thesis by simp
qed

lemma storage_sum_update:
  assumes "finite (dom m)" and "m k = Some v"
  shows "storage_sum f (m(k \<mapsto> w)) + f k v = storage_sum f m + f k w"
proof -
  have "storage_sum f ((m(k := None))(k \<mapsto> w)) = storage_sum f (m(k := None)) + f k w"
    using assms(1) by (intro storage_sum_insert) auto
  with storage_sum_delete [OF assms, of f] show ?thesis by simp
qed

lemma storage_sum_le:
  assumes "finite (dom m)" and "m k = Some v"
  shows "f k v \<le> storage_sum f m"
  using storage_sum_delete [OF assms, of f] by linarith

lemma storage_sum_zero: "(\<And>k v. m k = Some v \<Longrightarrow> f k v = 0) \<Longrightarrow> storage_sum f m = 0"
  by (auto simp: storage_sum_def intro!: sum.neutral)

lemma storage_sum_mono:
  "finite (dom m) \<Longrightarrow> (\<And>k v. m k = Some v \<Longrightarrow> f k v \<le> g k v) \<Longrightarrow> storage_sum f m \<le> storage_sum g m"
  by (auto simp: storage_sum_def intro!: sum_mono)

lemma storage_sum_cong:
  "(\<And>k v. m k = Some v \<Longrightarrow> f k v = g k v) \<Longrightarrow> storage_sum f m = storage_sum g m"
  by (auto simp: storage_sum_def intro!: sum.cong)

end
