(* ===== verification/Frame_Interface.thy ===== *)
theory Frame_Interface
  imports Nulo_Prelude
begin

text \<open>
  The interfaces of the Polkadot SDK the pallets call. None of this code is part of the
  repository, so it enters the model as parameters: one record of operations per trait, over an
  opaque state \<open>'c\<close> that stands for the storage of \<^verbatim>\<open>frame_system\<close> and of the pallet
  behind \<^verbatim>\<open>T::Currency\<close>. An operation that returns a \<^verbatim>\<open>Result\<close> whose error the
  pallets discard (\<^verbatim>\<open>map_err(|_| ...)\<close>) is a partial function: \<open>None\<close> is the error.

  What the properties rely on is stated as named predicates over these records. They say what
  the traits' documentation promises of a call that succeeds (an \<^verbatim>\<open>Exact\<close> operation moves
  exactly the amount, a hold is per reason and account, other accounts are untouched) and never
  that a call succeeds.
\<close>

datatype Preservation = Expendable | Protect | Preserve

datatype Fortitude = Polite | FortitudeForce

datatype Precision = Exact | BestEffort

datatype Restriction = Free | OnHold

datatype ExistenceRequirement = KeepAlive | AllowDeath

text \<open>\<^verbatim>\<open>Weight\<close> and \<^verbatim>\<open>T::DbWeight\<close>.\<close>

record 'w weight_ops =
  from_parts :: "u64 \<Rightarrow> u64 \<Rightarrow> 'w"
  weight_add :: "'w \<Rightarrow> 'w \<Rightarrow> 'w"
  weight_mul :: "'w \<Rightarrow> u64 \<Rightarrow> 'w"
  db_reads :: "u64 \<Rightarrow> 'w"
  db_writes :: "u64 \<Rightarrow> 'w"
  db_reads_writes :: "u64 \<Rightarrow> u64 \<Rightarrow> 'w"

text \<open>\<^verbatim>\<open>frame_system\<close>: the clock, the origins and the reference counters.\<close>

record ('a, 'c, 'o) frame_system =
  block_number :: "'c \<Rightarrow> u32"
  ensure_signed :: "'o \<Rightarrow> 'a option"
  inc_providers :: "'a \<Rightarrow> 'c \<Rightarrow> 'c"
  dec_providers :: "'a \<Rightarrow> 'c \<Rightarrow> bool \<times> 'c"
  account_exists :: "'c \<Rightarrow> 'a \<Rightarrow> bool"

text \<open>\<^verbatim>\<open>fungible::Inspect\<close> and \<^verbatim>\<open>fungible::Mutate\<close>.\<close>

record ('a, 'c) fungible =
  minimum_balance :: u128
  balance :: "'c \<Rightarrow> 'a \<Rightarrow> u128"
  reducible_balance :: "'c \<Rightarrow> 'a \<Rightarrow> Preservation \<Rightarrow> Fortitude \<Rightarrow> u128"
  transfer :: "'a \<Rightarrow> 'a \<Rightarrow> u128 \<Rightarrow> Preservation \<Rightarrow> 'c \<Rightarrow> 'c option"

text \<open>\<^verbatim>\<open>fungible::InspectHold\<close> and \<^verbatim>\<open>fungible::MutateHold\<close>, for hold reasons \<open>'r\<close>.\<close>

record ('a, 'c, 'r) hold_fungible = "('a, 'c) fungible" +
  balance_on_hold :: "'c \<Rightarrow> 'r \<Rightarrow> 'a \<Rightarrow> u128"
  hold_available :: "'c \<Rightarrow> 'r \<Rightarrow> 'a \<Rightarrow> bool"
  hold :: "'r \<Rightarrow> 'a \<Rightarrow> u128 \<Rightarrow> 'c \<Rightarrow> 'c option"
  release :: "'r \<Rightarrow> 'a \<Rightarrow> u128 \<Rightarrow> Precision \<Rightarrow> 'c \<Rightarrow> 'c option"
  transfer_and_hold ::
    "'r \<Rightarrow> 'a \<Rightarrow> 'a \<Rightarrow> u128 \<Rightarrow> Precision \<Rightarrow> Preservation \<Rightarrow> Fortitude \<Rightarrow> 'c \<Rightarrow> 'c option"
  transfer_on_hold ::
    "'r \<Rightarrow> 'a \<Rightarrow> 'a \<Rightarrow> u128 \<Rightarrow> Precision \<Rightarrow> Restriction \<Rightarrow> Fortitude \<Rightarrow> 'c \<Rightarrow> 'c option"

text \<open>\<^verbatim>\<open>fungible::Balanced\<close> with its linear \<^verbatim>\<open>Credit\<close> values \<open>'cr\<close>.
  \<open>can_withdraw\<close> tells whether the consequence is \<^verbatim>\<open>Success\<close>; \<open>resolve\<close> gives the credit
  back when it cannot be deposited; \<open>drop_credit\<close> is what going out of scope does to the currency.\<close>

record ('a, 'c, 'cr) balanced = "('a, 'c) fungible" +
  can_withdraw :: "'c \<Rightarrow> 'a \<Rightarrow> u128 \<Rightarrow> bool"
  withdraw :: "'a \<Rightarrow> u128 \<Rightarrow> Precision \<Rightarrow> Preservation \<Rightarrow> Fortitude \<Rightarrow> 'c \<Rightarrow> ('cr \<times> 'c) option"
  resolve :: "'a \<Rightarrow> 'cr \<Rightarrow> 'c \<Rightarrow> 'cr + 'c"
  peek :: "'cr \<Rightarrow> u128"
  split_credit :: "'cr \<Rightarrow> u128 \<Rightarrow> 'cr \<times> 'cr"
  subsume :: "'cr \<Rightarrow> 'cr \<Rightarrow> 'cr"
  drop_credit :: "'cr \<Rightarrow> 'c \<Rightarrow> 'c"

subsection \<open>What the properties rely on\<close>

text \<open>A successful \<open>transfer_and_hold\<close> moves exactly \<open>amt\<close> from the free balance of the source
  to the hold of the destination.\<close>

definition transfer_and_hold_law :: "('a, 'c, 'r) hold_fungible \<Rightarrow> bool" where
  "transfer_and_hold_law cur \<longleftrightarrow>
     (\<forall>r src dst amt c c'.
        transfer_and_hold cur r src dst amt Exact Preserve Polite c = Some c' \<longrightarrow>
        (\<forall>r' a. unat (balance_on_hold cur c' r' a) =
            unat (balance_on_hold cur c r' a) + (if r' = r \<and> a = dst then unat amt else 0)) \<and>
        (\<forall>a. unat (balance cur c' a) + (if a = src then unat amt else 0) =
            unat (balance cur c a)))"

text \<open>A successful \<open>hold\<close> moves \<open>amt\<close> from free to held on one account. What it leaves free may be lost
  as dust, but not when it is at least the minimum balance.\<close>

definition hold_law :: "('a, 'c, 'r) hold_fungible \<Rightarrow> bool" where
  "hold_law cur \<longleftrightarrow>
     (\<forall>r who amt c c'. hold cur r who amt c = Some c' \<longrightarrow>
        (\<forall>r' a. unat (balance_on_hold cur c' r' a) =
            unat (balance_on_hold cur c r' a) + (if r' = r \<and> a = who then unat amt else 0)) \<and>
        (\<forall>a. a \<noteq> who \<longrightarrow> balance cur c' a = balance cur c a) \<and>
        unat (balance cur c' who) + unat amt \<le> unat (balance cur c who) \<and>
        (unat amt + unat (minimum_balance cur) \<le> unat (balance cur c who) \<longrightarrow>
           unat (balance cur c' who) + unat amt = unat (balance cur c who)))"

text \<open>The free balance of an account whose hold goes: below the minimum balance it may be lost as dust,
  unless something is still on hold.\<close>

definition keeps_free :: "('a, 'c, 'r) hold_fungible \<Rightarrow> 'a \<Rightarrow> 'c \<Rightarrow> 'c \<Rightarrow> bool" where
  "keeps_free cur who c c' \<longleftrightarrow>
     minimum_balance cur \<le> balance cur c who \<or> (\<exists>r. balance_on_hold cur c' r who \<noteq> 0)"

text \<open>A successful exact \<open>transfer_on_hold\<close> moves \<open>amt\<close> from the hold of the source to the free
  balance of the destination.\<close>

definition transfer_on_hold_law :: "('a, 'c, 'r) hold_fungible \<Rightarrow> bool" where
  "transfer_on_hold_law cur \<longleftrightarrow>
     (\<forall>r src dst amt c c'.
        transfer_on_hold cur r src dst amt Exact Free Polite c = Some c' \<longrightarrow>
        (\<forall>r' a. unat (balance_on_hold cur c' r' a) + (if r' = r \<and> a = src then unat amt else 0) =
            unat (balance_on_hold cur c r' a)) \<and>
        (\<forall>a. unat (balance cur c' a) \<le> unat (balance cur c a) + (if a = dst then unat amt else 0)) \<and>
        (\<forall>a. a \<noteq> src \<or> keeps_free cur src c c' \<longrightarrow>
            unat (balance cur c' a) = unat (balance cur c a) + (if a = dst then unat amt else 0)))"

text \<open>A successful exact \<open>release\<close> moves \<open>amt\<close> from held to free on one account.\<close>

definition release_law :: "('a, 'c, 'r) hold_fungible \<Rightarrow> bool" where
  "release_law cur \<longleftrightarrow>
     (\<forall>r who amt c c'. release cur r who amt Exact c = Some c' \<longrightarrow>
        (\<forall>r' a. unat (balance_on_hold cur c' r' a) + (if r' = r \<and> a = who then unat amt else 0) =
            unat (balance_on_hold cur c r' a)) \<and>
        (\<forall>a. unat (balance cur c' a) \<le> unat (balance cur c a) + (if a = who then unat amt else 0)) \<and>
        (\<forall>a. a \<noteq> who \<or> keeps_free cur who c c' \<longrightarrow>
            unat (balance cur c' a) = unat (balance cur c a) + (if a = who then unat amt else 0)))"

text \<open>What can be taken from an account that must be preserved leaves the minimum balance.\<close>

definition reducible_law :: "('a, 'c, 'r) hold_fungible \<Rightarrow> bool" where
  "reducible_law cur \<longleftrightarrow>
     (\<forall>c a. reducible_balance cur c a Preserve Polite \<noteq> 0 \<longrightarrow>
        unat (reducible_balance cur c a Preserve Polite) + unat (minimum_balance cur)
          \<le> unat (balance cur c a))"

text \<open>Provider references are bookkeeping: taking one leaves every balance and hold alone, giving
  one back can at most reap the account it names, an account with a hold is not reaped, nor is one with
  the minimum balance, which is a provider of its own.\<close>

definition providers_law :: "('a, 'c, 'o) frame_system \<Rightarrow> ('a, 'c, 'r) hold_fungible \<Rightarrow> bool" where
  "providers_law sys cur \<longleftrightarrow>
     (\<forall>who c. balance_on_hold cur (inc_providers sys who c) = balance_on_hold cur c \<and>
        balance cur (inc_providers sys who c) = balance cur c \<and>
        balance_on_hold cur (snd (dec_providers sys who c)) = balance_on_hold cur c \<and>
        balance cur (snd (dec_providers sys who c)) who \<le> balance cur c who \<and>
        (minimum_balance cur \<le> balance cur c who \<longrightarrow>
           balance cur (snd (dec_providers sys who c)) who = balance cur c who) \<and>
        (\<forall>a. a \<noteq> who \<longrightarrow> balance cur (snd (dec_providers sys who c)) a = balance cur c a))"

text \<open>No currency operation moves the clock.\<close>

definition clock_law :: "('a, 'c, 'o) frame_system \<Rightarrow> ('a, 'c, 'r) hold_fungible \<Rightarrow> bool" where
  "clock_law sys cur \<longleftrightarrow>
     (\<forall>who c. block_number sys (inc_providers sys who c) = block_number sys c \<and>
        block_number sys (snd (dec_providers sys who c)) = block_number sys c) \<and>
     (\<forall>r who amt c c'. hold cur r who amt c = Some c' \<longrightarrow>
        block_number sys c' = block_number sys c) \<and>
     (\<forall>r who amt p c c'. release cur r who amt p c = Some c' \<longrightarrow>
        block_number sys c' = block_number sys c) \<and>
     (\<forall>r src dst amt p k f c c'. transfer_and_hold cur r src dst amt p k f c = Some c' \<longrightarrow>
        block_number sys c' = block_number sys c) \<and>
     (\<forall>r src dst amt p k f c c'. transfer_on_hold cur r src dst amt p k f c = Some c' \<longrightarrow>
        block_number sys c' = block_number sys c)"

definition hold_currency_laws ::
  "('a, 'c, 'o) frame_system \<Rightarrow> ('a, 'c, 'r) hold_fungible \<Rightarrow> bool" where
  "hold_currency_laws sys cur \<longleftrightarrow>
     transfer_and_hold_law cur \<and> hold_law cur \<and> transfer_on_hold_law cur \<and> release_law cur \<and>
     reducible_law cur \<and> providers_law sys cur \<and> clock_law sys cur"

text \<open>Funds on hold can be taken off hold in a sound state, one in which no freeze covers them and what
  is free and held on an account fits the balance type: a transfer of at most what is held, at least the
  minimum balance, to an account with room for it, and a release of at most what is held to an account
  that has the minimum balance, succeed. The calls of the pallet keep a state sound. Only the properties
  that promise a revocation rest on this.\<close>

definition take_off_hold_law ::
  "('c \<Rightarrow> bool) \<Rightarrow> ('a, 'c, 'o) frame_system \<Rightarrow> ('a, 'c, 'r) hold_fungible \<Rightarrow> bool" where
  "take_off_hold_law sound sys cur \<longleftrightarrow>
     (\<forall>r src dst amt c. sound c \<longrightarrow>
        minimum_balance cur \<le> amt \<longrightarrow> amt \<le> balance_on_hold cur c r src \<longrightarrow>
        unat (balance cur c dst) + unat amt < 2 ^ 128 \<longrightarrow>
        transfer_on_hold cur r src dst amt Exact Free Polite c \<noteq> None) \<and>
     (\<forall>r who amt c. sound c \<longrightarrow>
        minimum_balance cur \<le> balance cur c who \<longrightarrow> amt \<le> balance_on_hold cur c r who \<longrightarrow>
        unat (balance cur c who) + unat amt < 2 ^ 128 \<longrightarrow>
        release cur r who amt Exact c \<noteq> None) \<and>
     (\<forall>who c. sound c \<longrightarrow> sound (inc_providers sys who c) \<and> sound (snd (dec_providers sys who c))) \<and>
     (\<forall>r who amt c c'. sound c \<longrightarrow> hold cur r who amt c = Some c' \<longrightarrow> sound c') \<and>
     (\<forall>r who amt p c c'. sound c \<longrightarrow> release cur r who amt p c = Some c' \<longrightarrow> sound c') \<and>
     (\<forall>r src dst amt p k f c c'. sound c \<longrightarrow>
        transfer_and_hold cur r src dst amt p k f c = Some c' \<longrightarrow> sound c') \<and>
     (\<forall>r src dst amt p k f c c'. sound c \<longrightarrow>
        transfer_on_hold cur r src dst amt p k f c = Some c' \<longrightarrow> sound c')"

text \<open>What an account that must be preserved may spend does not shrink when funds come to it off a hold, its own
  or another account's, or when another account loses a provider.\<close>

definition spendable_law :: "('a, 'c, 'o) frame_system \<Rightarrow> ('a, 'c, 'r) hold_fungible \<Rightarrow> bool" where
  "spendable_law sys cur \<longleftrightarrow>
     (\<forall>r src dst amt c c' a. transfer_on_hold cur r src dst amt Exact Free Polite c = Some c' \<longrightarrow> a \<noteq> src \<longrightarrow>
        reducible_balance cur c a Preserve Polite \<le> reducible_balance cur c' a Preserve Polite) \<and>
     (\<forall>r who amt c c' a. release cur r who amt Exact c = Some c' \<longrightarrow>
        reducible_balance cur c a Preserve Polite \<le> reducible_balance cur c' a Preserve Polite) \<and>
     (\<forall>who c a. a \<noteq> who \<longrightarrow>
        reducible_balance cur c a Preserve Polite \<le> reducible_balance cur (snd (dec_providers sys who c)) a Preserve Polite)"

text \<open>A transfer that keeps the source alive moves the amount from the free balance of one account to
  that of the other.\<close>

definition transfer_law :: "('a, 'c, 'z) fungible_scheme \<Rightarrow> bool" where
  "transfer_law cur \<longleftrightarrow>
     (\<forall>src dst amt c c'. transfer cur src dst amt Preserve c = Some c' \<longrightarrow>
        (\<forall>a. unat (balance cur c' a) + (if a = src then unat amt else 0) =
           unat (balance cur c a) + (if a = dst then unat amt else 0)))"

text \<open>An exact withdrawal takes the amount from one account into a credit of that value. A withdrawal
  that may kill the account burns what it leaves when that is less than the minimum balance; one that
  preserves the account leaves exactly the rest. Resolving a credit deposits its value; a credit that is
  split or joined keeps its total value.\<close>

definition withdraw_law :: "('a, 'c, 'cr) balanced \<Rightarrow> bool" where
  "withdraw_law F \<longleftrightarrow>
     (\<forall>who amt k f c cr c'. withdraw F who amt Exact k f c = Some (cr, c') \<longrightarrow>
        peek F cr = amt \<and>
        (\<forall>a. a \<noteq> who \<longrightarrow> balance F c' a = balance F c a) \<and>
        (unat (balance F c' who) + unat amt = unat (balance F c who) \<or>
         k \<noteq> Preserve \<and> balance F c' who = 0 \<and> unat amt \<le> unat (balance F c who) \<and>
         unat (balance F c who) < unat amt + unat (minimum_balance F)))"

text \<open>An account that is left with less than the minimum balance is reaped; nothing else of the account
  (a hold) prevents it.\<close>

definition reap_law :: "('a, 'c, 'cr) balanced \<Rightarrow> 'a \<Rightarrow> bool" where
  "reap_law F who \<longleftrightarrow>
     (\<forall>amt c cr c'. withdraw F who amt Exact Expendable Polite c = Some (cr, c') \<longrightarrow>
        unat (balance F c who) < unat amt + unat (minimum_balance F) \<longrightarrow> balance F c' who = 0)"

definition resolve_law :: "('a, 'c, 'cr) balanced \<Rightarrow> bool" where
  "resolve_law F \<longleftrightarrow>
     (\<forall>who cr c c'. resolve F who cr c = Inr c' \<longrightarrow>
        (\<forall>a. unat (balance F c' a) = unat (balance F c a) + (if a = who then unat (peek F cr) else 0))) \<and>
     (\<forall>who cr c cr'. resolve F who cr c = Inl cr' \<longrightarrow> peek F cr' = peek F cr)"

definition split_law :: "('a, 'c, 'cr) balanced \<Rightarrow> bool" where
  "split_law F \<longleftrightarrow>
     (\<forall>cr amt. peek F (fst (split_credit F cr amt)) = min (peek F cr) amt \<and>
        peek F (snd (split_credit F cr amt)) = saturating_sub (peek F cr) amt) \<and>
     (\<forall>cr cr'. peek F (subsume F cr cr') = saturating_add (peek F cr) (peek F cr'))"

text \<open>A credit that goes out of scope only lowers the total issuance.\<close>

definition drop_law :: "('a, 'c, 'cr) balanced \<Rightarrow> bool" where
  "drop_law F \<longleftrightarrow> (\<forall>cr c. balance F (drop_credit F cr c) = balance F c)"

definition credit_laws :: "('a, 'c, 'cr) balanced \<Rightarrow> bool" where
  "credit_laws F \<longleftrightarrow> withdraw_law F \<and> resolve_law F \<and> split_law F \<and> drop_law F"

text \<open>What a withdrawal can count on: a consequence of \<^verbatim>\<open>Success\<close> means that the withdrawal that
  keeps the account alive succeeds, also after a withdrawal from the pool, and the pool, which has a
  provider reference of its own and no freezes, can give away all it has.\<close>

definition withdraw_progress_law :: "('a, 'c, 'cr) balanced \<Rightarrow> 'a \<Rightarrow> bool" where
  "withdraw_progress_law F pool \<longleftrightarrow>
     (\<forall>who amt c. can_withdraw F c who amt \<longrightarrow> withdraw F who amt Exact Preserve Polite c \<noteq> None) \<and>
     (\<forall>who amt x k f c cr c'. withdraw F pool x Exact k f c = Some (cr, c') \<longrightarrow> who \<noteq> pool \<longrightarrow>
        can_withdraw F c who amt \<longrightarrow> can_withdraw F c' who amt) \<and>
     (\<forall>amt c. amt \<le> balance F c pool \<longrightarrow> withdraw F pool amt Exact Expendable Polite c \<noteq> None)"

subsection \<open>The laws as rules\<close>

lemma transfer_and_hold_lawD:
  assumes "transfer_and_hold_law cur"
    and "transfer_and_hold cur r src dst amt Exact Preserve Polite c = Some c'"
  shows "unat (balance_on_hold cur c' r' a) =
      unat (balance_on_hold cur c r' a) + (if r' = r \<and> a = dst then unat amt else 0)"
    and "unat (balance cur c' a) + (if a = src then unat amt else 0) = unat (balance cur c a)"
  using assms unfolding transfer_and_hold_law_def by blast+

text \<open>A hold or a release that the pallets skip when the amount is zero.\<close>

lemma hold_lawD:
  assumes "hold_law cur" and "if amt \<noteq> 0 then hold cur r who amt c = Some c' else c' = c"
  shows "unat (balance_on_hold cur c' r' a) =
      unat (balance_on_hold cur c r' a) + (if r' = r \<and> a = who then unat amt else 0)"
    and "unat (balance cur c' a) + (if a = who then unat amt else 0) \<le> unat (balance cur c a)"
    and "a \<noteq> who \<or> unat amt + unat (minimum_balance cur) \<le> unat (balance cur c who) \<Longrightarrow>
      unat (balance cur c' a) + (if a = who then unat amt else 0) = unat (balance cur c a)"
proof -
  have h: "hold cur r who amt c = Some c'" if "amt \<noteq> 0" using assms(2) that by simp
  have z: "c' = c" if "amt = 0" using assms(2) that by simp
  note law = assms(1) [unfolded hold_law_def, rule_format, OF h]
  show "unat (balance_on_hold cur c' r' a) =
      unat (balance_on_hold cur c r' a) + (if r' = r \<and> a = who then unat amt else 0)"
    using law z by (cases "amt = 0") auto
  show "unat (balance cur c' a) + (if a = who then unat amt else 0) \<le> unat (balance cur c a)"
    using law z by (cases "amt = 0"; cases "a = who") auto
  show "unat (balance cur c' a) + (if a = who then unat amt else 0) = unat (balance cur c a)"
    if "a \<noteq> who \<or> unat amt + unat (minimum_balance cur) \<le> unat (balance cur c who)"
    using law z that by (cases "amt = 0"; cases "a = who") auto
qed

lemma transfer_on_hold_lawD:
  assumes "transfer_on_hold_law cur"
    and "transfer_on_hold cur r src dst amt Exact Free Polite c = Some c'"
  shows "unat (balance_on_hold cur c' r' a) + (if r' = r \<and> a = src then unat amt else 0) =
      unat (balance_on_hold cur c r' a)"
    and "unat (balance cur c' a) \<le> unat (balance cur c a) + (if a = dst then unat amt else 0)"
    and "a \<noteq> src \<or> keeps_free cur src c c' \<Longrightarrow> unat (balance cur c' a) =
      unat (balance cur c a) + (if a = dst then unat amt else 0)"
  using assms unfolding transfer_on_hold_law_def by blast+

lemma release_lawD:
  assumes "release_law cur" and "if amt \<noteq> 0 then release cur r who amt Exact c = Some c' else c' = c"
  shows "unat (balance_on_hold cur c' r' a) + (if r' = r \<and> a = who then unat amt else 0) =
      unat (balance_on_hold cur c r' a)"
    and "unat (balance cur c' a) \<le> unat (balance cur c a) + (if a = who then unat amt else 0)"
    and "a \<noteq> who \<or> keeps_free cur who c c' \<Longrightarrow>
      unat (balance cur c' a) = unat (balance cur c a) + (if a = who then unat amt else 0)"
proof -
  have h: "release cur r who amt Exact c = Some c'" if "amt \<noteq> 0" using assms(2) that by simp
  have z: "c' = c" if "amt = 0" using assms(2) that by simp
  note law = assms(1) [unfolded release_law_def, rule_format, OF h]
  show "unat (balance_on_hold cur c' r' a) + (if r' = r \<and> a = who then unat amt else 0) =
      unat (balance_on_hold cur c r' a)"
    using law z by (cases "amt = 0") auto
  show "unat (balance cur c' a) \<le> unat (balance cur c a) + (if a = who then unat amt else 0)"
    using law z by (cases "amt = 0") auto
  show "unat (balance cur c' a) = unat (balance cur c a) + (if a = who then unat amt else 0)"
    if "a \<noteq> who \<or> keeps_free cur who c c'"
    using law z that by (cases "amt = 0"; cases "a = who") auto
qed

lemma providers_lawD:
  assumes "providers_law sys cur"
  shows "balance_on_hold cur (inc_providers sys who c) = balance_on_hold cur c"
    and "balance cur (inc_providers sys who c) = balance cur c"
    and "balance_on_hold cur (snd (dec_providers sys who c)) = balance_on_hold cur c"
    and "a \<noteq> who \<Longrightarrow> balance cur (snd (dec_providers sys who c)) a = balance cur c a"
    and "balance cur (snd (dec_providers sys who c)) a \<le> balance cur c a"
    and "minimum_balance cur \<le> balance cur c a \<Longrightarrow>
      balance cur (snd (dec_providers sys who c)) a = balance cur c a"
proof -
  show "balance cur (snd (dec_providers sys who c)) a \<le> balance cur c a"
    using assms by (cases "a = who") (simp_all add: providers_law_def)
  show "balance cur (snd (dec_providers sys who c)) a = balance cur c a"
    if "minimum_balance cur \<le> balance cur c a"
    using assms that by (cases "a = who") (simp_all add: providers_law_def)
qed (use assms in \<open>simp_all add: providers_law_def\<close>)

lemma take_off_hold_lawD:
  assumes "take_off_hold_law sound sys cur" and "sound c"
  shows "unat (minimum_balance cur) \<le> unat amt \<Longrightarrow> unat amt \<le> unat (balance_on_hold cur c r src) \<Longrightarrow>
      unat (balance cur c dst) + unat amt < 2 ^ 128 \<Longrightarrow>
      \<exists>c'. transfer_on_hold cur r src dst amt Exact Free Polite c = Some c' \<and> sound c'"
    and "unat (minimum_balance cur) \<le> unat (balance cur c who) \<Longrightarrow>
      unat amt \<le> unat (balance_on_hold cur c r who) \<Longrightarrow> unat (balance cur c who) + unat amt < 2 ^ 128 \<Longrightarrow>
      \<exists>c'. release cur r who amt Exact c = Some c' \<and> sound c'"
  using assms unfolding take_off_hold_law_def word_le_nat_alt by (metis not_None_eq)+

lemma withdraw_lawD:
  assumes "withdraw_law F" and "withdraw F who amt Exact k f c = Some (cr, c')"
  shows "peek F cr = amt" and "a \<noteq> who \<Longrightarrow> balance F c' a = balance F c a"
    and "k = Preserve \<Longrightarrow>
      unat (balance F c' a) + (if a = who then unat amt else 0) = unat (balance F c a)"
    and "\<exists>dust. (\<forall>a. unat (balance F c' a) + (if a = who then unat amt + dust else 0) = unat (balance F c a)) \<and>
      (dust = 0 \<or> balance F c' who = 0 \<and> dust < unat (minimum_balance F))"
proof -
  note law = assms(1) [unfolded withdraw_law_def, rule_format, OF assms(2)]
  show "peek F cr = amt" using law by blast
  show "balance F c' a = balance F c a" if "a \<noteq> who" using law that by blast
  show "unat (balance F c' a) + (if a = who then unat amt else 0) = unat (balance F c a)" if "k = Preserve"
    using law that by (cases "a = who") auto
  show "\<exists>dust. (\<forall>a. unat (balance F c' a) + (if a = who then unat amt + dust else 0) = unat (balance F c a)) \<and>
      (dust = 0 \<or> balance F c' who = 0 \<and> dust < unat (minimum_balance F))"
  proof (cases "unat (balance F c' who) + unat amt = unat (balance F c who)")
    case True
    with law show ?thesis by (intro exI [of _ 0]) auto
  next
    case False
    with law show ?thesis
      by (intro exI [of _ "unat (balance F c who) - unat amt"]) auto
  qed
qed

lemma resolve_lawD:
  assumes "resolve_law F"
  shows "resolve F who cr c = Inr c' \<Longrightarrow>
      unat (balance F c' a) = unat (balance F c a) + (if a = who then unat (peek F cr) else 0)"
    and "resolve F who cr c = Inl cr' \<Longrightarrow> peek F cr' = peek F cr"
  using assms unfolding resolve_law_def by blast+

lemma split_lawD:
  assumes "split_law F" and "split_credit F cr amt = (x, y)"
  shows "unat (peek F x) = min (unat (peek F cr)) (unat amt)"
    and "unat (peek F y) = unat (peek F cr) - unat amt"
  using assms unfolding split_law_def
  by (metis fst_conv min_def word_le_nat_alt, metis snd_conv unat_saturating_sub)

lemma subsume_lawD: "split_law F \<Longrightarrow> peek F (subsume F cr cr') = saturating_add (peek F cr) (peek F cr')"
  by (simp add: split_law_def)

end
