(* ===== verification/Sponsorship.thy ===== *)
theory Sponsorship
  imports Frame_Interface
begin

text \<open>
  \<^verbatim>\<open>pallet-existential-sponsorship\<close> (\<^verbatim>\<open>src/lib.rs\<close>): its types, its storage, its helper
  functions, its six extrinsics, its block hook, its genesis build and its implementation of
  \<^verbatim>\<open>SponsorshipProvider\<close>.

  \<^verbatim>\<open>T: Config\<close> is the record \<open>Config\<close>; the storage items are the fields of \<open>Storage\<close>
  (\<^verbatim>\<open>OptionQuery\<close> maps as partial functions, \<^verbatim>\<open>ValueQuery\<close> maps as total functions that
  start at the default value). The field \<open>ext\<close> is the storage of \<^verbatim>\<open>frame_system\<close> and of
  \<^verbatim>\<open>T::Currency\<close>, and \<open>events\<close> is the list of events the pallet has deposited.
  A function the source runs under \<^verbatim>\<open>#[transactional]\<close> returns \<open>Inl e\<close> without a state: the
  storage layer drops every change made before the error. The dispatchables and the provider
  functions write nothing before the transactional function they call, so they have the same shape.
  A panic (\<^verbatim>\<open>expect\<close>) is \<open>None\<close>.
\<close>

type_synonym Balance = u128
type_synonym BlockNumber = u32

datatype AutoUnlockCondition = SpendableGeSponsored | FreeGeSponsored

datatype AutoUnlockMode = Disabled | Enabled AutoUnlockCondition

datatype Lease = LeaseNone | Until BlockNumber

datatype UnlockReason = Manual | Force

datatype HoldReason = Sponsorship | StorageDeposit

record SponsorState =
  active_amount :: Balance
  active_count :: u32
  last_block :: BlockNumber
  sponsored_amount_in_block :: Balance
  new_sponsorships_in_block :: u32

definition SponsorState_default :: SponsorState where
  "SponsorState_default =
     \<lparr>active_amount = 0, active_count = 0, last_block = 0, sponsored_amount_in_block = 0,
      new_sponsorships_in_block = 0\<rparr>"

record 'a SponsorshipRecord =
  rec_sponsor :: 'a
  rec_amount :: Balance
  rec_auto_unlock :: AutoUnlockMode
  rec_lease :: Lease
  rec_created_at :: BlockNumber

record 'a SponsorshipView =
  view_sponsor :: 'a
  view_beneficiary :: 'a
  view_amount :: Balance
  view_auto_unlock :: AutoUnlockMode
  view_lease :: Lease
  view_created_at :: BlockNumber

datatype 'a Event =
    Sponsored 'a 'a Balance AutoUnlockMode Lease
  | Unlocked 'a 'a Balance UnlockReason
  | PolicyUpdated 'a 'a AutoUnlockMode Lease
  | Expired 'a 'a Balance
  | AutoUnlocked 'a 'a Balance AutoUnlockCondition

datatype Error =
    AlreadySponsored | NotSponsored | NotSponsor | AmountTooLow | LeaseTooLong | LeaseInPast
  | SponsorCapExceeded | SponsorCountCapExceeded | SponsorPerBlockCapExceeded
  | SponsorPerBlockCountExceeded | SponsorMinRemainingViolation | HoldUnavailable
  | CannotTransferAndHold | CannotTransferOnHold | StorageDepositFailed | QueueFull

datatype DispatchError = BadOrigin | Module Error

text \<open>The two weight functions \<^verbatim>\<open>on_initialize\<close> calls, with the addition of weights.\<close>

record 'w HookWeights =
  on_initialize_process_auto_unlock :: "u32 \<Rightarrow> 'w"
  on_initialize_process_expiries :: "u32 \<Rightarrow> 'w"
  weight_saturating_add :: "'w \<Rightarrow> 'w \<Rightarrow> 'w"

record ('a, 'c, 'o, 'w) Config =
  System :: "('a, 'c, 'o) frame_system"
  Currency :: "('a, 'c, HoldReason) hold_fungible"
  WeightInfo :: "'w HookWeights"
  MinSponsorship :: Balance
  SponsorMinRemaining :: Balance
  MaxTotalSponsoredPerSponsor :: Balance
  MaxSponsoredAccountsPerSponsor :: u32
  MaxSponsoredAmountPerBlock :: Balance
  MaxNewSponsorshipsPerBlock :: u32
  MaxLeaseDuration :: BlockNumber
  MaxQueueProcessingPerBlock :: u32
  SponsorshipStorageDeposit :: Balance
  ForceOrigin :: "'o \<Rightarrow> bool"

record ('a, 'c) Storage =
  ext :: 'c
  Sponsorships :: "'a \<rightharpoonup> 'a SponsorshipRecord"
  SponsorLedger :: "'a \<Rightarrow> SponsorState"
  StorageDepositHeld :: "'a \<Rightarrow> Balance"
  Expirations :: "BlockNumber \<Rightarrow> 'a list"
  AutoUnlockQueue :: "'a list"
  events :: "'a Event list"

text \<open>The storage before genesis: every item at its default, no event.\<close>

definition empty_storage :: "'c \<Rightarrow> ('a, 'c) Storage" where
  "empty_storage c =
     \<lparr>ext = c, Sponsorships = Map.empty, SponsorLedger = (\<lambda>_. SponsorState_default),
      StorageDepositHeld = (\<lambda>_. 0), Expirations = (\<lambda>_. []), AutoUnlockQueue = [],
      events = []\<rparr>"

definition now :: "('a, 'c, 'o, 'w) Config \<Rightarrow> ('a, 'c) Storage \<Rightarrow> BlockNumber" where
  "now T s = block_number (System T) (ext s)"

definition deposit_event :: "'a Event \<Rightarrow> ('a, 'c) Storage \<Rightarrow> ('a, 'c) Storage" where
  "deposit_event e s = s\<lparr>events := events s @ [e]\<rparr>"

subsection \<open>Helper functions of the pallet\<close>

definition minimum_sponsorship :: "('a, 'c, 'o, 'w) Config \<Rightarrow> Balance" where
  "minimum_sponsorship T = max (MinSponsorship T) (minimum_balance (Currency T))"

definition sponsorship_hold_reason :: HoldReason where
  "sponsorship_hold_reason = Sponsorship"

definition storage_deposit_hold_reason :: HoldReason where
  "storage_deposit_hold_reason = StorageDeposit"

definition validate_lease ::
  "('a, 'c, 'o, 'w) Config \<Rightarrow> Lease \<Rightarrow> BlockNumber \<Rightarrow> DispatchError + unit" where
  "validate_lease T lease nw =
     (case lease of
        LeaseNone \<Rightarrow> Inr ()
      | Until e \<Rightarrow>
          and_then (ensure (nw \<le> e) (Module LeaseInPast)) (\<lambda>_.
          and_then (ensure (saturating_sub e nw \<le> MaxLeaseDuration T) (Module LeaseTooLong)) (\<lambda>_.
          Inr ())))"

definition refresh_per_block_ledger :: "SponsorState \<Rightarrow> BlockNumber \<Rightarrow> SponsorState" where
  "refresh_per_block_ledger ledger nw =
     (if last_block ledger \<noteq> nw
      then ledger\<lparr>last_block := nw, sponsored_amount_in_block := 0, new_sponsorships_in_block := 0\<rparr>
      else ledger)"

definition insert_expiration ::
  "('a, 'c, 'o, 'w) Config \<Rightarrow> 'a \<Rightarrow> Lease \<Rightarrow> ('a, 'c) Storage \<Rightarrow> DispatchError + ('a, 'c) Storage" where
  "insert_expiration T beneficiary lease s =
     (case lease of
        LeaseNone \<Rightarrow> Inr s
      | Until expiry \<Rightarrow>
          (let bucket = Expirations s expiry in
           if beneficiary \<notin> set bucket then
             and_then (ok_or (Module QueueFull)
                 (try_push (unat (MaxQueueProcessingPerBlock T)) beneficiary bucket)) (\<lambda>bucket'.
             Inr (s\<lparr>Expirations := (Expirations s)(expiry := bucket')\<rparr>))
           else Inr s))"

definition remove_expiration :: "'a \<Rightarrow> Lease \<Rightarrow> ('a, 'c) Storage \<Rightarrow> ('a, 'c) Storage" where
  "remove_expiration beneficiary lease s =
     (case lease of
        LeaseNone \<Rightarrow> s
      | Until expiry \<Rightarrow>
          s\<lparr>Expirations := (Expirations s)
             (expiry := filter (\<lambda>account. account \<noteq> beneficiary) (Expirations s expiry))\<rparr>)"

definition enqueue_auto_unlock ::
  "('a, 'c, 'o, 'w) Config \<Rightarrow> 'a \<Rightarrow> ('a, 'c) Storage \<Rightarrow> DispatchError + ('a, 'c) Storage" where
  "enqueue_auto_unlock T beneficiary s =
     (let queue = AutoUnlockQueue s in
      if beneficiary \<notin> set queue then
        and_then (ok_or (Module QueueFull)
            (try_push (unat (MaxQueueProcessingPerBlock T)) beneficiary queue)) (\<lambda>queue'.
        Inr (s\<lparr>AutoUnlockQueue := queue'\<rparr>))
      else Inr s)"

definition dequeue_auto_unlock :: "'a \<Rightarrow> ('a, 'c) Storage \<Rightarrow> ('a, 'c) Storage" where
  "dequeue_auto_unlock beneficiary s =
     s\<lparr>AutoUnlockQueue := filter (\<lambda>account. account \<noteq> beneficiary) (AutoUnlockQueue s)\<rparr>"

definition auto_unlock_condition_met ::
  "('a, 'c, 'o, 'w) Config \<Rightarrow> 'a \<Rightarrow> Balance \<Rightarrow> AutoUnlockCondition \<Rightarrow> ('a, 'c) Storage \<Rightarrow> bool" where
  "auto_unlock_condition_met T beneficiary amount condition s =
     (case condition of
        SpendableGeSponsored \<Rightarrow>
          amount \<le> reducible_balance (Currency T) (ext s) beneficiary Preserve Polite
      | FreeGeSponsored \<Rightarrow> amount \<le> balance (Currency T) (ext s) beneficiary)"

subsection \<open>Creating and revoking a sponsorship\<close>

definition do_sponsor ::
  "('a, 'c, 'o, 'w) Config \<Rightarrow> 'a \<Rightarrow> 'a \<Rightarrow> Balance \<Rightarrow> AutoUnlockMode \<Rightarrow> Lease \<Rightarrow> bool \<Rightarrow>
   ('a, 'c) Storage \<Rightarrow> DispatchError + ('a, 'c) Storage" where
  "do_sponsor T sponsor beneficiary amount auto_unlock lease emit_event s =
     and_then (ensure (Sponsorships s beneficiary = None) (Module AlreadySponsored)) (\<lambda>_.
     and_then (ensure (minimum_sponsorship T \<le> amount) (Module AmountTooLow)) (\<lambda>_.
     let nw = now T s in
     and_then (validate_lease T lease nw) (\<lambda>_.
     let ledger = refresh_per_block_ledger (SponsorLedger s sponsor) nw in
     and_then (ensure (saturating_add (active_amount ledger) amount
         \<le> MaxTotalSponsoredPerSponsor T) (Module SponsorCapExceeded)) (\<lambda>_.
     and_then (ensure (saturating_add (active_count ledger) 1
         \<le> MaxSponsoredAccountsPerSponsor T) (Module SponsorCountCapExceeded)) (\<lambda>_.
     and_then (ensure (saturating_add (sponsored_amount_in_block ledger) amount
         \<le> MaxSponsoredAmountPerBlock T) (Module SponsorPerBlockCapExceeded)) (\<lambda>_.
     and_then (ensure (saturating_add (new_sponsorships_in_block ledger) 1
         \<le> MaxNewSponsorshipsPerBlock T) (Module SponsorPerBlockCountExceeded)) (\<lambda>_.
     let storage_deposit = SponsorshipStorageDeposit T;
         total_deduction = saturating_add amount storage_deposit in
     and_then (ensure (total_deduction
         \<le> reducible_balance (Currency T) (ext s) sponsor Preserve Polite)
         (Module SponsorMinRemainingViolation)) (\<lambda>_.
     and_then (ensure (SponsorMinRemaining T
         \<le> saturating_sub (balance (Currency T) (ext s) sponsor) total_deduction)
         (Module SponsorMinRemainingViolation)) (\<lambda>_.
     let c1 = inc_providers (System T) beneficiary (ext s) in
     and_then (ensure (hold_available (Currency T) c1 sponsorship_hold_reason beneficiary)
         (Module HoldUnavailable)) (\<lambda>_.
     and_then (if storage_deposit \<noteq> 0
         then ensure (hold_available (Currency T) c1 storage_deposit_hold_reason sponsor)
           (Module HoldUnavailable)
         else Inr ()) (\<lambda>_.
     and_then (ok_or (Module CannotTransferAndHold)
         (transfer_and_hold (Currency T) sponsorship_hold_reason sponsor beneficiary amount
           Exact Preserve Polite c1)) (\<lambda>c2.
     and_then (if storage_deposit \<noteq> 0
         then and_then (ok_or (Module StorageDepositFailed)
             (hold (Currency T) storage_deposit_hold_reason sponsor storage_deposit c2)) (\<lambda>c3.
           Inr (s\<lparr>ext := c3,
             StorageDepositHeld := (StorageDepositHeld s)(beneficiary := storage_deposit)\<rparr>))
         else Inr (s\<lparr>ext := c2\<rparr>)) (\<lambda>s1.
     let record' = \<lparr>rec_sponsor = sponsor, rec_amount = amount, rec_auto_unlock = auto_unlock,
           rec_lease = lease, rec_created_at = nw\<rparr>;
         ledger' = ledger\<lparr>
           active_amount := saturating_add (active_amount ledger) amount,
           active_count := saturating_add (active_count ledger) 1,
           sponsored_amount_in_block := saturating_add (sponsored_amount_in_block ledger) amount,
           new_sponsorships_in_block := saturating_add (new_sponsorships_in_block ledger) 1\<rparr>;
         s2 = s1\<lparr>Sponsorships := (Sponsorships s1)(beneficiary \<mapsto> record'),
           SponsorLedger := (SponsorLedger s1)(sponsor := ledger')\<rparr> in
     and_then (insert_expiration T beneficiary lease s2) (\<lambda>s3.
     and_then (case auto_unlock of
         Enabled _ \<Rightarrow> enqueue_auto_unlock T beneficiary s3 | Disabled \<Rightarrow> Inr s3) (\<lambda>s4.
     Inr (if emit_event
       then deposit_event (Sponsored sponsor beneficiary amount auto_unlock lease) s4
       else s4))))))))))))))))"

definition revoke_sponsorship ::
  "('a, 'c, 'o, 'w) Config \<Rightarrow> 'a \<Rightarrow> ('a, 'c) Storage \<Rightarrow>
   DispatchError + 'a SponsorshipRecord \<times> ('a, 'c) Storage" where
  "revoke_sponsorship T beneficiary s =
     and_then (ok_or (Module NotSponsored) (Sponsorships s beneficiary)) (\<lambda>record.
     and_then (ok_or (Module CannotTransferOnHold)
         (transfer_on_hold (Currency T) sponsorship_hold_reason beneficiary (rec_sponsor record)
           (rec_amount record) Exact Free Polite (ext s))) (\<lambda>c1.
     let storage_deposit = StorageDepositHeld s beneficiary;
         s1 = s\<lparr>ext := c1, StorageDepositHeld := (StorageDepositHeld s)(beneficiary := 0)\<rparr> in
     and_then (if storage_deposit \<noteq> 0
         then and_then (ok_or (Module StorageDepositFailed)
             (release (Currency T) storage_deposit_hold_reason (rec_sponsor record)
               storage_deposit Exact (ext s1))) (\<lambda>c2. Inr (s1\<lparr>ext := c2\<rparr>))
         else Inr s1) (\<lambda>s2.
     let s3 = s2\<lparr>Sponsorships := (Sponsorships s2)(beneficiary := None)\<rparr>;
         s4 = remove_expiration beneficiary (rec_lease record) s3;
         s5 = dequeue_auto_unlock beneficiary s4;
         s6 = s5\<lparr>ext := snd (dec_providers (System T) beneficiary (ext s5))\<rparr>;
         ledger = SponsorLedger s6 (rec_sponsor record);
         ledger' = ledger\<lparr>
           active_amount := saturating_sub (active_amount ledger) (rec_amount record),
           active_count := saturating_sub (active_count ledger) 1\<rparr> in
     Inr (record, s6\<lparr>SponsorLedger := (SponsorLedger s6)(rec_sponsor record := ledger')\<rparr>))))"

definition try_auto_unlock_internal ::
  "('a, 'c, 'o, 'w) Config \<Rightarrow> 'a \<Rightarrow> bool \<Rightarrow> ('a, 'c) Storage \<Rightarrow>
   DispatchError + bool \<times> ('a, 'c) Storage" where
  "try_auto_unlock_internal T beneficiary emit_event s =
     and_then (ok_or (Module NotSponsored) (Sponsorships s beneficiary)) (\<lambda>record.
     case rec_auto_unlock record of
       Disabled \<Rightarrow> Inr (False, s)
     | Enabled condition \<Rightarrow>
         if \<not> auto_unlock_condition_met T beneficiary (rec_amount record) condition s
         then Inr (False, s)
         else and_then (revoke_sponsorship T beneficiary s) (\<lambda>(record', s1).
           Inr (True, if emit_event
             then deposit_event (AutoUnlocked (rec_sponsor record') beneficiary
               (rec_amount record') condition) s1
             else s1)))"

subsection \<open>Dispatchables\<close>

definition sponsor ::
  "('a, 'c, 'o, 'w) Config \<Rightarrow> 'o \<Rightarrow> 'a \<Rightarrow> Balance \<Rightarrow> AutoUnlockMode \<Rightarrow> Lease \<Rightarrow>
   ('a, 'c) Storage \<Rightarrow> DispatchError + ('a, 'c) Storage" where
  "sponsor T origin beneficiary amount auto_unlock lease s =
     and_then (ok_or BadOrigin (ensure_signed (System T) origin)) (\<lambda>who.
     do_sponsor T who beneficiary amount auto_unlock lease True s)"

definition sponsor_minimum ::
  "('a, 'c, 'o, 'w) Config \<Rightarrow> 'o \<Rightarrow> 'a \<Rightarrow> AutoUnlockMode \<Rightarrow> Lease \<Rightarrow>
   ('a, 'c) Storage \<Rightarrow> DispatchError + ('a, 'c) Storage" where
  "sponsor_minimum T origin beneficiary auto_unlock lease s =
     and_then (ok_or BadOrigin (ensure_signed (System T) origin)) (\<lambda>who.
     do_sponsor T who beneficiary (minimum_sponsorship T) auto_unlock lease True s)"

definition unlock ::
  "('a, 'c, 'o, 'w) Config \<Rightarrow> 'o \<Rightarrow> 'a \<Rightarrow> ('a, 'c) Storage \<Rightarrow> DispatchError + ('a, 'c) Storage" where
  "unlock T origin beneficiary s =
     and_then (ok_or BadOrigin (ensure_signed (System T) origin)) (\<lambda>caller.
     and_then (ok_or (Module NotSponsored) (Sponsorships s beneficiary)) (\<lambda>record.
     and_then (ensure (caller = rec_sponsor record) (Module NotSponsor)) (\<lambda>_.
     and_then (revoke_sponsorship T beneficiary s) (\<lambda>(record', s1).
     Inr (deposit_event
       (Unlocked (rec_sponsor record') beneficiary (rec_amount record') Manual) s1)))))"

definition set_policy ::
  "('a, 'c, 'o, 'w) Config \<Rightarrow> 'o \<Rightarrow> 'a \<Rightarrow> AutoUnlockMode \<Rightarrow> Lease \<Rightarrow>
   ('a, 'c) Storage \<Rightarrow> DispatchError + ('a, 'c) Storage" where
  "set_policy T origin beneficiary auto_unlock lease s =
     and_then (ok_or BadOrigin (ensure_signed (System T) origin)) (\<lambda>caller.
     and_then (ok_or (Module NotSponsored) (Sponsorships s beneficiary)) (\<lambda>record.
     and_then (ensure (caller = rec_sponsor record) (Module NotSponsor)) (\<lambda>_.
     and_then (validate_lease T lease (now T s)) (\<lambda>_.
     and_then (if rec_lease record \<noteq> lease
         then and_then (insert_expiration T beneficiary lease s) (\<lambda>s1.
           Inr (remove_expiration beneficiary (rec_lease record) s1))
         else Inr s) (\<lambda>s2.
     and_then (case auto_unlock of
         Enabled _ \<Rightarrow> enqueue_auto_unlock T beneficiary s2 | Disabled \<Rightarrow> Inr s2) (\<lambda>s3.
     let record' = record\<lparr>rec_auto_unlock := auto_unlock, rec_lease := lease\<rparr> in
     Inr (deposit_event (PolicyUpdated caller beneficiary auto_unlock lease)
       (s3\<lparr>Sponsorships := (Sponsorships s3)(beneficiary \<mapsto> record')\<rparr>))))))))"

definition force_unlock ::
  "('a, 'c, 'o, 'w) Config \<Rightarrow> 'o \<Rightarrow> 'a \<Rightarrow> ('a, 'c) Storage \<Rightarrow> DispatchError + ('a, 'c) Storage" where
  "force_unlock T origin beneficiary s =
     and_then (ensure (ForceOrigin T origin) BadOrigin) (\<lambda>_.
     and_then (revoke_sponsorship T beneficiary s) (\<lambda>(record, s1).
     Inr (deposit_event
       (Unlocked (rec_sponsor record) beneficiary (rec_amount record) Force) s1)))"

definition refresh ::
  "('a, 'c, 'o, 'w) Config \<Rightarrow> 'o \<Rightarrow> 'a \<Rightarrow> ('a, 'c) Storage \<Rightarrow> DispatchError + ('a, 'c) Storage" where
  "refresh T origin beneficiary s =
     and_then (ok_or BadOrigin (ensure_signed (System T) origin)) (\<lambda>_.
     and_then (try_auto_unlock_internal T beneficiary True s) (\<lambda>(_, s1). Inr s1))"

text \<open>The generated \<^verbatim>\<open>Call\<close> enumeration and its dispatch.\<close>

datatype 'a Call =
    CallSponsor 'a Balance AutoUnlockMode Lease
  | CallSponsorMinimum 'a AutoUnlockMode Lease
  | CallUnlock 'a
  | CallSetPolicy 'a AutoUnlockMode Lease
  | CallForceUnlock 'a
  | CallRefresh 'a

fun dispatch ::
  "('a, 'c, 'o, 'w) Config \<Rightarrow> 'o \<Rightarrow> 'a Call \<Rightarrow> ('a, 'c) Storage \<Rightarrow>
   DispatchError + ('a, 'c) Storage" where
  "dispatch T o' (CallSponsor b amt au l) s = sponsor T o' b amt au l s"
| "dispatch T o' (CallSponsorMinimum b au l) s = sponsor_minimum T o' b au l s"
| "dispatch T o' (CallUnlock b) s = unlock T o' b s"
| "dispatch T o' (CallSetPolicy b au l) s = set_policy T o' b au l s"
| "dispatch T o' (CallForceUnlock b) s = force_unlock T o' b s"
| "dispatch T o' (CallRefresh b) s = refresh T o' b s"

subsection \<open>The block hook\<close>

fun expire_loop ::
  "('a, 'c, 'o, 'w) Config \<Rightarrow> BlockNumber \<Rightarrow> 'a list \<Rightarrow> ('a, 'c) Storage \<Rightarrow> ('a, 'c) Storage" where
  "expire_loop T nw [] s = s"
| "expire_loop T nw (beneficiary # rest) s =
     (case Sponsorships s beneficiary of
        None \<Rightarrow> expire_loop T nw rest s
      | Some record \<Rightarrow>
          if rec_lease record \<noteq> Until nw then expire_loop T nw rest s
          else (case revoke_sponsorship T beneficiary s of
              Inr (record', s1) \<Rightarrow> expire_loop T nw rest
                (deposit_event (Expired (rec_sponsor record') beneficiary (rec_amount record')) s1)
            | Inl _ \<Rightarrow> expire_loop T nw rest s))"

definition process_expirations ::
  "('a, 'c, 'o, 'w) Config \<Rightarrow> BlockNumber \<Rightarrow> ('a, 'c) Storage \<Rightarrow> u32 \<times> ('a, 'c) Storage" where
  "process_expirations T nw s =
     (let expiring = Expirations s nw;
          s1 = s\<lparr>Expirations := (Expirations s)(nw := [])\<rparr>;
          processed = word_of_nat (length expiring) in
      (processed, expire_loop T nw expiring s1))"

text \<open>The loop over the taken queue: \<open>index\<close> is the position of the head, the accumulators are
  the two vectors and the counter of the source.\<close>

fun auto_unlock_loop ::
  "('a, 'c, 'o, 'w) Config \<Rightarrow> nat \<Rightarrow> nat \<Rightarrow> 'a list \<Rightarrow> 'a list \<Rightarrow> 'a list \<Rightarrow> u32 \<Rightarrow> ('a, 'c) Storage \<Rightarrow>
   'a list \<times> 'a list \<times> u32 \<times> ('a, 'c) Storage" where
  "auto_unlock_loop T limit index [] unprocessed requeue processed s =
     (unprocessed, requeue, processed, s)"
| "auto_unlock_loop T limit index (beneficiary # rest) unprocessed requeue processed s =
     (if limit \<le> index
      then auto_unlock_loop T limit (Suc index) rest (unprocessed @ [beneficiary]) requeue processed s
      else
        let processed' = saturating_add processed 1 in
        case Sponsorships s beneficiary of
          None \<Rightarrow> auto_unlock_loop T limit (Suc index) rest unprocessed requeue processed' s
        | Some record \<Rightarrow>
            (case rec_auto_unlock record of
               Disabled \<Rightarrow> auto_unlock_loop T limit (Suc index) rest unprocessed requeue processed' s
             | Enabled condition \<Rightarrow>
                 if auto_unlock_condition_met T beneficiary (rec_amount record) condition s
                 then (case revoke_sponsorship T beneficiary s of
                     Inr (record', s1) \<Rightarrow>
                       auto_unlock_loop T limit (Suc index) rest unprocessed requeue processed'
                         (deposit_event (AutoUnlocked (rec_sponsor record') beneficiary
                            (rec_amount record') condition) s1)
                   | Inl _ \<Rightarrow> auto_unlock_loop T limit (Suc index) rest unprocessed
                       (requeue @ [beneficiary]) processed' s)
                 else auto_unlock_loop T limit (Suc index) rest unprocessed
                   (requeue @ [beneficiary]) processed' s))"

definition process_auto_unlock_queue ::
  "('a, 'c, 'o, 'w) Config \<Rightarrow> ('a, 'c) Storage \<Rightarrow> (u32 \<times> ('a, 'c) Storage) option" where
  "process_auto_unlock_queue T s =
     (let limit = unat (MaxQueueProcessingPerBlock T);
          queue = AutoUnlockQueue s;
          s1 = s\<lparr>AutoUnlockQueue := []\<rparr> in
      case auto_unlock_loop T limit 0 queue [] [] 0 s1 of
        (unprocessed, requeue, processed, s2) \<Rightarrow>
          (let next_queue = unprocessed @ requeue in
           if length next_queue \<le> unat (MaxQueueProcessingPerBlock T)
           then Some (processed, s2\<lparr>AutoUnlockQueue := next_queue\<rparr>)
           else None))"

definition on_initialize ::
  "('a, 'c, 'o, 'w) Config \<Rightarrow> BlockNumber \<Rightarrow> ('a, 'c) Storage \<Rightarrow> ('w \<times> ('a, 'c) Storage) option" where
  "on_initialize T nw s =
     (let (expiries, s1) = process_expirations T nw s in
      case process_auto_unlock_queue T s1 of
        None \<Rightarrow> None
      | Some (auto_unlocks, s2) \<Rightarrow>
          Some (weight_saturating_add (WeightInfo T)
              (on_initialize_process_expiries (WeightInfo T) expiries)
              (on_initialize_process_auto_unlock (WeightInfo T) auto_unlocks), s2))"

subsection \<open>Genesis\<close>

type_synonym 'a GenesisConfig = "('a \<times> 'a \<times> Balance \<times> AutoUnlockMode \<times> Lease) list"

definition GenesisConfig_default :: "'a GenesisConfig" where
  "GenesisConfig_default = []"

fun genesis_build ::
  "('a, 'c, 'o, 'w) Config \<Rightarrow> 'a GenesisConfig \<Rightarrow> ('a, 'c) Storage \<Rightarrow> ('a, 'c) Storage option" where
  "genesis_build T [] s = Some s"
| "genesis_build T ((spo, beneficiary, amount, auto_unlock, lease) # rest) s =
     (case do_sponsor T spo beneficiary amount auto_unlock lease False s of
        Inl _ \<Rightarrow> None
      | Inr s1 \<Rightarrow> genesis_build T rest s1)"

subsection \<open>The SponsorshipProvider implementation\<close>

definition sponsorship_of :: "'a \<Rightarrow> ('a, 'c) Storage \<Rightarrow> 'a SponsorshipView option" where
  "sponsorship_of beneficiary s =
     map_option (\<lambda>record.
       \<lparr>view_sponsor = rec_sponsor record, view_beneficiary = beneficiary,
        view_amount = rec_amount record, view_auto_unlock = rec_auto_unlock record,
        view_lease = rec_lease record, view_created_at = rec_created_at record\<rparr>)
       (Sponsorships s beneficiary)"

definition is_sponsored :: "'a \<Rightarrow> ('a, 'c) Storage \<Rightarrow> bool" where
  "is_sponsored beneficiary s = (Sponsorships s beneficiary \<noteq> None)"

definition sponsored_amount :: "'a \<Rightarrow> ('a, 'c) Storage \<Rightarrow> Balance" where
  "sponsored_amount beneficiary s =
     (case map_option rec_amount (Sponsorships s beneficiary) of None \<Rightarrow> 0 | Some amt \<Rightarrow> amt)"

definition sponsor_of :: "'a \<Rightarrow> ('a, 'c) Storage \<Rightarrow> 'a option" where
  "sponsor_of beneficiary s = map_option rec_sponsor (Sponsorships s beneficiary)"

definition create_sponsorship ::
  "('a, 'c, 'o, 'w) Config \<Rightarrow> 'a \<Rightarrow> 'a \<Rightarrow> Balance \<Rightarrow> AutoUnlockMode \<Rightarrow> Lease \<Rightarrow>
   ('a, 'c) Storage \<Rightarrow> DispatchError + ('a, 'c) Storage" where
  "create_sponsorship T spo beneficiary amount auto_unlock lease s =
     do_sponsor T spo beneficiary amount auto_unlock lease True s"

definition unlock_sponsorship ::
  "('a, 'c, 'o, 'w) Config \<Rightarrow> 'a \<Rightarrow> 'a \<Rightarrow> ('a, 'c) Storage \<Rightarrow> DispatchError + ('a, 'c) Storage" where
  "unlock_sponsorship T spo beneficiary s =
     and_then (ok_or (Module NotSponsored) (Sponsorships s beneficiary)) (\<lambda>record.
     if rec_sponsor record \<noteq> spo then Inl (Module NotSponsor)
     else and_then (revoke_sponsorship T beneficiary s) (\<lambda>(record', s1).
       Inr (deposit_event
         (Unlocked (rec_sponsor record') beneficiary (rec_amount record') Manual) s1)))"

definition try_auto_unlock ::
  "('a, 'c, 'o, 'w) Config \<Rightarrow> 'a \<Rightarrow> ('a, 'c) Storage \<Rightarrow> DispatchError + ('a, 'c) Storage" where
  "try_auto_unlock T beneficiary s =
     and_then (try_auto_unlock_internal T beneficiary True s) (\<lambda>(_, s1). Inr s1)"

end
