(* ===== verification/Sponsorship_Effects.thy ===== *)
theory Sponsorship_Effects
  imports Sponsorship
begin

text \<open>
  What the operations of the sponsorship pallet do to its storage, written as closed state
  transformers: \<open>sponsored_state\<close> for a sponsorship that is created and \<open>revoked_state\<close> for one
  that ends. The characterisation lemmas say exactly when \<open>do_sponsor\<close> and \<open>revoke_sponsorship\<close>
  succeed and that the result is that state; every later proof about the pallet works on these.
\<close>

definition push_unique :: "'a \<Rightarrow> 'a list \<Rightarrow> 'a list" where
  "push_unique x xs = (if x \<in> set xs then xs else xs @ [x])"

definition expirations_insert ::
  "'a \<Rightarrow> Lease \<Rightarrow> (BlockNumber \<Rightarrow> 'a list) \<Rightarrow> BlockNumber \<Rightarrow> 'a list" where
  "expirations_insert b l E =
     (case l of LeaseNone \<Rightarrow> E | Until n \<Rightarrow> E(n := push_unique b (E n)))"

definition expirations_remove ::
  "'a \<Rightarrow> Lease \<Rightarrow> (BlockNumber \<Rightarrow> 'a list) \<Rightarrow> BlockNumber \<Rightarrow> 'a list" where
  "expirations_remove b l E =
     (case l of LeaseNone \<Rightarrow> E | Until n \<Rightarrow> E(n := filter (\<lambda>a. a \<noteq> b) (E n)))"

definition queue_insert :: "'a \<Rightarrow> AutoUnlockMode \<Rightarrow> 'a list \<Rightarrow> 'a list" where
  "queue_insert b au q = (case au of Enabled _ \<Rightarrow> push_unique b q | Disabled \<Rightarrow> q)"

text \<open>There is room for one more entry where one has to be pushed.\<close>

definition has_room :: "('a, 'c, 'o, 'w) Config \<Rightarrow> 'a \<Rightarrow> 'a list \<Rightarrow> bool" where
  "has_room T b xs \<longleftrightarrow> b \<in> set xs \<or> length xs < unat (MaxQueueProcessingPerBlock T)"

definition lease_room ::
  "('a, 'c, 'o, 'w) Config \<Rightarrow> 'a \<Rightarrow> Lease \<Rightarrow> (BlockNumber \<Rightarrow> 'a list) \<Rightarrow> bool" where
  "lease_room T b l E = (case l of LeaseNone \<Rightarrow> True | Until n \<Rightarrow> has_room T b (E n))"

definition queue_room ::
  "('a, 'c, 'o, 'w) Config \<Rightarrow> 'a \<Rightarrow> AutoUnlockMode \<Rightarrow> 'a list \<Rightarrow> bool" where
  "queue_room T b au q = (case au of Disabled \<Rightarrow> True | Enabled _ \<Rightarrow> has_room T b q)"

definition charged_ledger ::
  "('a, 'c, 'o, 'w) Config \<Rightarrow> Balance \<Rightarrow> 'a \<Rightarrow> ('a, 'c) Storage \<Rightarrow> SponsorState" where
  "charged_ledger T amount spo s =
     (let ledger = refresh_per_block_ledger (SponsorLedger s spo) (now T s) in
      ledger\<lparr>
        active_amount := saturating_add (active_amount ledger) amount,
        active_count := saturating_add (active_count ledger) 1,
        sponsored_amount_in_block := saturating_add (sponsored_amount_in_block ledger) amount,
        new_sponsorships_in_block := saturating_add (new_sponsorships_in_block ledger) 1\<rparr>)"

definition released_ledger :: "'a SponsorshipRecord \<Rightarrow> SponsorState \<Rightarrow> SponsorState" where
  "released_ledger r ledger =
     ledger\<lparr>
       active_amount := saturating_sub (active_amount ledger) (rec_amount r),
       active_count := saturating_sub (active_count ledger) 1\<rparr>"

text \<open>The storage-independent guards of \<open>do_sponsor\<close>: the policy limits of the configuration.\<close>

definition within_caps :: "('a, 'c, 'o, 'w) Config \<Rightarrow> SponsorState \<Rightarrow> bool" where
  "within_caps T ledger \<longleftrightarrow>
     active_amount ledger \<le> MaxTotalSponsoredPerSponsor T \<and>
     active_count ledger \<le> MaxSponsoredAccountsPerSponsor T \<and>
     sponsored_amount_in_block ledger \<le> MaxSponsoredAmountPerBlock T \<and>
     new_sponsorships_in_block ledger \<le> MaxNewSponsorshipsPerBlock T"

definition sponsor_can_pay ::
  "('a, 'c, 'o, 'w) Config \<Rightarrow> 'a \<Rightarrow> Balance \<Rightarrow> ('a, 'c) Storage \<Rightarrow> bool" where
  "sponsor_can_pay T spo amount s \<longleftrightarrow>
     saturating_add amount (SponsorshipStorageDeposit T)
       \<le> reducible_balance (Currency T) (ext s) spo Preserve Polite \<and>
     SponsorMinRemaining T \<le> saturating_sub (balance (Currency T) (ext s) spo)
       (saturating_add amount (SponsorshipStorageDeposit T))"

text \<open>The currency calls of \<open>do_sponsor\<close>, from \<open>c\<close> to \<open>c'\<close>.\<close>

definition sponsor_moves ::
  "('a, 'c, 'o, 'w) Config \<Rightarrow> 'a \<Rightarrow> 'a \<Rightarrow> Balance \<Rightarrow> 'c \<Rightarrow> 'c \<Rightarrow> bool" where
  "sponsor_moves T spo b amount c c' \<longleftrightarrow>
     (let c1 = inc_providers (System T) b c; dep = SponsorshipStorageDeposit T in
      hold_available (Currency T) c1 Sponsorship b \<and>
      (dep \<noteq> 0 \<longrightarrow> hold_available (Currency T) c1 StorageDeposit spo) \<and>
      (\<exists>c2. transfer_and_hold (Currency T) Sponsorship spo b amount Exact Preserve Polite c1 = Some c2 \<and>
        (if dep \<noteq> 0 then hold (Currency T) StorageDeposit spo dep c2 = Some c' else c' = c2)))"

text \<open>The currency calls of \<open>revoke_sponsorship\<close>, from \<open>c\<close> to \<open>c'\<close>.\<close>

definition revoke_moves ::
  "('a, 'c, 'o, 'w) Config \<Rightarrow> 'a \<Rightarrow> 'a SponsorshipRecord \<Rightarrow> Balance \<Rightarrow> 'c \<Rightarrow> 'c \<Rightarrow> bool" where
  "revoke_moves T b r dep c c' \<longleftrightarrow>
     (\<exists>c1 c2. transfer_on_hold (Currency T) Sponsorship b (rec_sponsor r) (rec_amount r)
        Exact Free Polite c = Some c1 \<and>
      (if dep \<noteq> 0 then release (Currency T) StorageDeposit (rec_sponsor r) dep Exact c1 = Some c2
       else c2 = c1) \<and>
      c' = snd (dec_providers (System T) b c2))"

definition sponsored_state ::
  "('a, 'c, 'o, 'w) Config \<Rightarrow> 'a \<Rightarrow> 'a \<Rightarrow> Balance \<Rightarrow> AutoUnlockMode \<Rightarrow> Lease \<Rightarrow> 'c \<Rightarrow>
   ('a, 'c) Storage \<Rightarrow> ('a, 'c) Storage" where
  "sponsored_state T spo b amount au l c s =
     s\<lparr>ext := c,
       StorageDepositHeld := (if SponsorshipStorageDeposit T \<noteq> 0
         then (StorageDepositHeld s)(b := SponsorshipStorageDeposit T) else StorageDepositHeld s),
       Sponsorships := (Sponsorships s)(b \<mapsto>
         \<lparr>rec_sponsor = spo, rec_amount = amount, rec_auto_unlock = au, rec_lease = l,
          rec_created_at = now T s\<rparr>),
       SponsorLedger := (SponsorLedger s)(spo := charged_ledger T amount spo s),
       Expirations := expirations_insert b l (Expirations s),
       AutoUnlockQueue := queue_insert b au (AutoUnlockQueue s)\<rparr>"

definition revoked_state ::
  "'a \<Rightarrow> 'a SponsorshipRecord \<Rightarrow> 'c \<Rightarrow> ('a, 'c) Storage \<Rightarrow> ('a, 'c) Storage" where
  "revoked_state b r c s =
     s\<lparr>ext := c,
       StorageDepositHeld := (StorageDepositHeld s)(b := 0),
       Sponsorships := (Sponsorships s)(b := None),
       Expirations := expirations_remove b (rec_lease r) (Expirations s),
       AutoUnlockQueue := filter (\<lambda>a. a \<noteq> b) (AutoUnlockQueue s),
       SponsorLedger := (SponsorLedger s)
         (rec_sponsor r := released_ledger r (SponsorLedger s (rec_sponsor r)))\<rparr>"

definition emit :: "bool \<Rightarrow> 'a Event \<Rightarrow> ('a, 'c) Storage \<Rightarrow> ('a, 'c) Storage" where
  "emit em e s = (if em then deposit_event e s else s)"

subsection \<open>Deposited events touch nothing else\<close>

lemma deposit_event_fields [simp]:
  "ext (deposit_event e s) = ext s"
  "Sponsorships (deposit_event e s) = Sponsorships s"
  "SponsorLedger (deposit_event e s) = SponsorLedger s"
  "StorageDepositHeld (deposit_event e s) = StorageDepositHeld s"
  "Expirations (deposit_event e s) = Expirations s"
  "AutoUnlockQueue (deposit_event e s) = AutoUnlockQueue s"
  "events (deposit_event e s) = events s @ [e]"
  "now T (deposit_event e s) = now T s"
  by (simp_all add: deposit_event_def now_def)

lemma emit_fields [simp]:
  "ext (emit em e s) = ext s"
  "Sponsorships (emit em e s) = Sponsorships s"
  "SponsorLedger (emit em e s) = SponsorLedger s"
  "StorageDepositHeld (emit em e s) = StorageDepositHeld s"
  "Expirations (emit em e s) = Expirations s"
  "AutoUnlockQueue (emit em e s) = AutoUnlockQueue s"
  "events (emit em e s) = events s @ (if em then [e] else [])"
  "now T (emit em e s) = now T s"
  by (simp_all add: emit_def)

lemma emit_True [simp]: "emit True e s = deposit_event e s"
  by (simp add: emit_def)

subsection \<open>The index helpers\<close>

lemma set_push_unique [simp]: "set (push_unique x xs) = insert x (set xs)"
  by (auto simp: push_unique_def)

lemma distinct_push_unique [simp]: "distinct (push_unique x xs) = distinct xs"
  by (auto simp: push_unique_def)

lemma length_push_unique:
  "has_room T x xs \<Longrightarrow> length xs \<le> unat (MaxQueueProcessingPerBlock T) \<Longrightarrow>
   length (push_unique x xs) \<le> unat (MaxQueueProcessingPerBlock T)"
  by (auto simp: push_unique_def has_room_def)

lemma insert_expiration_Inr:
  "insert_expiration T b l s = Inr s' \<longleftrightarrow>
     lease_room T b l (Expirations s) \<and> s' = s\<lparr>Expirations := expirations_insert b l (Expirations s)\<rparr>"
  by (auto simp: insert_expiration_def lease_room_def has_room_def expirations_insert_def
      push_unique_def Let_def try_push_def ok_or_def and_then_def split: Lease.splits)

lemma insert_expiration_Inl:
  "insert_expiration T b l s = Inl e \<longleftrightarrow> \<not> lease_room T b l (Expirations s) \<and> e = Module QueueFull"
  by (auto simp: insert_expiration_def lease_room_def has_room_def Let_def result_simps
      split: Lease.splits)

lemma remove_expiration_eq:
  "remove_expiration b l s = s\<lparr>Expirations := expirations_remove b l (Expirations s)\<rparr>"
  by (auto simp: remove_expiration_def expirations_remove_def split: Lease.splits)

lemma enqueue_auto_unlock_Inr:
  "(case au of Enabled _ \<Rightarrow> enqueue_auto_unlock T b s | Disabled \<Rightarrow> Inr s) = Inr s' \<longleftrightarrow>
     queue_room T b au (AutoUnlockQueue s) \<and> s' = s\<lparr>AutoUnlockQueue := queue_insert b au (AutoUnlockQueue s)\<rparr>"
  by (auto simp: enqueue_auto_unlock_def queue_room_def has_room_def queue_insert_def
      push_unique_def Let_def try_push_def ok_or_def and_then_def split: AutoUnlockMode.splits)

lemma enqueue_auto_unlock_Inl:
  "(case au of Enabled _ \<Rightarrow> enqueue_auto_unlock T b s | Disabled \<Rightarrow> Inr s) = Inl e \<longleftrightarrow>
     \<not> queue_room T b au (AutoUnlockQueue s) \<and> e = Module QueueFull"
  by (auto simp: enqueue_auto_unlock_def queue_room_def has_room_def Let_def result_simps
      split: AutoUnlockMode.splits)

subsection \<open>When a sponsorship is created and what it writes\<close>

lemma do_sponsor_guards:
  assumes "do_sponsor T spo b amount au l em s = Inr s'"
  shows "Sponsorships s b = None \<and> minimum_sponsorship T \<le> amount \<and>
     validate_lease T l (now T s) = Inr () \<and> within_caps T (charged_ledger T amount spo s) \<and>
     sponsor_can_pay T spo amount s \<and> lease_room T b l (Expirations s) \<and>
     queue_room T b au (AutoUnlockQueue s) \<and>
     (\<exists>c. sponsor_moves T spo b amount (ext s) c)"
  using assms unfolding do_sponsor_def
  by (cases "SponsorshipStorageDeposit T = 0")
    (simp_all add: result_simps Let_def insert_expiration_Inr enqueue_auto_unlock_Inr
      sponsorship_hold_reason_def storage_deposit_hold_reason_def within_caps_def charged_ledger_def
      sponsor_can_pay_def sponsor_moves_def, blast, clarify, simp)

lemma do_sponsor_success:
  assumes "Sponsorships s b = None" "minimum_sponsorship T \<le> amount"
    "validate_lease T l (now T s) = Inr ()" "within_caps T (charged_ledger T amount spo s)"
    "sponsor_can_pay T spo amount s" "lease_room T b l (Expirations s)"
    "queue_room T b au (AutoUnlockQueue s)" "sponsor_moves T spo b amount (ext s) c"
  shows "do_sponsor T spo b amount au l em s =
    Inr (emit em (Sponsored spo b amount au l) (sponsored_state T spo b amount au l c s))"
  using assms unfolding do_sponsor_def
  by (cases "SponsorshipStorageDeposit T = 0")
    (simp_all add: result_simps Let_def insert_expiration_Inr enqueue_auto_unlock_Inr
      sponsorship_hold_reason_def storage_deposit_hold_reason_def within_caps_def charged_ledger_def
      sponsor_can_pay_def sponsor_moves_def sponsored_state_def emit_def, auto)

lemma do_sponsor_Inr:
  "do_sponsor T spo b amount au l em s = Inr s' \<longleftrightarrow>
     Sponsorships s b = None \<and> minimum_sponsorship T \<le> amount \<and>
     validate_lease T l (now T s) = Inr () \<and> within_caps T (charged_ledger T amount spo s) \<and>
     sponsor_can_pay T spo amount s \<and> lease_room T b l (Expirations s) \<and> queue_room T b au (AutoUnlockQueue s) \<and>
     (\<exists>c. sponsor_moves T spo b amount (ext s) c \<and>
        s' = emit em (Sponsored spo b amount au l) (sponsored_state T spo b amount au l c s))"
  (is "?L \<longleftrightarrow> ?R")
proof
  assume L: ?L
  from do_sponsor_guards [OF L] obtain c where
    g: "Sponsorships s b = None" "minimum_sponsorship T \<le> amount"
      "validate_lease T l (now T s) = Inr ()" "within_caps T (charged_ledger T amount spo s)"
      "sponsor_can_pay T spo amount s" "lease_room T b l (Expirations s)"
      "queue_room T b au (AutoUnlockQueue s)" and c: "sponsor_moves T spo b amount (ext s) c"
    by blast
  have "s' = emit em (Sponsored spo b amount au l) (sponsored_state T spo b amount au l c s)"
    using L do_sponsor_success [OF g c, of em] by simp
  with g c show ?R by blast
next
  assume ?R
  then show ?L by (elim conjE exE) (simp add: do_sponsor_success)
qed

subsection \<open>When a sponsorship is revoked and what it writes\<close>

lemma revoke_sponsorship_Inr:
  "revoke_sponsorship T b s = Inr (r, s') \<longleftrightarrow>
     Sponsorships s b = Some r \<and>
     (\<exists>c. revoke_moves T b r (StorageDepositHeld s b) (ext s) c \<and> s' = revoked_state b r c s)"
  unfolding revoke_sponsorship_def
  by (cases "StorageDepositHeld s b = 0")
    (auto simp: result_simps Let_def remove_expiration_eq dequeue_auto_unlock_def revoke_moves_def
      sponsorship_hold_reason_def storage_deposit_hold_reason_def revoked_state_def
      released_ledger_def)

lemma revoke_sponsorship_Inl:
  "revoke_sponsorship T b s = Inl e \<longleftrightarrow>
     (case Sponsorships s b of
        None \<Rightarrow> e = Module NotSponsored
      | Some r \<Rightarrow>
          (case transfer_on_hold (Currency T) Sponsorship b (rec_sponsor r) (rec_amount r)
               Exact Free Polite (ext s) of
             None \<Rightarrow> e = Module CannotTransferOnHold
           | Some c1 \<Rightarrow> StorageDepositHeld s b \<noteq> 0 \<and> e = Module StorageDepositFailed \<and>
               release (Currency T) StorageDeposit (rec_sponsor r) (StorageDepositHeld s b) Exact c1
                 = None))"
  unfolding revoke_sponsorship_def
  by (cases "StorageDepositHeld s b = 0")
    (auto simp: result_simps Let_def sponsorship_hold_reason_def storage_deposit_hold_reason_def
      split: option.splits)

subsection \<open>What a policy change writes\<close>

definition policy_state ::
  "'a \<Rightarrow> 'a SponsorshipRecord \<Rightarrow> AutoUnlockMode \<Rightarrow> Lease \<Rightarrow> ('a, 'c) Storage \<Rightarrow> ('a, 'c) Storage" where
  "policy_state b r au l s =
     s\<lparr>Expirations := (if rec_lease r \<noteq> l
         then expirations_remove b (rec_lease r) (expirations_insert b l (Expirations s))
         else Expirations s),
       AutoUnlockQueue := queue_insert b au (AutoUnlockQueue s),
       Sponsorships := (Sponsorships s)(b \<mapsto> r\<lparr>rec_auto_unlock := au, rec_lease := l\<rparr>)\<rparr>"

lemma set_policy_lease_Inr:
  "and_then (if rec_lease r \<noteq> l
       then and_then (insert_expiration T b l s) (\<lambda>s1. Inr (remove_expiration b (rec_lease r) s1))
       else Inr s) f = Inr s' \<longleftrightarrow>
     (rec_lease r \<noteq> l \<longrightarrow> lease_room T b l (Expirations s)) \<and>
     f (s\<lparr>Expirations := (if rec_lease r \<noteq> l
         then expirations_remove b (rec_lease r) (expirations_insert b l (Expirations s))
         else Expirations s)\<rparr>) = Inr s'"
  by (simp add: result_simps insert_expiration_Inr remove_expiration_eq)

lemma set_policy_Inr:
  "set_policy T og b au l s = Inr s' \<longleftrightarrow>
     (\<exists>r. ensure_signed (System T) og = Some (rec_sponsor r) \<and> Sponsorships s b = Some r \<and>
        validate_lease T l (now T s) = Inr () \<and>
        (rec_lease r \<noteq> l \<longrightarrow> lease_room T b l (Expirations s)) \<and>
        queue_room T b au (AutoUnlockQueue s) \<and>
        s' = deposit_event (PolicyUpdated (rec_sponsor r) b au l) (policy_state b r au l s))"
proof (cases "ensure_signed (System T) og")
  case None
  then show ?thesis by (simp add: set_policy_def)
next
  case caller: (Some caller)
  show ?thesis
  proof (cases "Sponsorships s b")
    case None
    then show ?thesis by (simp add: set_policy_def caller)
  next
    case (Some r)
    show ?thesis
      unfolding set_policy_def caller Some ok_or_simps and_then_simps set_policy_lease_Inr
      by (cases "caller = rec_sponsor r"; cases "validate_lease T l (now T s)")
        (simp_all add: set_policy_lease_Inr, simp add: result_simps enqueue_auto_unlock_Inr
          Let_def policy_state_def conj_assoc eq_commute [of _ s'])
  qed
qed

subsection \<open>Dispatchables in terms of these effects\<close>

lemma revoke_sponsorship_record: "revoke_sponsorship T b s = Inr (r, s') \<Longrightarrow> Sponsorships s b = Some r"
  by (simp add: revoke_sponsorship_Inr)

lemma unlock_Inr:
  "unlock T og b s = Inr s' \<longleftrightarrow>
     (\<exists>r s1. ensure_signed (System T) og = Some (rec_sponsor r) \<and>
        revoke_sponsorship T b s = Inr (r, s1) \<and>
        s' = deposit_event (Unlocked (rec_sponsor r) b (rec_amount r) Manual) s1)"
  unfolding unlock_def
  by (cases "Sponsorships s b") (fastforce simp: result_simps dest: revoke_sponsorship_record)+

lemma force_unlock_Inr:
  "force_unlock T og b s = Inr s' \<longleftrightarrow>
     (\<exists>r s1. ForceOrigin T og \<and> revoke_sponsorship T b s = Inr (r, s1) \<and>
        s' = deposit_event (Unlocked (rec_sponsor r) b (rec_amount r) Force) s1)"
  unfolding force_unlock_def
  by (auto simp: result_simps)

lemma unlock_sponsorship_Inr:
  "unlock_sponsorship T spo b s = Inr s' \<longleftrightarrow>
     (\<exists>r s1. rec_sponsor r = spo \<and> revoke_sponsorship T b s = Inr (r, s1) \<and>
        s' = deposit_event (Unlocked (rec_sponsor r) b (rec_amount r) Manual) s1)"
  unfolding unlock_sponsorship_def
  by (cases "Sponsorships s b")
    (fastforce simp: result_simps dest: revoke_sponsorship_record split: if_splits)+

text \<open>An automatic unlock either leaves the storage alone or revokes.\<close>

definition auto_unlock_due ::
  "('a, 'c, 'o, 'w) Config \<Rightarrow> 'a \<Rightarrow> 'a SponsorshipRecord \<Rightarrow> ('a, 'c) Storage \<Rightarrow> bool" where
  "auto_unlock_due T b r s =
     (case rec_auto_unlock r of
        Disabled \<Rightarrow> False
      | Enabled cond \<Rightarrow> auto_unlock_condition_met T b (rec_amount r) cond s)"

definition auto_unlocked_event :: "'a \<Rightarrow> 'a SponsorshipRecord \<Rightarrow> 'a Event" where
  "auto_unlocked_event b r =
     AutoUnlocked (rec_sponsor r) b (rec_amount r)
       (case rec_auto_unlock r of Enabled cond \<Rightarrow> cond | Disabled \<Rightarrow> SpendableGeSponsored)"

lemma try_auto_unlock_internal_due:
  assumes "Sponsorships s b = Some r" and "auto_unlock_due T b r s"
  shows "try_auto_unlock_internal T b em s = Inr (u, s') \<longleftrightarrow>
    u \<and> (\<exists>s1. revoke_sponsorship T b s = Inr (r, s1) \<and> s' = emit em (auto_unlocked_event b r) s1)"
proof -
  obtain cond where c: "rec_auto_unlock r = Enabled cond"
      "auto_unlock_condition_met T b (rec_amount r) cond s"
    using assms(2) by (auto simp: auto_unlock_due_def split: AutoUnlockMode.splits)
  have r: "r' = r" if "revoke_sponsorship T b s = Inr (r', s1)" for r' s1
    using revoke_sponsorship_record [OF that] assms(1) by simp
  show ?thesis
    unfolding try_auto_unlock_internal_def emit_def auto_unlocked_event_def
    using assms(1) c by (cases em) (fastforce simp: result_simps dest: r)+
qed

lemma try_auto_unlock_internal_idle:
  assumes "Sponsorships s b = Some r" and "\<not> auto_unlock_due T b r s"
  shows "try_auto_unlock_internal T b em s = Inr (False, s)"
  using assms
  by (auto simp: try_auto_unlock_internal_def auto_unlock_due_def split: AutoUnlockMode.splits)

lemma try_auto_unlock_internal_missing:
  "Sponsorships s b = None \<Longrightarrow> try_auto_unlock_internal T b em s = Inl (Module NotSponsored)"
  by (simp add: try_auto_unlock_internal_def)

end
