(* ===== verification/Sponsorship_Invariants.thy ===== *)
theory Sponsorship_Invariants
  imports Sponsorship_Effects
begin

text \<open>
  The invariants of the sponsorship pallet. The locale \<open>revocation_invariant\<close> is the contract of what
  a revoked sponsorship and a deposited event keep, which is all the loops of the block hook do.
  \<open>sponsor_invariant\<close> is the contract an
  invariant has to meet: a sponsorship created by an allowed sponsor and a policy change keep it, too. Its lemmas lift the contract to every dispatchable and to the provider
  functions; \<open>sponsor_hook_invariant\<close> adds what the block hook does to the indexes and lifts the
  contract to \<open>on_initialize\<close>. \<open>storage_invariant\<close> and \<open>hook_invariant\<close> are the same for invariants
  that hold whoever sponsors. The invariants of the pallet are instances, here:

  \<^item> \<open>ledger_inv\<close>: the ledger of a sponsor is the sum over its live records;
  \<^item> \<open>caps_inv\<close>: no ledger exceeds the configured limits;
  \<^item> \<open>rate_inv\<close>: the per-block counters cover what was created in the block.

  The invariants of the indexes and of the holds are instances in \<open>Sponsorship_Indexes\<close>.
\<close>

subsection \<open>The contract of an invariant\<close>

locale revocation_invariant =
  fixes T :: "('a, 'c, 'o, 'w) Config"
    and I :: "('a, 'c) Storage \<Rightarrow> bool"
  assumes event: "I s \<Longrightarrow> I (deposit_event e s)"
    and revoked: "I s \<Longrightarrow> revoke_sponsorship T b s = Inr (r, s') \<Longrightarrow> I s'"
begin

lemma try_auto_unlock_internal_preserves:
  assumes "I s" and "try_auto_unlock_internal T b em s = Inr (u, s')"
  shows "I s'"
proof (cases "Sponsorships s b")
  case None
  with assms show ?thesis by (simp add: try_auto_unlock_internal_missing)
next
  case (Some r)
  show ?thesis
  proof (cases "auto_unlock_due T b r s")
    case True
    with assms(2) Some obtain s1 where s1: "revoke_sponsorship T b s = Inr (r, s1)"
      and s': "s' = emit em (auto_unlocked_event b r) s1"
      by (auto simp: try_auto_unlock_internal_due)
    from revoked [OF assms(1) s1] show ?thesis
      by (auto simp: s' emit_def intro: event)
  next
    case False
    with assms Some show ?thesis by (simp add: try_auto_unlock_internal_idle)
  qed
qed

lemma unlock_sponsorship_preserves:
  "I s \<Longrightarrow> unlock_sponsorship T spo b s = Inr s' \<Longrightarrow> I s'"
  by (auto simp: unlock_sponsorship_Inr intro: event revoked)

lemma try_auto_unlock_preserves:
  "I s \<Longrightarrow> try_auto_unlock T b s = Inr s' \<Longrightarrow> I s'"
  by (auto simp: try_auto_unlock_def result_simps intro: try_auto_unlock_internal_preserves)

lemma expire_loop_preserves: "I s \<Longrightarrow> I (expire_loop T nw bs s)"
  by (induction bs arbitrary: s) (auto split: option.splits sum.splits intro: event revoked)

lemma auto_unlock_loop_preserves:
  "I s \<Longrightarrow> auto_unlock_loop T limit i bs un re p s = (un', re', p', s') \<Longrightarrow> I s'"
  by (induction bs arbitrary: i un re p s)
    (auto simp: Let_def split: if_splits option.splits sum.splits AutoUnlockMode.splits,
      metis event revoked)

end

locale sponsor_invariant = revocation_invariant +
  fixes allowed :: "'a \<Rightarrow> bool"
  assumes sponsored: "allowed spo \<Longrightarrow> I s \<Longrightarrow> do_sponsor T spo b amount au l False s = Inr s' \<Longrightarrow> I s'"
    and policy: "I s \<Longrightarrow> Sponsorships s b = Some r \<Longrightarrow> validate_lease T l (now T s) = Inr () \<Longrightarrow>
      (rec_lease r \<noteq> l \<Longrightarrow> lease_room T b l (Expirations s)) \<Longrightarrow>
      queue_room T b au (AutoUnlockQueue s) \<Longrightarrow> I (policy_state b r au l s)"
begin

lemma sponsored_event:
  assumes "allowed spo" and "I s" and "do_sponsor T spo b amount au l em s = Inr s'"
  shows "I s'"
proof -
  from assms(3) obtain s1 where
    "do_sponsor T spo b amount au l False s = Inr s1"
    "s' = emit em (Sponsored spo b amount au l) s1"
    by (auto simp: do_sponsor_Inr emit_def)
  with sponsored [OF assms(1,2)] show ?thesis
    by (auto simp: emit_def intro: event)
qed

lemma dispatch_preserves:
  assumes "I s" and "dispatch T og call s = Inr s'"
    and "\<And>spo. ensure_signed (System T) og = Some spo \<Longrightarrow> allowed spo"
  shows "I s'"
proof (cases call)
  case (CallSponsor b amt au l)
  with assms show ?thesis by (auto simp: sponsor_def result_simps intro: sponsored_event)
next
  case (CallSponsorMinimum b au l)
  with assms show ?thesis by (auto simp: sponsor_minimum_def result_simps intro: sponsored_event)
next
  case (CallUnlock b)
  with assms show ?thesis by (auto simp: unlock_Inr intro: event revoked)
next
  case (CallSetPolicy b au l)
  with assms show ?thesis by (auto simp: set_policy_Inr intro: event policy)
next
  case (CallForceUnlock b)
  with assms show ?thesis by (auto simp: force_unlock_Inr intro: event revoked)
next
  case (CallRefresh b)
  with assms show ?thesis
    by (auto simp: refresh_def result_simps intro: try_auto_unlock_internal_preserves)
qed

lemma create_sponsorship_preserves:
  "allowed spo \<Longrightarrow> I s \<Longrightarrow> create_sponsorship T spo b amount au l s = Inr s' \<Longrightarrow> I s'"
  by (auto simp: create_sponsorship_def intro: sponsored_event)

end

text \<open>An invariant that holds whoever sponsors.\<close>

locale storage_invariant =
  fixes T :: "('a, 'c, 'o, 'w) Config"
    and I :: "('a, 'c) Storage \<Rightarrow> bool"
  assumes event: "I s \<Longrightarrow> I (deposit_event e s)"
    and sponsored: "I s \<Longrightarrow> do_sponsor T spo b amount au l False s = Inr s' \<Longrightarrow> I s'"
    and revoked: "I s \<Longrightarrow> revoke_sponsorship T b s = Inr (r, s') \<Longrightarrow> I s'"
    and policy: "I s \<Longrightarrow> Sponsorships s b = Some r \<Longrightarrow> validate_lease T l (now T s) = Inr () \<Longrightarrow>
      (rec_lease r \<noteq> l \<Longrightarrow> lease_room T b l (Expirations s)) \<Longrightarrow>
      queue_room T b au (AutoUnlockQueue s) \<Longrightarrow> I (policy_state b r au l s)"

sublocale storage_invariant \<subseteq> any: sponsor_invariant T I "\<lambda>_. True"
  by (unfold_locales; (rule event sponsored revoked policy; assumption)?)

context storage_invariant
begin

lemma dispatch_preserves: "I s \<Longrightarrow> dispatch T og call s = Inr s' \<Longrightarrow> I s'"
  by (rule any.dispatch_preserves) simp_all

lemma create_sponsorship_preserves: "I s \<Longrightarrow> create_sponsorship T spo b amount au l s = Inr s' \<Longrightarrow> I s'"
  by (rule any.create_sponsorship_preserves) simp_all

lemma genesis_build_preserves:
  "I s \<Longrightarrow> genesis_build T g s = Some s' \<Longrightarrow> I s'"
  by (induction g arbitrary: s) (auto split: sum.splits, metis sponsored)

end

text \<open>What the block hook writes besides: the bucket of the block is taken, the queue is
  replaced.\<close>

locale sponsor_hook_invariant = sponsor_invariant +
  assumes take_bucket: "I s \<Longrightarrow> I (s\<lparr>Expirations := (Expirations s)(now T s := [])\<rparr>)"
    and queue: "I s \<Longrightarrow> I (s\<lparr>AutoUnlockQueue := q\<rparr>)"
begin

lemma process_expirations_preserves:
  "I s \<Longrightarrow> process_expirations T (now T s) s = (p, s') \<Longrightarrow> I s'"
  by (auto simp: process_expirations_def Let_def intro: expire_loop_preserves take_bucket)

lemma process_auto_unlock_queue_preserves:
  assumes "I s" and "process_auto_unlock_queue T s = Some (p, s')"
  shows "I s'"
proof -
  obtain un re q s2 where l: "auto_unlock_loop T (unat (MaxQueueProcessingPerBlock T)) 0
      (AutoUnlockQueue s) [] [] 0 (s\<lparr>AutoUnlockQueue := []\<rparr>) = (un, re, q, s2)"
    by (metis surj_pair)
  from auto_unlock_loop_preserves [OF queue [OF assms(1)] l] have "I s2" .
  with assms(2) l show ?thesis
    by (auto simp: process_auto_unlock_queue_def Let_def split: if_splits intro: queue)
qed

lemma on_initialize_preserves:
  assumes "I s" and "on_initialize T (now T s) s = Some (w, s')"
  shows "I s'"
proof -
  obtain p s1 where p: "process_expirations T (now T s) s = (p, s1)" by fastforce
  with assms(2) obtain q where "process_auto_unlock_queue T s1 = Some (q, s')"
    by (auto simp: on_initialize_def split: option.splits)
  with process_expirations_preserves [OF assms(1) p] show ?thesis
    by (rule process_auto_unlock_queue_preserves)
qed

end

locale hook_invariant = storage_invariant +
  assumes take_bucket: "I s \<Longrightarrow> I (s\<lparr>Expirations := (Expirations s)(now T s := [])\<rparr>)"
    and queue: "I s \<Longrightarrow> I (s\<lparr>AutoUnlockQueue := q\<rparr>)"

sublocale hook_invariant \<subseteq> hook: sponsor_hook_invariant T I "\<lambda>_. True"
  by unfold_locales (rule take_bucket queue; assumption)+

subsection \<open>Totals over the live records\<close>

definition sponsored_by :: "'a \<Rightarrow> ('a SponsorshipRecord \<Rightarrow> nat) \<Rightarrow> ('a, 'c) Storage \<Rightarrow> nat" where
  "sponsored_by p f s = storage_sum (\<lambda>b r. if rec_sponsor r = p then f r else 0) (Sponsorships s)"

abbreviation total_amount :: "'a \<Rightarrow> ('a, 'c) Storage \<Rightarrow> nat" where
  "total_amount p \<equiv> sponsored_by p (\<lambda>r. unat (rec_amount r))"

abbreviation total_count :: "'a \<Rightarrow> ('a, 'c) Storage \<Rightarrow> nat" where
  "total_count p \<equiv> sponsored_by p (\<lambda>r. 1)"

definition created_record ::
  "('a, 'c, 'o, 'w) Config \<Rightarrow> 'a \<Rightarrow> Balance \<Rightarrow> AutoUnlockMode \<Rightarrow> Lease \<Rightarrow> ('a, 'c) Storage \<Rightarrow>
   'a SponsorshipRecord" where
  "created_record T spo amount au l s =
     \<lparr>rec_sponsor = spo, rec_amount = amount, rec_auto_unlock = au, rec_lease = l,
      rec_created_at = now T s\<rparr>"

lemma created_record_fields [simp]:
  "rec_sponsor (created_record T spo amount au l s) = spo"
  "rec_amount (created_record T spo amount au l s) = amount"
  "rec_auto_unlock (created_record T spo amount au l s) = au"
  "rec_lease (created_record T spo amount au l s) = l"
  "rec_created_at (created_record T spo amount au l s) = now T s"
  by (simp_all add: created_record_def)

lemma sponsored_state_fields [simp]:
  "ext (sponsored_state T spo b amount au l c s) = c"
  "Sponsorships (sponsored_state T spo b amount au l c s) =
     (Sponsorships s)(b \<mapsto> created_record T spo amount au l s)"
  "SponsorLedger (sponsored_state T spo b amount au l c s) =
     (SponsorLedger s)(spo := charged_ledger T amount spo s)"
  "StorageDepositHeld (sponsored_state T spo b amount au l c s) =
     (if SponsorshipStorageDeposit T \<noteq> 0
      then (StorageDepositHeld s)(b := SponsorshipStorageDeposit T) else StorageDepositHeld s)"
  "Expirations (sponsored_state T spo b amount au l c s) = expirations_insert b l (Expirations s)"
  "AutoUnlockQueue (sponsored_state T spo b amount au l c s) = queue_insert b au (AutoUnlockQueue s)"
  "events (sponsored_state T spo b amount au l c s) = events s"
  "now T' (sponsored_state T spo b amount au l c s) = block_number (System T') c"
  by (simp_all add: sponsored_state_def created_record_def now_def)

lemma revoked_state_fields [simp]:
  "ext (revoked_state b r c s) = c"
  "Sponsorships (revoked_state b r c s) = (Sponsorships s)(b := None)"
  "SponsorLedger (revoked_state b r c s) = (SponsorLedger s)
     (rec_sponsor r := released_ledger r (SponsorLedger s (rec_sponsor r)))"
  "StorageDepositHeld (revoked_state b r c s) = (StorageDepositHeld s)(b := 0)"
  "Expirations (revoked_state b r c s) = expirations_remove b (rec_lease r) (Expirations s)"
  "AutoUnlockQueue (revoked_state b r c s) = filter (\<lambda>a. a \<noteq> b) (AutoUnlockQueue s)"
  "events (revoked_state b r c s) = events s"
  "now T (revoked_state b r c s) = block_number (System T) c"
  by (simp_all add: revoked_state_def now_def)

lemma policy_state_fields [simp]:
  "ext (policy_state b r au l s) = ext s"
  "Sponsorships (policy_state b r au l s) =
     (Sponsorships s)(b \<mapsto> r\<lparr>rec_auto_unlock := au, rec_lease := l\<rparr>)"
  "SponsorLedger (policy_state b r au l s) = SponsorLedger s"
  "StorageDepositHeld (policy_state b r au l s) = StorageDepositHeld s"
  "Expirations (policy_state b r au l s) = (if rec_lease r \<noteq> l
     then expirations_remove b (rec_lease r) (expirations_insert b l (Expirations s))
     else Expirations s)"
  "AutoUnlockQueue (policy_state b r au l s) = queue_insert b au (AutoUnlockQueue s)"
  "events (policy_state b r au l s) = events s"
  "now T (policy_state b r au l s) = now T s"
  by (simp_all add: policy_state_def now_def)

lemma now_update [simp]:
  "now T (s\<lparr>AutoUnlockQueue := q\<rparr>) = now T s"
  "now T (s\<lparr>Expirations := E\<rparr>) = now T s"
  "now T (s\<lparr>ext := c\<rparr>) = block_number (System T) c"
  by (simp_all add: now_def)

lemma ledger_fields [simp]:
  "active_amount (charged_ledger T amount spo s) =
     saturating_add (active_amount (SponsorLedger s spo)) amount"
  "active_count (charged_ledger T amount spo s) =
     saturating_add (active_count (SponsorLedger s spo)) 1"
  "last_block (charged_ledger T amount spo s) = now T s"
  "sponsored_amount_in_block (charged_ledger T amount spo s) =
     (if last_block (SponsorLedger s spo) = now T s
      then saturating_add (sponsored_amount_in_block (SponsorLedger s spo)) amount else amount)"
  "new_sponsorships_in_block (charged_ledger T amount spo s) =
     (if last_block (SponsorLedger s spo) = now T s
      then saturating_add (new_sponsorships_in_block (SponsorLedger s spo)) 1 else 1)"
  "active_amount (released_ledger r ledger) =
     saturating_sub (active_amount ledger) (rec_amount r)"
  "active_count (released_ledger r ledger) = saturating_sub (active_count ledger) 1"
  "last_block (released_ledger r ledger) = last_block ledger"
  "sponsored_amount_in_block (released_ledger r ledger) = sponsored_amount_in_block ledger"
  "new_sponsorships_in_block (released_ledger r ledger) = new_sponsorships_in_block ledger"
  by (simp_all add: charged_ledger_def refresh_per_block_ledger_def released_ledger_def Let_def)

lemma sponsored_by_cong:
  "Sponsorships s' = Sponsorships s \<Longrightarrow> sponsored_by p f s' = sponsored_by p f s"
  by (simp add: sponsored_by_def)

lemma sponsored_by_const: "sponsored_by p (\<lambda>r. d) s = total_count p s * d"
  by (auto simp: sponsored_by_def storage_sum_def sum_distrib_right intro!: sum.cong)

lemma sponsored_by_sponsored:
  "finite (dom (Sponsorships s)) \<Longrightarrow> Sponsorships s b = None \<Longrightarrow>
   sponsored_by p f (sponsored_state T spo b amount au l c s) =
     sponsored_by p f s + (if spo = p then f (created_record T spo amount au l s) else 0)"
  by (simp add: sponsored_by_def storage_sum_insert)

lemma sponsored_by_revoked:
  "finite (dom (Sponsorships s)) \<Longrightarrow> Sponsorships s b = Some r \<Longrightarrow>
   sponsored_by p f (revoked_state b r c s) + (if rec_sponsor r = p then f r else 0) =
     sponsored_by p f s"
  using storage_sum_delete [of "Sponsorships s" b r "\<lambda>b r. if rec_sponsor r = p then f r else 0"]
  by (simp add: sponsored_by_def)

lemma sponsored_by_policy:
  "finite (dom (Sponsorships s)) \<Longrightarrow> Sponsorships s b = Some r \<Longrightarrow>
   f (r\<lparr>rec_auto_unlock := au, rec_lease := l\<rparr>) = f r \<Longrightarrow>
   sponsored_by p f (policy_state b r au l s) = sponsored_by p f s"
  using storage_sum_update [of "Sponsorships s" b r "\<lambda>b r. if rec_sponsor r = p then f r else 0"
      "r\<lparr>rec_auto_unlock := au, rec_lease := l\<rparr>"]
  by (cases "rec_sponsor r = p") (simp_all add: sponsored_by_def)

lemma sponsored_by_ge:
  "finite (dom (Sponsorships s)) \<Longrightarrow> Sponsorships s b = Some r \<Longrightarrow>
   f r \<le> sponsored_by (rec_sponsor r) f s"
  using storage_sum_le [of "Sponsorships s" b r
      "\<lambda>b' r'. if rec_sponsor r' = rec_sponsor r then f r' else 0"]
  by (simp add: sponsored_by_def)

subsection \<open>The ledger is the sum over the live records\<close>

text \<open>The caps are below the largest word, so a sum that passes them did not saturate.\<close>

definition exact_caps :: "('a, 'c, 'o, 'w) Config \<Rightarrow> bool" where
  "exact_caps T \<longleftrightarrow>
     MaxTotalSponsoredPerSponsor T < - 1 \<and> MaxSponsoredAccountsPerSponsor T < - 1 \<and>
     MaxSponsoredAmountPerBlock T < - 1 \<and> MaxNewSponsorshipsPerBlock T < - 1"

lemma charged_exact:
  assumes "exact_caps T" and "within_caps T (charged_ledger T amount spo s)"
  shows "unat (saturating_add (active_amount (SponsorLedger s spo)) amount) =
      unat (active_amount (SponsorLedger s spo)) + unat amount"
    and "unat (saturating_add (active_count (SponsorLedger s spo)) 1) =
      unat (active_count (SponsorLedger s spo)) + 1"
    and "last_block (SponsorLedger s spo) = now T s \<Longrightarrow>
      unat (saturating_add (sponsored_amount_in_block (SponsorLedger s spo)) amount) =
      unat (sponsored_amount_in_block (SponsorLedger s spo)) + unat amount"
    and "last_block (SponsorLedger s spo) = now T s \<Longrightarrow>
      unat (saturating_add (new_sponsorships_in_block (SponsorLedger s spo)) 1) =
      unat (new_sponsorships_in_block (SponsorLedger s spo)) + 1"
proof -
  note caps = assms [unfolded exact_caps_def within_caps_def ledger_fields]
  show "unat (saturating_add (active_amount (SponsorLedger s spo)) amount) =
      unat (active_amount (SponsorLedger s spo)) + unat amount"
    using caps by (intro saturating_add_le_exact [where c = "MaxTotalSponsoredPerSponsor T"]) simp_all
  show "unat (saturating_add (active_count (SponsorLedger s spo)) 1) =
      unat (active_count (SponsorLedger s spo)) + 1"
    using caps saturating_add_le_exact [of "active_count (SponsorLedger s spo)" 1
      "MaxSponsoredAccountsPerSponsor T"] by simp
  assume l: "last_block (SponsorLedger s spo) = now T s"
  show "unat (saturating_add (sponsored_amount_in_block (SponsorLedger s spo)) amount) =
      unat (sponsored_amount_in_block (SponsorLedger s spo)) + unat amount"
    using caps l
    by (intro saturating_add_le_exact [where c = "MaxSponsoredAmountPerBlock T"]) simp_all
  show "unat (saturating_add (new_sponsorships_in_block (SponsorLedger s spo)) 1) =
      unat (new_sponsorships_in_block (SponsorLedger s spo)) + 1"
    using caps l saturating_add_le_exact [of "new_sponsorships_in_block (SponsorLedger s spo)" 1
      "MaxNewSponsorshipsPerBlock T"] by simp
qed

definition ledger_inv :: "('a, 'c) Storage \<Rightarrow> bool" where
  "ledger_inv s \<longleftrightarrow>
     finite (dom (Sponsorships s)) \<and>
     (\<forall>p. unat (active_amount (SponsorLedger s p)) = total_amount p s \<and>
          unat (active_count (SponsorLedger s p)) = total_count p s)"

lemma ledger_inv_frame [simp]:
  "ledger_inv (deposit_event e s) = ledger_inv s"
  "ledger_inv (s\<lparr>Expirations := E\<rparr>) = ledger_inv s"
  "ledger_inv (s\<lparr>AutoUnlockQueue := q\<rparr>) = ledger_inv s"
  "ledger_inv (s\<lparr>ext := c\<rparr>) = ledger_inv s"
  by (simp_all add: ledger_inv_def sponsored_by_def)

lemma ledger_inv_sponsored:
  assumes "exact_caps T" "ledger_inv s" "Sponsorships s b = None"
    "within_caps T (charged_ledger T amount spo s)"
  shows "ledger_inv (sponsored_state T spo b amount au l c s)"
proof -
  have f: "finite (dom (Sponsorships s))" using assms(2) by (simp add: ledger_inv_def)
  have "unat (saturating_add (active_amount (SponsorLedger s spo)) amount) =
      total_amount spo s + unat amount"
    "unat (saturating_add (active_count (SponsorLedger s spo)) 1) = total_count spo s + 1"
    using charged_exact [OF assms(1,4)] assms(2) unfolding ledger_inv_def by metis+
  with assms(2) show ?thesis
    by (simp add: ledger_inv_def sponsored_by_sponsored [OF f assms(3)])
qed

lemma ledger_inv_revoked:
  assumes "ledger_inv s" "Sponsorships s b = Some r"
  shows "ledger_inv (revoked_state b r c s)"
proof -
  have f: "finite (dom (Sponsorships s))" using assms(1) by (simp add: ledger_inv_def)
  have e: "total_amount p (revoked_state b r c s) =
      total_amount p s - (if rec_sponsor r = p then unat (rec_amount r) else 0)"
    "total_count p (revoked_state b r c s) = total_count p s - (if rec_sponsor r = p then 1 else 0)"
    for p
    using sponsored_by_revoked [OF f assms(2), of p "\<lambda>r. unat (rec_amount r)" c]
      sponsored_by_revoked [OF f assms(2), of p "\<lambda>r. 1" c] by (auto split: if_splits)
  from assms(1) show ?thesis
    unfolding ledger_inv_def e by (simp add: unat_saturating_sub)
qed

lemma ledger_inv_policy:
  assumes "ledger_inv s" "Sponsorships s b = Some r"
  shows "ledger_inv (policy_state b r au l s)"
  using assms sponsored_by_policy [OF _ assms(2), where f = "\<lambda>r. unat (rec_amount r)"]
    sponsored_by_policy [OF _ assms(2), where f = "\<lambda>r. 1"]
  by (simp add: ledger_inv_def del: fun_upd_apply)

interpretation ledger: hook_invariant T "\<lambda>s. exact_caps T \<longrightarrow> ledger_inv s"
  for T :: "('a, 'c, 'o, 'w) Config"
proof unfold_locales
  show "exact_caps T \<longrightarrow> ledger_inv s'"
    if "exact_caps T \<longrightarrow> ledger_inv s" "do_sponsor T spo b amount au l False s = Inr s'"
    for s s' :: "('a, 'c) Storage" and spo b amount au l
    using that by (auto simp: do_sponsor_Inr emit_def intro: ledger_inv_sponsored)
  show "exact_caps T \<longrightarrow> ledger_inv s'"
    if "exact_caps T \<longrightarrow> ledger_inv s" "revoke_sponsorship T b s = Inr (r, s')"
    for s s' :: "('a, 'c) Storage" and b r
    using that by (auto simp: revoke_sponsorship_Inr intro: ledger_inv_revoked)
qed (simp_all add: ledger_inv_policy)

subsection \<open>No ledger exceeds the configured limits\<close>

definition caps_inv :: "('a, 'c, 'o, 'w) Config \<Rightarrow> ('a, 'c) Storage \<Rightarrow> bool" where
  "caps_inv T s \<longleftrightarrow> (\<forall>p. within_caps T (SponsorLedger s p))"

lemma caps_inv_frame [simp]:
  "caps_inv T (deposit_event e s) = caps_inv T s"
  "caps_inv T (s\<lparr>Expirations := E\<rparr>) = caps_inv T s"
  "caps_inv T (s\<lparr>AutoUnlockQueue := q\<rparr>) = caps_inv T s"
  "caps_inv T (s\<lparr>ext := c\<rparr>) = caps_inv T s"
  by (simp_all add: caps_inv_def)

lemma within_caps_released: "within_caps T ledger \<Longrightarrow> within_caps T (released_ledger r ledger)"
  by (auto simp: within_caps_def intro: order_trans [OF saturating_sub_le])

interpretation caps: hook_invariant T "caps_inv T"
  for T :: "('a, 'c, 'o, 'w) Config"
proof unfold_locales
  show "caps_inv T s'"
    if "caps_inv T s" "do_sponsor T spo b amount au l False s = Inr s'"
    for s s' :: "('a, 'c) Storage" and spo b amount au l
    using that by (auto simp: do_sponsor_Inr emit_def caps_inv_def)
  show "caps_inv T s'"
    if "caps_inv T s" "revoke_sponsorship T b s = Inr (r, s')"
    for s s' :: "('a, 'c) Storage" and b r
    using that by (auto simp: revoke_sponsorship_Inr caps_inv_def within_caps_released)
qed (simp_all, simp add: caps_inv_def)

subsection \<open>The currency calls and the clock\<close>

abbreviation clocked :: "('a, 'c, 'o, 'w) Config \<Rightarrow> bool" where
  "clocked T \<equiv> clock_law (System T) (Currency T)"

lemma sponsor_moves_clock:
  "clocked T \<Longrightarrow> sponsor_moves T spo b amount (ext s) c \<Longrightarrow> block_number (System T) c = now T s"
  unfolding clock_law_def sponsor_moves_def Let_def now_def by (metis (no_types, lifting))

lemma revoke_moves_clock:
  "clocked T \<Longrightarrow> revoke_moves T b r dep (ext s) c \<Longrightarrow> block_number (System T) c = now T s"
  unfolding clock_law_def revoke_moves_def now_def by (metis (no_types, lifting))

subsection \<open>The counters of the current block\<close>

definition rate_inv :: "('a, 'c, 'o, 'w) Config \<Rightarrow> ('a, 'c) Storage \<Rightarrow> bool" where
  "rate_inv T s \<longleftrightarrow>
     finite (dom (Sponsorships s)) \<and>
     (\<forall>b r. Sponsorships s b = Some r \<longrightarrow>
        rec_created_at r \<le> last_block (SponsorLedger s (rec_sponsor r))) \<and>
     (\<forall>p. last_block (SponsorLedger s p) \<le> now T s \<and>
        sponsored_by p (\<lambda>r. if rec_created_at r = last_block (SponsorLedger s p)
            then unat (rec_amount r) else 0) s
          \<le> unat (sponsored_amount_in_block (SponsorLedger s p)) \<and>
        sponsored_by p (\<lambda>r. if rec_created_at r = last_block (SponsorLedger s p)
            then 1 else 0) s
          \<le> unat (new_sponsorships_in_block (SponsorLedger s p)))"

lemma rate_inv_frame [simp]:
  "rate_inv T (deposit_event e s) = rate_inv T s"
  "rate_inv T (s\<lparr>Expirations := E\<rparr>) = rate_inv T s"
  "rate_inv T (s\<lparr>AutoUnlockQueue := q\<rparr>) = rate_inv T s"
  by (simp_all add: rate_inv_def sponsored_by_def)

lemma rate_inv_created:
  "rate_inv T s \<Longrightarrow> Sponsorships s b = Some r \<Longrightarrow> rec_sponsor r = p \<Longrightarrow>
   rec_created_at r \<le> last_block (SponsorLedger s p)"
  by (auto simp: rate_inv_def)

lemma rate_inv_counters:
  assumes "rate_inv T s"
  shows "sponsored_by p (\<lambda>r. if rec_created_at r = last_block (SponsorLedger s p)
            then unat (rec_amount r) else 0) s
          \<le> unat (sponsored_amount_in_block (SponsorLedger s p))"
    and "sponsored_by p (\<lambda>r. if rec_created_at r = last_block (SponsorLedger s p)
            then 1 else 0) s
          \<le> unat (new_sponsorships_in_block (SponsorLedger s p))"
  using assms by (simp_all add: rate_inv_def)

text \<open>Nothing a sponsor created carries a block the ledger of the sponsor has not seen.\<close>

lemma sponsored_by_later:
  assumes "\<And>b r. Sponsorships s b = Some r \<Longrightarrow> rec_sponsor r = p \<Longrightarrow> rec_created_at r < n"
  shows "sponsored_by p (\<lambda>r. if rec_created_at r = n then f r else 0) s = 0"
  unfolding sponsored_by_def
  by (rule storage_sum_zero) (use assms in fastforce)

lemma rate_inv_sponsored:
  assumes caps: "exact_caps T" "within_caps T (charged_ledger T amount spo s)"
    and inv: "rate_inv T s" and b: "Sponsorships s b = None"
    and c: "block_number (System T) c = now T s"
  shows "rate_inv T (sponsored_state T spo b amount au l c s)"
proof -
  let ?L = "SponsorLedger s spo"
  have f: "finite (dom (Sponsorships s))" using inv by (simp add: rate_inv_def)
  have le: "last_block ?L \<le> now T s" using inv by (simp add: rate_inv_def)
  have zero: "sponsored_by spo (\<lambda>r. if rec_created_at r = now T s then g r else 0) s = 0"
    if "last_block ?L \<noteq> now T s" for g
  proof (rule sponsored_by_later)
    fix b r
    assume "Sponsorships s b = Some r" "rec_sponsor r = spo"
    from rate_inv_created [OF inv this] le that show "rec_created_at r < now T s" by order
  qed
  have amt: "sponsored_by spo (\<lambda>r. if rec_created_at r = now T s then unat (rec_amount r) else 0) s
      + unat amount \<le> unat (sponsored_amount_in_block (charged_ledger T amount spo s))"
    using rate_inv_counters [OF inv, of spo] zero [of "\<lambda>r. unat (rec_amount r)"]
      charged_exact(3) [OF caps] by auto
  have cnt: "sponsored_by spo (\<lambda>r. if rec_created_at r = now T s then 1 else 0) s
      + 1 \<le> unat (new_sponsorships_in_block (charged_ledger T amount spo s))"
    using rate_inv_counters [OF inv, of spo] zero [of "\<lambda>r. 1"] charged_exact(4) [OF caps] by auto
  show ?thesis
    unfolding rate_inv_def sponsored_by_sponsored [OF f b]
    using inv amt cnt c f
    by (auto simp: rate_inv_def intro: order_trans [OF rate_inv_created [OF inv] le]
      simp del: ledger_fields(4,5))
qed

lemma rate_inv_revoked:
  assumes inv: "rate_inv T s" and b: "Sponsorships s b = Some r"
    and c: "block_number (System T) c = now T s"
  shows "rate_inv T (revoked_state b r c s)"
proof -
  have f: "finite (dom (Sponsorships s))" using inv by (simp add: rate_inv_def)
  have le: "sponsored_by p g (revoked_state b r c s) \<le> sponsored_by p g s" for p g
    using sponsored_by_revoked [OF f b, of p g c] by linarith
  show ?thesis
    unfolding rate_inv_def
    using inv c rate_inv_created [OF inv] by (auto simp: rate_inv_def intro: order_trans [OF le])
qed

lemma rate_inv_policy:
  assumes inv: "rate_inv T s" and b: "Sponsorships s b = Some r"
  shows "rate_inv T (policy_state b r au l s)"
proof -
  have f: "finite (dom (Sponsorships s))" using inv by (simp add: rate_inv_def)
  have eq: "sponsored_by p (\<lambda>r. if rec_created_at r = n then g (rec_amount r) else 0)
      (policy_state b r au l s) =
      sponsored_by p (\<lambda>r. if rec_created_at r = n then g (rec_amount r) else 0) s" for p n g
    by (rule sponsored_by_policy [OF f b]) simp
  show ?thesis
    unfolding rate_inv_def eq [where g = unat] eq [where g = "\<lambda>_. 1"]
    using inv b by (auto simp: rate_inv_def)
qed

interpretation rate: hook_invariant T "\<lambda>s. exact_caps T \<and> clocked T \<longrightarrow> rate_inv T s"
  for T :: "('a, 'c, 'o, 'w) Config"
proof unfold_locales
  show "exact_caps T \<and> clocked T \<longrightarrow> rate_inv T s'"
    if "exact_caps T \<and> clocked T \<longrightarrow> rate_inv T s" "do_sponsor T spo b amount au l False s = Inr s'"
    for s s' :: "('a, 'c) Storage" and spo b amount au l
    using that
    by (auto simp: do_sponsor_Inr emit_def intro: rate_inv_sponsored sponsor_moves_clock)
  show "exact_caps T \<and> clocked T \<longrightarrow> rate_inv T s'"
    if "exact_caps T \<and> clocked T \<longrightarrow> rate_inv T s" "revoke_sponsorship T b s = Inr (r, s')"
    for s s' :: "('a, 'c) Storage" and b r
    using that
    by (auto simp: revoke_sponsorship_Inr intro: rate_inv_revoked revoke_moves_clock)
qed (simp_all add: rate_inv_policy)

end
