(* ===== verification/Sponsorship_Indexes.thy ===== *)
theory Sponsorship_Indexes
  imports Sponsorship_Invariants
begin

text \<open>
  The invariants of the sponsorship pallet that tie its storage items to each other and to the
  currency:

  \<^item> \<open>expiry_inv\<close>: a bucket of the expiry index names only live sponsorships with that lease, and
    every lease that ends after the current block is in its bucket;
  \<^item> \<open>record_inv\<close>: records meet the minimum and the lease limit, and the storage deposit is
    recorded for the sponsored accounts and no other;
  \<^item> \<open>hold_inv\<close>: what the currency holds for the pallet is what the records say;
  \<^item> \<open>queue_inv\<close>: the queue names live sponsorships, each once, and every one whose automatic
    unlock is enabled. The block hook empties the queue while it works, so this one is no instance
    of \<open>hook_invariant\<close>: the loop is followed with its two output vectors.
\<close>

subsection \<open>The expiry index\<close>

definition bucket_sound ::
  "('a, 'c, 'o, 'w) Config \<Rightarrow> ('a, 'c) Storage \<Rightarrow> BlockNumber \<Rightarrow> bool" where
  "bucket_sound T s n \<longleftrightarrow>
     distinct (Expirations s n) \<and>
     length (Expirations s n) \<le> unat (MaxQueueProcessingPerBlock T) \<and>
     (\<forall>b\<in>set (Expirations s n). map_option rec_lease (Sponsorships s b) = Some (Until n))"

definition expiry_inv :: "('a, 'c, 'o, 'w) Config \<Rightarrow> ('a, 'c) Storage \<Rightarrow> bool" where
  "expiry_inv T s \<longleftrightarrow>
     (\<forall>n. bucket_sound T s n) \<and>
     (\<forall>b n. map_option rec_lease (Sponsorships s b) = Some (Until n) \<longrightarrow> now T s < n \<longrightarrow>
        b \<in> set (Expirations s n))"

lemma expiry_inv_frame [simp]:
  "expiry_inv T (deposit_event e s) = expiry_inv T s"
  "expiry_inv T (s\<lparr>AutoUnlockQueue := q\<rparr>) = expiry_inv T s"
  by (simp_all add: expiry_inv_def bucket_sound_def)

lemma expirations_insert_apply:
  "expirations_insert b l E n = (if l = Until n then push_unique b (E n) else E n)"
  by (auto simp: expirations_insert_def split: Lease.splits)

lemma expirations_remove_apply:
  "expirations_remove b l E n = (if l = Until n then filter (\<lambda>a. a \<noteq> b) (E n) else E n)"
  by (auto simp: expirations_remove_def split: Lease.splits)

lemma lease_room_Until: "lease_room T b (Until n) E = has_room T b (E n)"
  by (simp add: lease_room_def)

lemma expiry_inv_bucket:
  "expiry_inv T s \<Longrightarrow> b \<in> set (Expirations s n) \<Longrightarrow>
   \<exists>r. Sponsorships s b = Some r \<and> rec_lease r = Until n"
  by (auto simp: expiry_inv_def bucket_sound_def)

lemma expiry_inv_not_in_bucket:
  "expiry_inv T s \<Longrightarrow> map_option rec_lease (Sponsorships s b) \<noteq> Some (Until n) \<Longrightarrow>
   b \<notin> set (Expirations s n)"
  using expiry_inv_bucket [of T s b n] by auto

lemma expiry_inv_sponsored:
  assumes "expiry_inv T s" "Sponsorships s b = None" "lease_room T b l (Expirations s)"
    "block_number (System T) c = now T s"
  shows "expiry_inv T (sponsored_state T spo b amount au l c s)"
  using assms expiry_inv_not_in_bucket [OF assms(1), of b]
  by (auto simp: expiry_inv_def bucket_sound_def expirations_insert_apply lease_room_Until
      length_push_unique split: if_splits)

lemma expiry_inv_revoked:
  assumes "expiry_inv T s" "Sponsorships s b = Some r" "block_number (System T) c = now T s"
  shows "expiry_inv T (revoked_state b r c s)"
  using assms expiry_inv_not_in_bucket [OF assms(1), of b]
  by (auto simp: expiry_inv_def bucket_sound_def expirations_remove_apply
      intro: order_trans [OF length_filter_le])

lemma expiry_inv_policy:
  assumes "expiry_inv T s" "Sponsorships s b = Some r"
    "rec_lease r \<noteq> l \<Longrightarrow> lease_room T b l (Expirations s)"
  shows "expiry_inv T (policy_state b r au l s)"
  using assms expiry_inv_not_in_bucket [OF assms(1), of b]
  by (cases "rec_lease r = l")
    (auto simp: expiry_inv_def bucket_sound_def expirations_insert_apply expirations_remove_apply
      lease_room_Until length_push_unique intro: order_trans [OF length_filter_le] split: if_splits)

interpretation expiry: hook_invariant T "\<lambda>s. clocked T \<longrightarrow> expiry_inv T s"
  for T :: "('a, 'c, 'o, 'w) Config"
proof unfold_locales
  show "clocked T \<longrightarrow> expiry_inv T s'"
    if "clocked T \<longrightarrow> expiry_inv T s" "do_sponsor T spo b amount au l False s = Inr s'"
    for s s' :: "('a, 'c) Storage" and spo b amount au l
    using that
    by (auto simp: do_sponsor_Inr emit_def intro: expiry_inv_sponsored sponsor_moves_clock)
  show "clocked T \<longrightarrow> expiry_inv T s'"
    if "clocked T \<longrightarrow> expiry_inv T s" "revoke_sponsorship T b s = Inr (r, s')"
    for s s' :: "('a, 'c) Storage" and b r
    using that
    by (auto simp: revoke_sponsorship_Inr intro: expiry_inv_revoked revoke_moves_clock)
  show "clocked T \<longrightarrow> expiry_inv T (s\<lparr>Expirations := (Expirations s)(now T s := [])\<rparr>)"
    if "clocked T \<longrightarrow> expiry_inv T s" for s :: "('a, 'c) Storage"
    using that by (auto simp: expiry_inv_def bucket_sound_def)
qed (simp_all add: expiry_inv_policy)

subsection \<open>Records\<close>

definition record_ok :: "('a, 'c, 'o, 'w) Config \<Rightarrow> BlockNumber \<Rightarrow> 'a SponsorshipRecord \<Rightarrow> bool" where
  "record_ok T nw r \<longleftrightarrow>
     minimum_sponsorship T \<le> rec_amount r \<and>
     (\<forall>n. rec_lease r = Until n \<longrightarrow> unat n \<le> unat nw + unat (MaxLeaseDuration T))"

definition record_inv :: "('a, 'c, 'o, 'w) Config \<Rightarrow> ('a, 'c) Storage \<Rightarrow> bool" where
  "record_inv T s \<longleftrightarrow>
     (\<forall>b. Sponsorships s b = None \<longrightarrow> StorageDepositHeld s b = 0) \<and>
     (\<forall>b r. Sponsorships s b = Some r \<longrightarrow>
        record_ok T (now T s) r \<and> StorageDepositHeld s b = SponsorshipStorageDeposit T)"

lemma record_inv_frame [simp]:
  "record_inv T (deposit_event e s) = record_inv T s"
  "record_inv T (s\<lparr>Expirations := E\<rparr>) = record_inv T s"
  "record_inv T (s\<lparr>AutoUnlockQueue := q\<rparr>) = record_inv T s"
  by (simp_all add: record_inv_def)

lemma validate_lease_Inr:
  "validate_lease T l nw = Inr u \<longleftrightarrow>
     (\<forall>n. l = Until n \<longrightarrow> nw \<le> n \<and> unat n \<le> unat nw + unat (MaxLeaseDuration T))"
  by (auto simp: validate_lease_def result_simps word_le_nat_alt unat_saturating_sub
      split: Lease.splits)

lemma record_inv_sponsored:
  assumes "record_inv T s" "Sponsorships s b = None" "minimum_sponsorship T \<le> amount"
    "validate_lease T l (now T s) = Inr ()" "block_number (System T) c = now T s"
  shows "record_inv T (sponsored_state T spo b amount au l c s)"
  using assms by (auto simp: record_inv_def record_ok_def validate_lease_Inr)

interpretation records: hook_invariant T "\<lambda>s. clocked T \<longrightarrow> record_inv T s"
  for T :: "('a, 'c, 'o, 'w) Config"
proof unfold_locales
  show "clocked T \<longrightarrow> record_inv T s'"
    if "clocked T \<longrightarrow> record_inv T s" "do_sponsor T spo b amount au l False s = Inr s'"
    for s s' :: "('a, 'c) Storage" and spo b amount au l
    using that
    by (auto simp: do_sponsor_Inr emit_def intro: record_inv_sponsored sponsor_moves_clock)
  show "clocked T \<longrightarrow> record_inv T s'"
    if "clocked T \<longrightarrow> record_inv T s" "revoke_sponsorship T b s = Inr (r, s')"
    for s s' :: "('a, 'c) Storage" and b r
    using that by (auto simp: revoke_sponsorship_Inr record_inv_def revoke_moves_clock
      split: if_splits)
  show "clocked T \<longrightarrow> record_inv T (policy_state b r au l s)"
    if "clocked T \<longrightarrow> record_inv T s" "Sponsorships s b = Some r"
      "validate_lease T l (now T s) = Inr ()"
    for s :: "('a, 'c) Storage" and b r au l
    using that by (auto simp: record_inv_def record_ok_def validate_lease_Inr split: option.splits)
qed simp_all

subsection \<open>Holds\<close>

abbreviation lawful :: "('a, 'c, 'o, 'w) Config \<Rightarrow> bool" where
  "lawful T \<equiv> hold_currency_laws (System T) (Currency T)"

lemma lawful_clocked: "lawful T \<Longrightarrow> clocked T"
  by (simp add: hold_currency_laws_def)

text \<open>What the two groups of currency calls do to the holds and to the sponsor.\<close>

lemma sponsor_moves_holds:
  assumes "lawful T" and "sponsor_moves T spo b amount c c'"
  shows "unat (balance_on_hold (Currency T) c' Sponsorship a) =
      unat (balance_on_hold (Currency T) c Sponsorship a) + (if a = b then unat amount else 0)"
    and "unat (balance_on_hold (Currency T) c' StorageDeposit a) =
      unat (balance_on_hold (Currency T) c StorageDeposit a) +
      (if a = spo then unat (SponsorshipStorageDeposit T) else 0)"
    and "unat (balance (Currency T) c' a) +
      (if a = spo then unat amount + unat (SponsorshipStorageDeposit T) else 0) \<le>
      unat (balance (Currency T) c a)"
    and "a \<noteq> spo \<or> unat amount + unat (SponsorshipStorageDeposit T) +
        unat (minimum_balance (Currency T)) \<le> unat (balance (Currency T) c spo) \<Longrightarrow>
      unat (balance (Currency T) c' a) +
      (if a = spo then unat amount + unat (SponsorshipStorageDeposit T) else 0) =
      unat (balance (Currency T) c a)"
proof -
  from assms(1) have laws: "transfer_and_hold_law (Currency T)" "hold_law (Currency T)"
    "providers_law (System T) (Currency T)"
    by (simp_all add: hold_currency_laws_def)
  from assms(2) obtain c2 where
    t: "transfer_and_hold (Currency T) Sponsorship spo b amount Exact Preserve Polite
      (inc_providers (System T) b c) = Some c2"
    and h: "if SponsorshipStorageDeposit T \<noteq> 0
      then hold (Currency T) StorageDeposit spo (SponsorshipStorageDeposit T) c2 = Some c' else c' = c2"
    by (auto simp: sponsor_moves_def Let_def)
  note 1 = transfer_and_hold_lawD [OF laws(1) t, unfolded providers_lawD(1,2) [OF laws(3)]]
  note 2 = hold_lawD [OF laws(2) h]
  show "unat (balance_on_hold (Currency T) c' Sponsorship a) =
      unat (balance_on_hold (Currency T) c Sponsorship a) + (if a = b then unat amount else 0)"
    using 1(1) [of Sponsorship a] 2(1) [of Sponsorship a] by simp
  show "unat (balance_on_hold (Currency T) c' StorageDeposit a) =
      unat (balance_on_hold (Currency T) c StorageDeposit a) +
      (if a = spo then unat (SponsorshipStorageDeposit T) else 0)"
    using 1(1) [of StorageDeposit a] 2(1) [of StorageDeposit a] by simp
  show "unat (balance (Currency T) c' a) +
      (if a = spo then unat amount + unat (SponsorshipStorageDeposit T) else 0) \<le>
      unat (balance (Currency T) c a)"
    using 1(2) [of a] 2(2) [of a] by (simp split: if_splits)
  show "unat (balance (Currency T) c' a) +
      (if a = spo then unat amount + unat (SponsorshipStorageDeposit T) else 0) =
      unat (balance (Currency T) c a)"
    if "a \<noteq> spo \<or> unat amount + unat (SponsorshipStorageDeposit T) +
      unat (minimum_balance (Currency T)) \<le> unat (balance (Currency T) c spo)"
    using 1(2) [of a] 2(3) [of a] that by (cases "a = spo") auto
qed

text \<open>A sponsor that could pay keeps the minimum balance, so nothing of it is lost as dust.\<close>

lemma sponsor_pays_exactly:
  assumes "lawful T" and "sponsor_moves T spo b amount (ext s) c'" and "sponsor_can_pay T spo amount s"
  shows "unat (balance (Currency T) c' a) +
      (if a = spo then unat amount + unat (SponsorshipStorageDeposit T) else 0) =
      unat (balance (Currency T) (ext s) a)"
proof (cases "amount = 0 \<and> SponsorshipStorageDeposit T = 0")
  case True
  with assms(1) show ?thesis
    using assms(2) unfolding sponsor_moves_def
    by (auto simp: hold_currency_laws_def Let_def providers_lawD(2) dest: transfer_and_hold_lawD(2) [of _ _ _ _ _ _ _ a])
next
  case False
  let ?C = "Currency T" and ?t = "unat amount + unat (SponsorshipStorageDeposit T)"
  let ?r = "reducible_balance ?C (ext s) spo Preserve Polite"
  have le: "?t \<le> unat (balance ?C (ext s) spo)"
    using sponsor_moves_holds(3) [OF assms(1,2), of spo] by simp
  with unat_bound [of "balance ?C (ext s) spo"] have t: "?t \<le> unat ?r"
    using assms(3) by (simp add: sponsor_can_pay_def word_le_nat_alt unat_saturating_add)
  with False have "?r \<noteq> 0" by (auto simp: word_unat_eq_iff)
  with assms(1) have "unat ?r + unat (minimum_balance ?C) \<le> unat (balance ?C (ext s) spo)"
    by (simp add: hold_currency_laws_def reducible_law_def)
  with t show ?thesis by (intro sponsor_moves_holds(4) [OF assms(1,2)]) simp
qed

lemma revoke_moves_holds:
  assumes "lawful T" and "revoke_moves T b r dep c c'"
  shows "unat (balance_on_hold (Currency T) c' Sponsorship a) +
      (if a = b then unat (rec_amount r) else 0) =
      unat (balance_on_hold (Currency T) c Sponsorship a)"
    and "unat (balance_on_hold (Currency T) c' StorageDeposit a) +
      (if a = rec_sponsor r then unat dep else 0) =
      unat (balance_on_hold (Currency T) c StorageDeposit a)"
    and "a \<noteq> b \<Longrightarrow> a \<noteq> rec_sponsor r \<or> minimum_balance (Currency T) \<le> rec_amount r \<Longrightarrow>
      unat (balance (Currency T) c' a) = unat (balance (Currency T) c a) +
      (if a = rec_sponsor r then unat (rec_amount r) + unat dep else 0)"
    and "unat (balance (Currency T) c' a) \<le>
      unat (balance (Currency T) c a) +
      (if a = rec_sponsor r then unat (rec_amount r) + unat dep else 0)"
proof -
  from assms(1) have laws: "transfer_on_hold_law (Currency T)" "release_law (Currency T)"
    "providers_law (System T) (Currency T)"
    by (simp_all add: hold_currency_laws_def)
  from assms(2) obtain c1 c2 where
    t: "transfer_on_hold (Currency T) Sponsorship b (rec_sponsor r) (rec_amount r)
        Exact Free Polite c = Some c1"
    and h: "if dep \<noteq> 0 then release (Currency T) StorageDeposit (rec_sponsor r) dep Exact c1 = Some c2
       else c2 = c1"
    and c': "c' = snd (dec_providers (System T) b c2)"
    by (auto simp: revoke_moves_def)
  note 1 = transfer_on_hold_lawD [OF laws(1) t] and 2 = release_lawD [OF laws(2) h]
    and p = providers_lawD(3,4,5) [OF laws(3), where who = b and c = c2, folded c']
  show "unat (balance_on_hold (Currency T) c' Sponsorship a) +
      (if a = b then unat (rec_amount r) else 0) =
      unat (balance_on_hold (Currency T) c Sponsorship a)"
    using 1(1) [of Sponsorship a] 2(1) [of Sponsorship a] by (simp add: p)
  show "unat (balance_on_hold (Currency T) c' StorageDeposit a) +
      (if a = rec_sponsor r then unat dep else 0) =
      unat (balance_on_hold (Currency T) c StorageDeposit a)"
    using 1(1) [of StorageDeposit a] 2(1) [of StorageDeposit a] by (simp add: p)
  show "unat (balance (Currency T) c' a) =
      unat (balance (Currency T) c a) +
      (if a = rec_sponsor r then unat (rec_amount r) + unat dep else 0)"
    if "a \<noteq> b" "a \<noteq> rec_sponsor r \<or> minimum_balance (Currency T) \<le> rec_amount r"
  proof -
    have b1: "unat (balance (Currency T) c1 a) = unat (balance (Currency T) c a) +
        (if a = rec_sponsor r then unat (rec_amount r) else 0)"
      using 1(3) that(1) by blast
    with that(2) have "a \<noteq> rec_sponsor r \<or> keeps_free (Currency T) (rec_sponsor r) c1 c2"
      by (auto simp: keeps_free_def word_le_nat_alt)
    from 2(3) [OF this] b1 p(2) [OF that(1)] show ?thesis by simp
  qed
  show "unat (balance (Currency T) c' a) \<le>
      unat (balance (Currency T) c a) +
      (if a = rec_sponsor r then unat (rec_amount r) + unat dep else 0)"
    using 1(2) [of a] 2(2) [of a] p(3) [of a] by (simp add: word_le_nat_alt split: if_splits)
qed

definition hold_inv :: "('a, 'c, 'o, 'w) Config \<Rightarrow> ('a, 'c) Storage \<Rightarrow> bool" where
  "hold_inv T s \<longleftrightarrow>
     finite (dom (Sponsorships s)) \<and>
     (\<forall>b. StorageDepositHeld s b =
            (if Sponsorships s b = None then 0 else SponsorshipStorageDeposit T)) \<and>
     (\<forall>a. unat (balance_on_hold (Currency T) (ext s) Sponsorship a) =
            (case Sponsorships s a of None \<Rightarrow> 0 | Some r \<Rightarrow> unat (rec_amount r))) \<and>
     (\<forall>a. unat (balance_on_hold (Currency T) (ext s) StorageDeposit a) =
            sponsored_by a (\<lambda>r. unat (SponsorshipStorageDeposit T)) s)"

lemma hold_inv_frame [simp]:
  "hold_inv T (deposit_event e s) = hold_inv T s"
  "hold_inv T (s\<lparr>Expirations := E\<rparr>) = hold_inv T s"
  "hold_inv T (s\<lparr>AutoUnlockQueue := q\<rparr>) = hold_inv T s"
  by (simp_all add: hold_inv_def sponsored_by_def)

lemma hold_inv_sponsored:
  assumes "lawful T" "hold_inv T s" "Sponsorships s b = None"
    "sponsor_moves T spo b amount (ext s) c"
  shows "hold_inv T (sponsored_state T spo b amount au l c s)"
proof -
  have f: "finite (dom (Sponsorships s))" using assms(2) by (simp add: hold_inv_def)
  from assms show ?thesis
    unfolding hold_inv_def sponsored_by_sponsored [OF f assms(3)] sponsored_state_fields
      sponsor_moves_holds [OF assms(1,4)]
    by auto
qed

lemma hold_inv_revoked:
  assumes "lawful T" "hold_inv T s" "Sponsorships s b = Some r"
    "revoke_moves T b r (StorageDepositHeld s b) (ext s) c"
  shows "hold_inv T (revoked_state b r c s)"
proof -
  have f: "finite (dom (Sponsorships s))" and d: "StorageDepositHeld s b = SponsorshipStorageDeposit T"
    using assms(2,3) by (simp_all add: hold_inv_def)
  note m = revoke_moves_holds [OF assms(1,4), unfolded d]
  have "unat (balance_on_hold (Currency T) c Sponsorship a) =
      (case ((Sponsorships s)(b := None)) a of None \<Rightarrow> 0 | Some r \<Rightarrow> unat (rec_amount r))" for a
    using m(1) [of a] assms(2,3) by (auto simp: hold_inv_def split: if_splits)
  moreover have "unat (balance_on_hold (Currency T) c StorageDeposit a) =
      sponsored_by a (\<lambda>r. unat (SponsorshipStorageDeposit T)) (revoked_state b r c s)" for a
    using m(2) [of a] assms(2)
      sponsored_by_revoked [OF f assms(3), of a "\<lambda>r. unat (SponsorshipStorageDeposit T)" c]
    by (auto simp: hold_inv_def split: if_splits)
  ultimately show ?thesis
    using assms(2) by (simp add: hold_inv_def)
qed

lemma hold_inv_policy:
  assumes "hold_inv T s" "Sponsorships s b = Some r"
  shows "hold_inv T (policy_state b r au l s)"
proof -
  have "finite (dom (Sponsorships s))" using assms(1) by (simp add: hold_inv_def)
  from sponsored_by_policy [OF this assms(2),
      where f = "\<lambda>r. unat (SponsorshipStorageDeposit T)" and au = au and l = l]
  show ?thesis using assms by (auto simp: hold_inv_def)
qed

interpretation holds: hook_invariant T "\<lambda>s. lawful T \<longrightarrow> hold_inv T s"
  for T :: "('a, 'c, 'o, 'w) Config"
proof unfold_locales
  show "lawful T \<longrightarrow> hold_inv T s'"
    if "lawful T \<longrightarrow> hold_inv T s" "do_sponsor T spo b amount au l False s = Inr s'"
    for s s' :: "('a, 'c) Storage" and spo b amount au l
    using that by (auto simp: do_sponsor_Inr emit_def intro: hold_inv_sponsored)
  show "lawful T \<longrightarrow> hold_inv T s'"
    if "lawful T \<longrightarrow> hold_inv T s" "revoke_sponsorship T b s = Inr (r, s')"
    for s s' :: "('a, 'c) Storage" and b r
    using that by (auto simp: revoke_sponsorship_Inr intro: hold_inv_revoked)
qed (simp_all add: hold_inv_policy)

subsection \<open>The queue of automatic unlocks\<close>

definition auto_unlockable :: "('a, 'c) Storage \<Rightarrow> 'a \<Rightarrow> bool" where
  "auto_unlockable s b =
     (case Sponsorships s b of None \<Rightarrow> False | Some r \<Rightarrow> rec_auto_unlock r \<noteq> Disabled)"

definition queue_inv :: "('a, 'c, 'o, 'w) Config \<Rightarrow> ('a, 'c) Storage \<Rightarrow> bool" where
  "queue_inv T s \<longleftrightarrow>
     distinct (AutoUnlockQueue s) \<and>
     length (AutoUnlockQueue s) \<le> unat (MaxQueueProcessingPerBlock T) \<and>
     (\<forall>b\<in>set (AutoUnlockQueue s). Sponsorships s b \<noteq> None) \<and>
     (\<forall>b. auto_unlockable s b \<longrightarrow> b \<in> set (AutoUnlockQueue s))"

lemma queue_inv_frame [simp]:
  "queue_inv T (deposit_event e s) = queue_inv T s"
  "queue_inv T (s\<lparr>Expirations := E\<rparr>) = queue_inv T s"
  "queue_inv T (s\<lparr>ext := c\<rparr>) = queue_inv T s"
  by (simp_all add: queue_inv_def auto_unlockable_def)

lemma set_queue_insert:
  "set (queue_insert b au q) = (if au = Disabled then set q else insert b (set q))"
  by (simp add: queue_insert_def split: AutoUnlockMode.splits)

lemma distinct_queue_insert [simp]: "distinct (queue_insert b au q) = distinct q"
  by (simp add: queue_insert_def split: AutoUnlockMode.splits)

lemma length_queue_insert:
  "queue_room T b au q \<Longrightarrow> length q \<le> unat (MaxQueueProcessingPerBlock T) \<Longrightarrow>
   length (queue_insert b au q) \<le> unat (MaxQueueProcessingPerBlock T)"
  by (simp add: queue_insert_def queue_room_def length_push_unique split: AutoUnlockMode.splits)

interpretation queue: storage_invariant T "queue_inv T"
  for T :: "('a, 'c, 'o, 'w) Config"
proof unfold_locales
  show "queue_inv T s'"
    if "queue_inv T s" "do_sponsor T spo b amount au l False s = Inr s'"
    for s s' :: "('a, 'c) Storage" and spo b amount au l
    using that
    by (auto simp: do_sponsor_Inr emit_def queue_inv_def auto_unlockable_def set_queue_insert
        length_queue_insert split: if_splits)
  show "queue_inv T s'"
    if "queue_inv T s" "revoke_sponsorship T b s = Inr (r, s')"
    for s s' :: "('a, 'c) Storage" and b r
    using that
    by (auto simp: revoke_sponsorship_Inr queue_inv_def auto_unlockable_def
        intro: order_trans [OF length_filter_le] split: if_splits)
  show "queue_inv T (policy_state b r au l s)"
    if "queue_inv T s" "Sponsorships s b = Some r" "queue_room T b au (AutoUnlockQueue s)"
    for s :: "('a, 'c) Storage" and b r au l
    using that
    by (auto simp: queue_inv_def auto_unlockable_def set_queue_insert length_queue_insert
        split: if_splits)
qed simp_all

end
