(* ===== verification/Sponsorship_Hook.thy ===== *)
theory Sponsorship_Hook
  imports Sponsorship_Indexes
begin

text \<open>
  The block hook of the sponsorship pallet and the life of its storage over the blocks.

  The two loops of \<^verbatim>\<open>on_initialize\<close> are described by what they leave behind: a sponsorship is
  either untouched or gone, the loop over the queue returns the queue filtered by what is still
  waiting, and the vector it puts back always fits, so the \<^verbatim>\<open>expect\<close> of
  \<^verbatim>\<open>process_auto_unlock_queue\<close> never panics.

  \<open>pallet_step\<close> is one step of the chain as the pallet sees it: an accepted call, a call of
  another pallet through \<^verbatim>\<open>SponsorshipProvider\<close>, a change of the currency's storage that
  leaves the holds of this pallet alone, or a new block. The locale \<open>reachable_invariant\<close>
  lifts an invariant to every state reachable from genesis, and every invariant of the pallet is an
  instance of it.
\<close>

subsection \<open>The loop over the expired leases\<close>

text \<open>A loop of the hook only removes records, and only of the accounts it visits.\<close>

definition only_removes :: "'a set \<Rightarrow> ('a, 'c) Storage \<Rightarrow> ('a, 'c) Storage \<Rightarrow> bool" where
  "only_removes B s s' \<longleftrightarrow>
     (\<forall>b. Sponsorships s' b = Sponsorships s b \<or> b \<in> B \<and> Sponsorships s' b = None)"

lemma only_removes_refl [simp]: "only_removes B s s"
  by (simp add: only_removes_def)

lemma only_removes_revoke:
  "revoke_sponsorship T b s = Inr (r, s1) \<Longrightarrow> only_removes {b} s (deposit_event e s1)"
  by (auto simp: only_removes_def revoke_sponsorship_Inr split: if_splits)

lemma only_removes_trans:
  "only_removes B s s1 \<Longrightarrow> only_removes C s1 s2 \<Longrightarrow> B \<subseteq> D \<Longrightarrow> C \<subseteq> D \<Longrightarrow> only_removes D s s2"
  unfolding only_removes_def by (metis subsetD)

lemma only_removes_other: "only_removes B s s' \<Longrightarrow> b \<notin> B \<Longrightarrow> Sponsorships s' b = Sponsorships s b"
  by (auto simp: only_removes_def)

lemma expire_loop_only_removes: "only_removes (set bs) s (expire_loop T nw bs s)"
proof (induction bs arbitrary: s)
  case (Cons b bs)
  have step: "only_removes (set (b # bs)) s (expire_loop T nw bs s1)" if "only_removes {b} s s1" for s1
    by (rule only_removes_trans [OF that Cons.IH]) auto
  show ?case
    by (auto split: option.splits sum.splits
        intro: step [OF only_removes_refl, simplified] step [OF only_removes_revoke, simplified])
qed simp

lemma revoke_queue:
  "revoke_sponsorship T b s = Inr (r, s1) \<Longrightarrow>
   AutoUnlockQueue s1 = filter (\<lambda>a. a \<noteq> b) (AutoUnlockQueue s) \<and> Sponsorships s1 b = None"
  by (auto simp: revoke_sponsorship_Inr)

text \<open>The accounts that leave the queue are not sponsored any more.\<close>

lemma expire_loop_queue:
  "\<exists>P. AutoUnlockQueue (expire_loop T nw bs s) = filter P (AutoUnlockQueue s) \<and>
     (\<forall>b. \<not> P b \<longrightarrow> Sponsorships (expire_loop T nw bs s) b = None)"
proof (induction bs arbitrary: s)
  case Nil
  show ?case by (intro exI [of _ "\<lambda>_. True"]) simp
next
  case (Cons b bs)
  have revoked: "\<exists>P. AutoUnlockQueue (expire_loop T nw bs (deposit_event e s1)) =
      filter P (AutoUnlockQueue s) \<and>
      (\<forall>a. \<not> P a \<longrightarrow> Sponsorships (expire_loop T nw bs (deposit_event e s1)) a = None)"
    if "revoke_sponsorship T b s = Inr (r, s1)" for e r s1
  proof -
    obtain P where P: "AutoUnlockQueue (expire_loop T nw bs (deposit_event e s1)) =
        filter P (AutoUnlockQueue s1)"
      "\<And>a. \<not> P a \<Longrightarrow> Sponsorships (expire_loop T nw bs (deposit_event e s1)) a = None"
      using Cons.IH [of "deposit_event e s1"] by auto
    have "Sponsorships (expire_loop T nw bs (deposit_event e s1)) b = None"
      using expire_loop_only_removes [of bs "deposit_event e s1" T nw] revoke_queue [OF that]
      by (auto simp: only_removes_def dest: spec [of _ b])
    with P revoke_queue [OF that] show ?thesis
      by (intro exI [of _ "\<lambda>a. a \<noteq> b \<and> P a"]) (auto simp: conj_commute)
  qed
  show ?case
    using Cons.IH [of s] by (auto split: option.splits sum.splits intro: revoked)
qed

lemma process_expirations_queue:
  assumes "process_expirations T nw s = (p, s1)"
  shows "\<exists>P. AutoUnlockQueue s1 = filter P (AutoUnlockQueue s) \<and>
    (\<forall>b. \<not> P b \<longrightarrow> Sponsorships s1 b = None) \<and> only_removes UNIV s s1"
proof -
  let ?s = "s\<lparr>Expirations := (Expirations s)(nw := [])\<rparr>"
  have s1: "s1 = expire_loop T nw (Expirations s nw) ?s"
    using assms by (simp add: process_expirations_def Let_def)
  have "only_removes UNIV s s1"
    using expire_loop_only_removes [of "Expirations s nw" ?s T nw]
    by (auto simp: s1 only_removes_def)
  with expire_loop_queue [of T nw "Expirations s nw" ?s] show ?thesis
    by (auto simp: s1)
qed

text \<open>Only a lease that ends now is touched.\<close>

lemma expire_loop_keeps:
  "Sponsorships s b = Some r \<Longrightarrow> rec_lease r \<noteq> Until nw \<Longrightarrow>
   Sponsorships (expire_loop T nw bs s) b = Some r"
proof (induction bs arbitrary: s)
  case (Cons a bs)
  have "Sponsorships s1 b = Some r"
    if "revoke_sponsorship T a s = Inr (r', s1)" "Sponsorships s a = Some r''"
      "rec_lease r'' = Until nw" for r' r'' s1
    using that Cons.prems by (auto simp: revoke_sponsorship_Inr)
  with Cons show ?case by (auto split: option.splits sum.splits)
qed simp

subsection \<open>The loop over the queue\<close>

lemma auto_unlock_loop_run:
  assumes "auto_unlock_loop T limit i bs un re p s = (un', re', p', s')"
    and "distinct bs" and "i + length bs \<le> limit"
  shows "un' = un \<and> re' = re @ filter (auto_unlockable s') bs \<and> only_removes (set bs) s s' \<and>
    unat p' = min (unat p + length bs) (2 ^ 32 - 1)"
  using assms
proof (induction bs arbitrary: i re p s)
  case Nil
  then show ?case using unat_bound [of p] by auto
next
  case (Cons b bs)
  let ?p = "saturating_add p 1"
  have p: "min (unat ?p + length bs) (2 ^ 32 - 1) = min (unat p + length (b # bs)) (2 ^ 32 - 1)"
    by (simp add: unat_saturating_add)
  have step: ?case
    if l: "auto_unlock_loop T limit (Suc i) bs un re1 ?p s1 = (un', re', p', s')"
      and rm: "only_removes {b} s s1"
      and re1: "re1 = re @ (if auto_unlockable s1 b then [b] else [])" for re1 s1
  proof -
    from Cons.IH [OF l] Cons.prems have ih: "un' = un" "re' = re1 @ filter (auto_unlockable s') bs"
      "only_removes (set bs) s1 s'" "unat p' = min (unat ?p + length bs) (2 ^ 32 - 1)"
      by auto
    from only_removes_other [OF ih(3)] Cons.prems(2)
    have "auto_unlockable s' b = auto_unlockable s1 b" by (simp add: auto_unlockable_def)
    with ih re1 only_removes_trans [OF rm ih(3), of "set (b # bs)"] p show ?thesis by auto
  qed
  from Cons.prems(3) have i: "\<not> limit \<le> i" by simp
  show ?case
  proof (cases "Sponsorships s b")
    case None
    with Cons.prems(1) i show ?thesis
      by (intro step [of re s]) (auto simp: Let_def auto_unlockable_def)
  next
    case (Some r)
    show ?thesis
    proof (cases "auto_unlock_due T b r s \<and> (\<exists>x. revoke_sponsorship T b s = Inr x)")
      case True
      then obtain r' s1 where "auto_unlock_due T b r s" and s1: "revoke_sponsorship T b s = Inr (r', s1)"
        by auto
      moreover from this Some have "Sponsorships s1 b = None"
        by (auto simp: revoke_sponsorship_Inr)
      ultimately show ?thesis
        using Cons.prems(1) i Some only_removes_revoke [OF s1]
        by (intro step [of re "deposit_event (auto_unlocked_event b r') s1"])
          (auto simp: Let_def auto_unlockable_def auto_unlock_due_def auto_unlocked_event_def
            revoke_sponsorship_record split: AutoUnlockMode.splits)
    next
      case False
      with Cons.prems(1) i Some show ?thesis
        by (intro step [of "re @ (if auto_unlockable s b then [b] else [])" s])
          (auto simp: Let_def auto_unlockable_def auto_unlock_due_def
            split: AutoUnlockMode.splits sum.splits)
    qed
  qed
qed

text \<open>The whole queue is visited: it never holds more than the limit.\<close>

lemma process_auto_unlock_queue_run:
  assumes "queue_inv T s"
  shows "\<exists>p s2. process_auto_unlock_queue T s =
      Some (p, s2\<lparr>AutoUnlockQueue := filter (auto_unlockable s2) (AutoUnlockQueue s)\<rparr>) \<and>
    only_removes (set (AutoUnlockQueue s)) s s2 \<and> unat p = length (AutoUnlockQueue s)"
proof -
  let ?q = "AutoUnlockQueue s" and ?n = "unat (MaxQueueProcessingPerBlock T)"
  obtain un re p s2 where l: "auto_unlock_loop T ?n 0 ?q [] [] 0 (s\<lparr>AutoUnlockQueue := []\<rparr>) =
      (un, re, p, s2)"
    by (metis surj_pair)
  have q: "distinct ?q" "length ?q \<le> ?n" using assms by (simp_all add: queue_inv_def)
  have "length ?q \<le> 2 ^ 32 - 1"
    using q(2) unat_bound [of "MaxQueueProcessingPerBlock T"] by simp
  with auto_unlock_loop_run [OF l q(1)] q(2)
  have r: "un = []" "re = filter (auto_unlockable s2) ?q"
    "only_removes (set ?q) (s\<lparr>AutoUnlockQueue := []\<rparr>) s2" "unat p = length ?q"
    by auto
  from r(3) have "only_removes (set ?q) s s2" by (simp add: only_removes_def)
  with l r q(2) show ?thesis
    by (auto simp: process_auto_unlock_queue_def intro: order_trans [OF length_filter_le])
qed

lemma queue_inv_hook:
  assumes "queue_inv T s" and "only_removes (set (AutoUnlockQueue s)) s s2"
  shows "queue_inv T (s2\<lparr>AutoUnlockQueue := filter (auto_unlockable s2) (AutoUnlockQueue s)\<rparr>)"
proof -
  have "b \<in> set (AutoUnlockQueue s)" if "auto_unlockable s2 b" for b
    using assms that unfolding only_removes_def queue_inv_def auto_unlockable_def
    by (metis option.simps(4))
  with assms(1) show ?thesis
    by (auto simp: queue_inv_def auto_unlockable_def split: option.splits
        intro: order_trans [OF length_filter_le])
qed

lemma queue_inv_expirations:
  "queue_inv T s \<Longrightarrow> process_expirations T nw s = (p, s') \<Longrightarrow> queue_inv T s'"
  by (auto simp: process_expirations_def Let_def intro: queue.any.expire_loop_preserves)

lemma on_initialize_run:
  assumes "queue_inv T s"
  obtains p s1 q s2 where "process_expirations T nw s = (p, s1)" "queue_inv T s1"
    "process_auto_unlock_queue T s1 =
       Some (q, s2\<lparr>AutoUnlockQueue := filter (auto_unlockable s2) (AutoUnlockQueue s1)\<rparr>)"
    "only_removes (set (AutoUnlockQueue s1)) s1 s2"
    "on_initialize T nw s = Some (weight_saturating_add (WeightInfo T)
        (on_initialize_process_expiries (WeightInfo T) p)
        (on_initialize_process_auto_unlock (WeightInfo T) q),
      s2\<lparr>AutoUnlockQueue := filter (auto_unlockable s2) (AutoUnlockQueue s1)\<rparr>)"
proof -
  obtain p s1 where e: "process_expirations T nw s = (p, s1)" by fastforce
  from queue_inv_expirations [OF assms e] have q: "queue_inv T s1" .
  from process_auto_unlock_queue_run [OF q] e q that show thesis
    by (fastforce simp: on_initialize_def)
qed

lemma queue_inv_on_initialize:
  assumes "queue_inv T s" and "on_initialize T nw s = Some (w, s')"
  shows "queue_inv T s'"
  using assms by (elim on_initialize_run [of T s nw]) (auto intro: queue_inv_hook)

subsection \<open>Reachable states\<close>

definition same_holds :: "('a, 'c, 'o, 'w) Config \<Rightarrow> 'c \<Rightarrow> 'c \<Rightarrow> bool" where
  "same_holds T c c' \<longleftrightarrow> balance_on_hold (Currency T) c' = balance_on_hold (Currency T) c"

inductive pallet_step ::
  "('a, 'c, 'o, 'w) Config \<Rightarrow> ('a, 'c) Storage \<Rightarrow> ('a, 'c) Storage \<Rightarrow> bool"
  for T :: "('a, 'c, 'o, 'w) Config" where
  call: "dispatch T og call s = Inr s' \<Longrightarrow> pallet_step T s s'"
| provider_create: "create_sponsorship T spo b amount au l s = Inr s' \<Longrightarrow> pallet_step T s s'"
| provider_unlock: "unlock_sponsorship T spo b s = Inr s' \<Longrightarrow> pallet_step T s s'"
| provider_try: "try_auto_unlock T b s = Inr s' \<Longrightarrow> pallet_step T s s'"
| other: "block_number (System T) c = now T s \<Longrightarrow> same_holds T (ext s) c \<Longrightarrow>
    pallet_step T s (s\<lparr>ext := c\<rparr>)"
| new_block: "unat (block_number (System T) c) = unat (now T s) + 1 \<Longrightarrow> same_holds T (ext s) c \<Longrightarrow>
    on_initialize T (block_number (System T) c) (s\<lparr>ext := c\<rparr>) = Some (w, s') \<Longrightarrow>
    pallet_step T s s'"

inductive reachable :: "('a, 'c, 'o, 'w) Config \<Rightarrow> ('a, 'c) Storage \<Rightarrow> bool"
  for T :: "('a, 'c, 'o, 'w) Config" where
  genesis: "block_number (System T) c = 0 \<Longrightarrow>
    (\<And>r a. balance_on_hold (Currency T) c r a = 0) \<Longrightarrow>
    genesis_build T g (empty_storage c) = Some s \<Longrightarrow> reachable T s"
| step: "reachable T s \<Longrightarrow> pallet_step T s s' \<Longrightarrow> reachable T s'"

locale reachable_invariant = storage_invariant +
  assumes init: "block_number (System T) c = 0 \<Longrightarrow>
      (\<And>r a. balance_on_hold (Currency T) c r a = 0) \<Longrightarrow> I (empty_storage c)"
    and other: "I s \<Longrightarrow> now T s \<le> block_number (System T) c \<Longrightarrow> same_holds T (ext s) c \<Longrightarrow>
      I (s\<lparr>ext := c\<rparr>)"
    and hook: "I s \<Longrightarrow> on_initialize T (now T s) s = Some (w, s') \<Longrightarrow> I s'"
begin

lemma step_preserves: "pallet_step T s s' \<Longrightarrow> I s \<Longrightarrow> I s'"
proof (induction rule: pallet_step.induct)
  case (new_block c s w s')
  then have "I (s\<lparr>ext := c\<rparr>)" by (auto intro: other simp: word_le_nat_alt)
  with new_block.hyps(3) show ?case by (auto intro: hook simp: now_def)
qed (auto intro: dispatch_preserves create_sponsorship_preserves any.unlock_sponsorship_preserves
    any.try_auto_unlock_preserves other)

lemma reachable_I: "reachable T s \<Longrightarrow> I s"
proof (induction rule: reachable.induct)
  case (genesis c g s)
  from init [OF genesis(1,2)] genesis(3) show ?case by (rule genesis_build_preserves)
qed (rule step_preserves)

end

lemma empty_storage_fields [simp]:
  "ext (empty_storage c) = c" "Sponsorships (empty_storage c) = Map.empty"
  "SponsorLedger (empty_storage c) = (\<lambda>_. SponsorState_default)"
  "StorageDepositHeld (empty_storage c) = (\<lambda>_. 0)" "Expirations (empty_storage c) = (\<lambda>_. [])"
  "AutoUnlockQueue (empty_storage c) = []" "events (empty_storage c) = []"
  "now T (empty_storage c) = block_number (System T) c"
  by (simp_all add: empty_storage_def now_def)

lemma SponsorState_default_fields [simp]:
  "active_amount SponsorState_default = 0" "active_count SponsorState_default = 0"
  "last_block SponsorState_default = 0" "sponsored_amount_in_block SponsorState_default = 0"
  "new_sponsorships_in_block SponsorState_default = 0"
  by (simp_all add: SponsorState_default_def)

lemma sponsored_by_empty [simp]: "sponsored_by p f (empty_storage c) = 0"
  by (simp add: sponsored_by_def)

interpretation ledger: reachable_invariant T "\<lambda>s. exact_caps T \<longrightarrow> ledger_inv s"
  for T :: "('a, 'c, 'o, 'w) Config"
proof unfold_locales
  show "exact_caps T \<longrightarrow> ledger_inv (empty_storage c)" for c :: 'c
    by (simp add: ledger_inv_def)
qed (simp, rule ledger.hook.on_initialize_preserves)

interpretation caps: reachable_invariant T "caps_inv T"
  for T :: "('a, 'c, 'o, 'w) Config"
proof unfold_locales
  show "caps_inv T (empty_storage c)" for c :: 'c
    by (simp add: caps_inv_def within_caps_def)
qed (simp, rule caps.hook.on_initialize_preserves)

interpretation rate: reachable_invariant T "\<lambda>s. exact_caps T \<and> clocked T \<longrightarrow> rate_inv T s"
  for T :: "('a, 'c, 'o, 'w) Config"
proof unfold_locales
  show "exact_caps T \<and> clocked T \<longrightarrow> rate_inv T (empty_storage c)" for c :: 'c
    by (simp add: rate_inv_def)
  show "exact_caps T \<and> clocked T \<longrightarrow> rate_inv T (s\<lparr>ext := c\<rparr>)"
    if "exact_caps T \<and> clocked T \<longrightarrow> rate_inv T s" "now T s \<le> block_number (System T) c"
    for s :: "('a, 'c) Storage" and c
    using that by (auto simp: rate_inv_def sponsored_by_def intro: order_trans)
qed (rule rate.hook.on_initialize_preserves)

interpretation expiry: reachable_invariant T "\<lambda>s. clocked T \<longrightarrow> expiry_inv T s"
  for T :: "('a, 'c, 'o, 'w) Config"
proof unfold_locales
  show "clocked T \<longrightarrow> expiry_inv T (empty_storage c)" for c :: 'c
    by (simp add: expiry_inv_def bucket_sound_def)
  show "clocked T \<longrightarrow> expiry_inv T (s\<lparr>ext := c\<rparr>)"
    if "clocked T \<longrightarrow> expiry_inv T s" "now T s \<le> block_number (System T) c"
    for s :: "('a, 'c) Storage" and c
    using that by (auto simp: expiry_inv_def bucket_sound_def)
qed (rule expiry.hook.on_initialize_preserves)

interpretation records: reachable_invariant T "\<lambda>s. clocked T \<longrightarrow> record_inv T s"
  for T :: "('a, 'c, 'o, 'w) Config"
proof unfold_locales
  show "clocked T \<longrightarrow> record_inv T (empty_storage c)" for c :: 'c
    by (simp add: record_inv_def)
  show "clocked T \<longrightarrow> record_inv T (s\<lparr>ext := c\<rparr>)"
    if "clocked T \<longrightarrow> record_inv T s" "now T s \<le> block_number (System T) c"
    for s :: "('a, 'c) Storage" and c
    using that by (fastforce simp: record_inv_def record_ok_def word_le_nat_alt)
qed (rule records.hook.on_initialize_preserves)

interpretation holds: reachable_invariant T "\<lambda>s. lawful T \<longrightarrow> hold_inv T s"
  for T :: "('a, 'c, 'o, 'w) Config"
proof unfold_locales
  show "lawful T \<longrightarrow> hold_inv T (empty_storage c)"
    if "\<And>r a. balance_on_hold (Currency T) c r a = 0" for c :: 'c
    using that by (simp add: hold_inv_def)
  show "lawful T \<longrightarrow> hold_inv T (s\<lparr>ext := c\<rparr>)"
    if "lawful T \<longrightarrow> hold_inv T s" "same_holds T (ext s) c"
    for s :: "('a, 'c) Storage" and c
    using that by (simp add: hold_inv_def same_holds_def sponsored_by_def)
qed (rule holds.hook.on_initialize_preserves)

interpretation queue: reachable_invariant T "queue_inv T"
  for T :: "('a, 'c, 'o, 'w) Config"
proof unfold_locales
  show "queue_inv T (empty_storage c)" for c :: 'c
    by (simp add: queue_inv_def auto_unlockable_def)
qed (simp, rule queue_inv_on_initialize)

subsection \<open>Facts shared by the properties of the pallet and of the runtime\<close>

lemma reachable_caps:
  assumes "exact_caps T" and "reachable T s"
  shows "total_amount p s \<le> unat (MaxTotalSponsoredPerSponsor T) \<and>
    total_count p s \<le> unat (MaxSponsoredAccountsPerSponsor T)"
proof -
  have "ledger_inv s" using ledger.reachable_I [OF assms(2)] assms(1) by simp
  moreover have "within_caps T (SponsorLedger s p)"
    using caps.reachable_I [OF assms(2)] by (simp add: caps_inv_def)
  ultimately show ?thesis
    by (metis ledger_inv_def within_caps_def word_le_nat_alt)
qed

text \<open>The weight of the hook is charged for at most the limit of entries of either kind.\<close>

lemma on_initialize_weight:
  assumes "clocked T" "reachable T s" "on_initialize T nw (s\<lparr>ext := c\<rparr>) = Some (w, s')"
  obtains p q where "w = weight_saturating_add (WeightInfo T)
      (on_initialize_process_expiries (WeightInfo T) p) (on_initialize_process_auto_unlock (WeightInfo T) q)"
    "p \<le> MaxQueueProcessingPerBlock T" "q \<le> MaxQueueProcessingPerBlock T"
proof -
  let ?s = "s\<lparr>ext := c\<rparr>"
  have q: "queue_inv T ?s" using queue.reachable_I [OF assms(2)] by simp
  have len: "length (Expirations ?s nw) \<le> unat (MaxQueueProcessingPerBlock T)"
    using expiry.reachable_I [OF assms(2)] assms(1) by (simp add: expiry_inv_def bucket_sound_def)
  from q obtain p s1 r s2 where e: "process_expirations T nw ?s = (p, s1)" and q1: "queue_inv T s1"
    and a: "process_auto_unlock_queue T s1 =
       Some (r, s2\<lparr>AutoUnlockQueue := filter (auto_unlockable s2) (AutoUnlockQueue s1)\<rparr>)"
    and i: "on_initialize T nw ?s = Some (weight_saturating_add (WeightInfo T)
        (on_initialize_process_expiries (WeightInfo T) p)
        (on_initialize_process_auto_unlock (WeightInfo T) r),
      s2\<lparr>AutoUnlockQueue := filter (auto_unlockable s2) (AutoUnlockQueue s1)\<rparr>)"
    by (rule on_initialize_run)
  have "p = word_of_nat (length (Expirations ?s nw))" using e by (simp add: process_expirations_def Let_def)
  moreover have "length (Expirations ?s nw) < 2 ^ 32"
    using len unat_bound [of "MaxQueueProcessingPerBlock T"] by simp
  ultimately have "unat p = length (Expirations ?s nw)" by (simp add: unat_of_nat)
  with len have "p \<le> MaxQueueProcessingPerBlock T" by (simp add: word_le_nat_alt)
  moreover have "r \<le> MaxQueueProcessingPerBlock T"
    using process_auto_unlock_queue_run [OF q1] a q1 by (auto simp: word_le_nat_alt queue_inv_def)
  ultimately show thesis using i assms(3) by (intro that [of p r]) simp_all
qed

end
