(* ===== verification/Sponsorship_Liveness.thy ===== *)
theory Sponsorship_Liveness
  imports Sponsorship_Hook
begin

text \<open>
  When a sponsorship can be ended, and that ending one undoes its creation. Under the laws of the currency a revocation succeeds as soon as
  the sponsor's balance has room for what comes back (\<open>revoke_succeeds\<close>), and the loop over the
  expired leases then ends every one of them (\<open>expire_loop_ends\<close>). An automatic unlock that is due stays
  due, whatever else is revoked (\<open>waiting\<close>), until the loop over the queue comes to it and
  ends it (\<open>auto_unlock_loop_ends\<close>). Revoking what was just created
  restores the storage (\<open>sponsor_revoke_inverse\<close>).
\<close>

abbreviation total_deposit :: "('a, 'c, 'o, 'w) Config \<Rightarrow> 'a \<Rightarrow> ('a, 'c) Storage \<Rightarrow> nat" where
  "total_deposit T p \<equiv> sponsored_by p (\<lambda>r. unat (SponsorshipStorageDeposit T))"

lemma revoke_succeeds:
  assumes law: "take_off_hold_law sound (System T) (Currency T)" "lawful T" and inv: "hold_inv T s"
    and sound: "sound (ext s)" and b: "Sponsorships s b = Some r" and min: "minimum_balance (Currency T) \<le> rec_amount r"
    and room: "unat (balance (Currency T) (ext s) (rec_sponsor r)) + unat (rec_amount r) +
      unat (SponsorshipStorageDeposit T) < 2 ^ 128"
  shows "\<exists>s1. revoke_sponsorship T b s = Inr (r, s1)"
proof -
  let ?C = "Currency T" and ?dep = "SponsorshipStorageDeposit T"
  have f: "finite (dom (Sponsorships s))" and d: "StorageDepositHeld s b = ?dep"
    and h: "unat (balance_on_hold ?C (ext s) Sponsorship b) = unat (rec_amount r)"
    and h2: "unat (balance_on_hold ?C (ext s) StorageDeposit (rec_sponsor r)) =
      total_deposit T (rec_sponsor r) s"
    using inv b by (simp_all add: hold_inv_def)
  note off = take_off_hold_lawD [OF law(1)]
  obtain c1 where c1:
    "transfer_on_hold ?C Sponsorship b (rec_sponsor r) (rec_amount r) Exact Free Polite (ext s) = Some c1"
    and sound1: "sound c1"
    using off(1) [OF sound, of "rec_amount r" Sponsorship b "rec_sponsor r"] min room h
    by (auto simp: word_le_nat_alt)
  have tl: "transfer_on_hold_law ?C" using law(2) by (simp add: hold_currency_laws_def)
  have held: "unat (balance_on_hold ?C c1 StorageDeposit (rec_sponsor r)) = total_deposit T (rec_sponsor r) s"
    using transfer_on_hold_lawD(1) [OF tl c1, of StorageDeposit "rec_sponsor r"] h2 by simp
  have ge: "unat ?dep \<le> unat (balance_on_hold ?C c1 StorageDeposit (rec_sponsor r))"
    unfolding held using sponsored_by_ge [OF f b, of "\<lambda>r. unat ?dep"] by simp
  have "\<exists>c2. release ?C StorageDeposit (rec_sponsor r) ?dep Exact c1 = Some c2" if "?dep \<noteq> 0"
  proof -
    have "balance_on_hold ?C c1 StorageDeposit (rec_sponsor r) \<noteq> 0"
      using ge that by (auto simp: word_unat_eq_iff)
    then have "keeps_free ?C (rec_sponsor r) (ext s) c1" unfolding keeps_free_def by blast
    then have "unat (balance ?C c1 (rec_sponsor r)) = unat (balance ?C (ext s) (rec_sponsor r)) + unat (rec_amount r)"
      using transfer_on_hold_lawD(3) [OF tl c1, of "rec_sponsor r"] by (cases "rec_sponsor r = b") auto
    with min room have "unat (minimum_balance ?C) \<le> unat (balance ?C c1 (rec_sponsor r))"
      "unat (balance ?C c1 (rec_sponsor r)) + unat ?dep < 2 ^ 128"
      by (simp_all add: word_le_nat_alt)
    with off(2) [OF sound1 _ ge] show ?thesis by blast
  qed
  with c1 b d show ?thesis
    by (cases "?dep = 0") (auto simp: revoke_sponsorship_Inr revoke_moves_def)
qed

lemma revoke_moves_sound:
  assumes "take_off_hold_law sound (System T) (Currency T)" "sound c" "revoke_moves T b r dep c c'"
  shows "sound c'"
  using assms unfolding take_off_hold_law_def revoke_moves_def by (metis (full_types))

lemma sponsor_moves_sound:
  assumes "take_off_hold_law sound (System T) (Currency T)" "sound c" "sponsor_moves T spo b amount c c'"
  shows "sound c'"
  using assms unfolding take_off_hold_law_def sponsor_moves_def Let_def by (metis (full_types))

definition balances_fit :: "('a, 'c, 'o, 'w) Config \<Rightarrow> ('a, 'c) Storage \<Rightarrow> bool" where
  "balances_fit T s \<longleftrightarrow>
     (\<forall>p. unat (balance (Currency T) (ext s) p) + total_amount p s + total_deposit T p s < 2 ^ 128)"

definition release_ready :: "('c \<Rightarrow> bool) \<Rightarrow> ('a, 'c, 'o, 'w) Config \<Rightarrow> ('a, 'c) Storage \<Rightarrow> bool" where
  "release_ready sound T s \<longleftrightarrow>
     hold_inv T s \<and> sound (ext s) \<and> balances_fit T s \<and>
     (\<forall>b r. Sponsorships s b = Some r \<longrightarrow> minimum_balance (Currency T) \<le> rec_amount r)"

lemma release_ready_frame [simp]:
  "release_ready sound T (deposit_event e s) = release_ready sound T s"
  "release_ready sound T (s\<lparr>Expirations := E\<rparr>) = release_ready sound T s"
  "release_ready sound T (s\<lparr>AutoUnlockQueue := q\<rparr>) = release_ready sound T s"
  by (simp_all add: release_ready_def balances_fit_def sponsored_by_def)

lemma reachable_release_ready:
  assumes "lawful T" "reachable T s" "sound c" "same_holds T (ext s) c" "balances_fit T (s\<lparr>ext := c\<rparr>)"
  shows "release_ready sound T (s\<lparr>ext := c\<rparr>)"
proof -
  have "hold_inv T s" "record_inv T s"
    using holds.reachable_I [OF assms(2)] records.reachable_I [OF assms(2)] assms(1) lawful_clocked [OF assms(1)]
    by simp_all
  with assms(3-5) show ?thesis
    by (auto simp: release_ready_def hold_inv_def same_holds_def sponsored_by_def record_inv_def
        record_ok_def minimum_sponsorship_def)
qed

lemma release_ready_succeeds:
  assumes "take_off_hold_law sound (System T) (Currency T)" "lawful T" "release_ready sound T s"
    "Sponsorships s b = Some r"
  shows "\<exists>s1. revoke_sponsorship T b s = Inr (r, s1)"
proof -
  have f: "finite (dom (Sponsorships s))" using assms(3) by (simp add: release_ready_def hold_inv_def)
  have "unat (balance (Currency T) (ext s) (rec_sponsor r)) + unat (rec_amount r) +
      unat (SponsorshipStorageDeposit T) < 2 ^ 128"
    using sponsored_by_ge [OF f assms(4), of "\<lambda>r. unat (rec_amount r)"]
      sponsored_by_ge [OF f assms(4), of "\<lambda>r. unat (SponsorshipStorageDeposit T)"] assms(3)
    unfolding release_ready_def balances_fit_def by (meson add_mono_thms_linordered_semiring(1)
        add_le_mono le_refl order_le_less_trans)
  with assms show ?thesis
    by (intro revoke_succeeds [where sound = sound]) (simp_all add: release_ready_def)
qed

lemma release_ready_revoked:
  assumes "take_off_hold_law sound (System T) (Currency T)" "lawful T" "release_ready sound T s"
    "revoke_sponsorship T b s = Inr (r, s1)"
  shows "release_ready sound T s1"
proof -
  from assms(4) obtain c where b: "Sponsorships s b = Some r"
    and c: "revoke_moves T b r (StorageDepositHeld s b) (ext s) c" and s1: "s1 = revoked_state b r c s"
    by (auto simp: revoke_sponsorship_Inr)
  have inv: "hold_inv T s" using assms(3) by (simp add: release_ready_def)
  then have f: "finite (dom (Sponsorships s))" and d: "StorageDepositHeld s b = SponsorshipStorageDeposit T"
    using b by (simp_all add: hold_inv_def)
  have "unat (balance (Currency T) c p) + total_amount p s1 + total_deposit T p s1 < 2 ^ 128" for p
  proof -
    have "unat (balance (Currency T) (ext s) p) + total_amount p s + total_deposit T p s < 2 ^ 128"
      using assms(3) by (simp add: release_ready_def balances_fit_def)
    then show ?thesis
      using revoke_moves_holds(4) [OF assms(2) c, of p]
        sponsored_by_revoked [OF f b, of p "\<lambda>r. unat (rec_amount r)" c]
        sponsored_by_revoked [OF f b, of p "\<lambda>r. unat (SponsorshipStorageDeposit T)" c]
      by (simp add: s1 d split: if_splits)
  qed
  moreover have "hold_inv T s1"
    using holds.revoked [OF _ assms(4)] inv assms(2) by simp
  ultimately show ?thesis
    using assms(3) revoke_moves_sound [OF assms(1) _ c] by (auto simp: release_ready_def balances_fit_def s1 split: if_splits)
qed

lemma expire_loop_ends:
  assumes law: "take_off_hold_law sound (System T) (Currency T)" "lawful T"
  shows "release_ready sound T s \<Longrightarrow> b \<in> set bs \<Longrightarrow>
    map_option rec_lease (Sponsorships (expire_loop T nw bs s) b) \<noteq> Some (Until nw)"
proof (induction bs arbitrary: s)
  case (Cons a bs)
  have later: "Sponsorships (expire_loop T nw bs s1) x = Some r \<Longrightarrow> Sponsorships s1 x = Some r"
    for s1 r x
    using expire_loop_only_removes [of bs s1 T nw] unfolding only_removes_def by (metis option.simps(3))
  show ?case
  proof (cases "Sponsorships s a")
    case None
    with Cons show ?thesis by (auto dest: later)
  next
    case (Some r)
    show ?thesis
    proof (cases "rec_lease r = Until nw")
      case True
      from release_ready_succeeds [OF law Cons.prems(1) Some] obtain s1
        where s1: "revoke_sponsorship T a s = Inr (r, s1)" by blast
      let ?s1 = "deposit_event (Expired (rec_sponsor r) a (rec_amount r)) s1"
      from release_ready_revoked [OF law Cons.prems(1) s1] revoke_queue [OF s1] Cons.IH [of ?s1]
        Cons.prems(2) True Some s1 later [of ?s1 a]
      show ?thesis by (cases "a = b") auto
    next
      case False
      with Cons Some show ?thesis by (auto dest: later)
    qed
  qed
qed simp

subsection \<open>Due automatic unlocks happen\<close>

text \<open>A revocation takes neither balance nor spendable funds from the other accounts.\<close>

lemma keeps_freeI:
  "unat (minimum_balance cur) \<le> unat (balance cur c a) \<Longrightarrow> a \<noteq> who \<or> keeps_free cur who c c'"
  by (auto simp: keeps_free_def word_le_nat_alt)

lemma revoke_moves_keeps:
  assumes "lawful T" "revoke_moves T b r dep c c'"
    and "unat (minimum_balance (Currency T)) \<le> unat (balance (Currency T) c a)"
  shows "unat (balance (Currency T) c a) \<le> unat (balance (Currency T) c' a)"
proof -
  let ?C = "Currency T"
  from assms(1) have laws: "transfer_on_hold_law ?C" "release_law ?C" "providers_law (System T) ?C"
    by (simp_all add: hold_currency_laws_def)
  from assms(2) obtain c1 c2 where
    t: "transfer_on_hold ?C Sponsorship b (rec_sponsor r) (rec_amount r) Exact Free Polite c = Some c1"
    and h: "if dep \<noteq> 0 then release ?C StorageDeposit (rec_sponsor r) dep Exact c1 = Some c2 else c2 = c1"
    and c': "c' = snd (dec_providers (System T) b c2)"
    by (auto simp: revoke_moves_def)
  have 1: "unat (balance ?C c a) \<le> unat (balance ?C c1 a)"
    using transfer_on_hold_lawD(3) [OF laws(1) t keeps_freeI [OF assms(3)]] by simp
  with assms(3) have m1: "unat (minimum_balance ?C) \<le> unat (balance ?C c1 a)" by simp
  have 2: "unat (balance ?C c1 a) \<le> unat (balance ?C c2 a)"
    using release_lawD(3) [OF laws(2) h keeps_freeI [OF m1]] by simp
  from 1 2 assms(3) have "balance ?C c' a = balance ?C c2 a"
    unfolding c' by (intro providers_lawD(6) [OF laws(3)]) (simp add: word_le_nat_alt)
  with 1 2 show ?thesis by simp
qed

lemma revoke_moves_spendable:
  assumes "spendable_law (System T) (Currency T)" "revoke_moves T b r dep c c'" "a \<noteq> b"
  shows "reducible_balance (Currency T) c a Preserve Polite \<le> reducible_balance (Currency T) c' a Preserve Polite"
proof -
  from assms(2) obtain c1 c2 where
    t: "transfer_on_hold (Currency T) Sponsorship b (rec_sponsor r) (rec_amount r) Exact Free Polite c = Some c1"
    and h: "if dep \<noteq> 0 then release (Currency T) StorageDeposit (rec_sponsor r) dep Exact c1 = Some c2 else c2 = c1"
    and c': "c' = snd (dec_providers (System T) b c2)"
    by (auto simp: revoke_moves_def)
  let ?R = "\<lambda>c. reducible_balance (Currency T) c a Preserve Polite"
  have "?R c \<le> ?R c1" using assms(1,3) t unfolding spendable_law_def by blast
  also have "\<dots> \<le> ?R c2"
    using assms(1) h unfolding spendable_law_def by (cases "dep = 0") (simp, metis)
  also have "\<dots> \<le> ?R c'" using assms(1,3) unfolding spendable_law_def c' by blast
  finally show ?thesis .
qed

text \<open>An unlock that is due stays due until the sponsorship is gone.\<close>

definition waiting :: "('a, 'c, 'o, 'w) Config \<Rightarrow> 'a \<Rightarrow> 'a SponsorshipRecord \<Rightarrow> ('a, 'c) Storage \<Rightarrow> bool" where
  "waiting T b r s \<longleftrightarrow> Sponsorships s b = None \<or> Sponsorships s b = Some r \<and> auto_unlock_due T b r s"

lemma waiting_frame [simp]:
  "waiting T b r (deposit_event e s) = waiting T b r s"
  "waiting T b r (s\<lparr>Expirations := E\<rparr>) = waiting T b r s"
  "waiting T b r (s\<lparr>AutoUnlockQueue := q\<rparr>) = waiting T b r s"
  by (simp_all add: waiting_def auto_unlock_due_def auto_unlock_condition_met_def
      split: AutoUnlockMode.splits AutoUnlockCondition.splits)

lemma waiting_revoked:
  assumes "lawful T" "spendable_law (System T) (Currency T)" "minimum_balance (Currency T) \<le> rec_amount r"
    and "waiting T b r s" "revoke_sponsorship T x s = Inr (r', s1)"
  shows "waiting T b r s1"
proof (cases "x = b \<or> Sponsorships s b = None")
  case True
  with assms(5) show ?thesis by (auto simp: waiting_def revoke_sponsorship_Inr split: if_splits)
next
  case False
  from assms(5) obtain c where m: "revoke_moves T x r' (StorageDepositHeld s x) (ext s) c"
    and s1: "s1 = revoked_state x r' c s"
    by (auto simp: revoke_sponsorship_Inr)
  have due: "auto_unlock_due T b r s" and rec: "Sponsorships s1 b = Some r"
    using assms(4) False by (auto simp: waiting_def s1)
  have "ext s1 = c" by (simp add: s1)
  with due have "auto_unlock_due T b r s1"
    using revoke_moves_keeps [OF assms(1) m, of b] revoke_moves_spendable [OF assms(2) m, of b] assms(3) False
    by (auto simp: auto_unlock_due_def auto_unlock_condition_met_def word_le_nat_alt
        split: AutoUnlockMode.splits AutoUnlockCondition.splits)
  with rec show ?thesis by (simp add: waiting_def)
qed

interpretation due: revocation_invariant T
  "\<lambda>s. lawful T \<and> spendable_law (System T) (Currency T) \<and> minimum_balance (Currency T) \<le> rec_amount r \<longrightarrow> waiting T b r s"
  for T :: "('a, 'c, 'o, 'w) Config" and b :: 'a and r :: "'a SponsorshipRecord"
  by unfold_locales (auto intro: waiting_revoked)

interpretation gone: revocation_invariant T "\<lambda>s. Sponsorships s b = None"
  for T :: "('a, 'c, 'o, 'w) Config" and b :: 'a
  by unfold_locales (auto simp: revoke_sponsorship_Inr)

interpretation ready: revocation_invariant T
  "\<lambda>s. take_off_hold_law sound (System T) (Currency T) \<and> lawful T \<longrightarrow> release_ready sound T s"
  for T :: "('a, 'c, 'o, 'w) Config" and sound :: "'c \<Rightarrow> bool"
  by unfold_locales (auto intro: release_ready_revoked)

lemma auto_unlock_loop_ends:
  assumes law: "take_off_hold_law sound (System T) (Currency T)" "lawful T" "spendable_law (System T) (Currency T)"
    and min: "minimum_balance (Currency T) \<le> rec_amount r"
  shows "auto_unlock_loop T limit i bs un re p s = (un', re', p', s') \<Longrightarrow> i + length bs \<le> limit \<Longrightarrow>
    release_ready sound T s \<Longrightarrow> waiting T b r s \<Longrightarrow> b \<in> set bs \<Longrightarrow> Sponsorships s' b = None"
proof (induction bs arbitrary: i un re p s)
  case (Cons x bs)
  show ?case
  proof (cases "Sponsorships s b = None")
    case True
    with gone.auto_unlock_loop_preserves [OF _ Cons.prems(1)] show ?thesis by blast
  next
    case False
    with Cons.prems(4) have b: "Sponsorships s b = Some r" "auto_unlock_due T b r s" by (auto simp: waiting_def)
    show ?thesis
    proof (cases "x = b")
      case True
      obtain s1 where s1: "revoke_sponsorship T b s = Inr (r, s1)"
        using release_ready_succeeds [OF law(1,2) Cons.prems(3) b(1)] by blast
      obtain cond where cond: "rec_auto_unlock r = Enabled cond"
        "auto_unlock_condition_met T b (rec_amount r) cond s"
        using b(2) by (auto simp: auto_unlock_due_def split: AutoUnlockMode.splits)
      from Cons.prems(1,2) True b(1) s1 cond obtain p1 where
        "auto_unlock_loop T limit (Suc i) bs un re p1
           (deposit_event (AutoUnlocked (rec_sponsor r) b (rec_amount r) cond) s1) = (un', re', p', s')"
        by (auto simp: Let_def)
      from gone.auto_unlock_loop_preserves [OF _ this, of b] revoke_queue [OF s1] show ?thesis by simp
    next
      case neq: False
      with Cons.prems(5) have "b \<in> set bs" by simp
      note ih = Cons.IH [OF _ _ _ _ this]
      have kept: "release_ready sound T s1 \<and> waiting T b r s1" if "revoke_sponsorship T x s = Inr (r', s1)" for r' s1
        using release_ready_revoked [OF law(1,2) Cons.prems(3) that] waiting_revoked [OF law(2,3) min Cons.prems(4) that]
        by simp
      show ?thesis
        using Cons.prems(1-4) kept
        by (auto simp: Let_def split: option.splits AutoUnlockMode.splits if_splits sum.splits
            intro: ih [of "Suc i"])
    qed
  qed
qed simp

lemma process_auto_unlock_queue_ends:
  assumes law: "take_off_hold_law sound (System T) (Currency T)" "lawful T" "spendable_law (System T) (Currency T)"
    and min: "minimum_balance (Currency T) \<le> rec_amount r"
    and inv: "queue_inv T s" "release_ready sound T s" "waiting T b r s"
    and run: "process_auto_unlock_queue T s = Some (q, s')"
  shows "Sponsorships s' b = None"
proof (cases "Sponsorships s b = None")
  case True
  with process_auto_unlock_queue_run [OF inv(1)] run show ?thesis
    by (auto simp: only_removes_def dest: spec [of _ b])
next
  case False
  with inv(3) have "auto_unlockable s b"
    by (auto simp: waiting_def auto_unlockable_def auto_unlock_due_def split: AutoUnlockMode.splits)
  with inv(1) have b: "b \<in> set (AutoUnlockQueue s)" and len: "length (AutoUnlockQueue s) \<le> unat (MaxQueueProcessingPerBlock T)"
    by (auto simp: queue_inv_def)
  obtain un re p s2 where l: "auto_unlock_loop T (unat (MaxQueueProcessingPerBlock T)) 0
      (AutoUnlockQueue s) [] [] 0 (s\<lparr>AutoUnlockQueue := []\<rparr>) = (un, re, p, s2)"
    by (metis surj_pair)
  from auto_unlock_loop_ends [OF law min l] b len inv(2,3) have "Sponsorships s2 b = None" by simp
  with l run show ?thesis by (auto simp: process_auto_unlock_queue_def Let_def split: if_splits)
qed

subsection \<open>Revoking undoes sponsoring\<close>

definition restored ::
  "('a, 'c, 'o, 'w) Config \<Rightarrow> 'a \<Rightarrow> ('a, 'c) Storage \<Rightarrow> ('a, 'c) Storage \<Rightarrow> bool" where
  "restored T spo s s2 \<longleftrightarrow>
     balance (Currency T) (ext s2) spo = balance (Currency T) (ext s) spo \<and>
     balance_on_hold (Currency T) (ext s2) = balance_on_hold (Currency T) (ext s) \<and>
     Sponsorships s2 = Sponsorships s \<and> StorageDepositHeld s2 = StorageDepositHeld s \<and>
     Expirations s2 = Expirations s \<and> AutoUnlockQueue s2 = AutoUnlockQueue s \<and>
     (\<forall>p. active_amount (SponsorLedger s2 p) = active_amount (SponsorLedger s p) \<and>
          active_count (SponsorLedger s2 p) = active_count (SponsorLedger s p))"

lemma filter_push_unique: "b \<notin> set xs \<Longrightarrow> filter (\<lambda>a. a \<noteq> b) (push_unique b xs) = xs"
  by (auto simp: push_unique_def filter_id_conv)

lemma expirations_remove_insert:
  "(\<And>n. b \<notin> set (E n)) \<Longrightarrow> expirations_remove b l (expirations_insert b l E) = E"
  by (auto simp: expirations_remove_apply expirations_insert_apply filter_push_unique fun_eq_iff)

lemma queue_remove_insert: "b \<notin> set q \<Longrightarrow> filter (\<lambda>a. a \<noteq> b) (queue_insert b au q) = q"
  by (auto simp: queue_insert_def filter_push_unique filter_id_conv split: AutoUnlockMode.splits)

text \<open>What the currency gives back is what it took.\<close>

lemma moves_inverse:
  assumes "lawful T" "sponsor_moves T spo b amount (ext s) c1" "sponsor_can_pay T spo amount s" "spo \<noteq> b"
    and "revoke_moves T b r (SponsorshipStorageDeposit T) c1 c2" "rec_sponsor r = spo" "rec_amount r = amount"
    and "minimum_balance (Currency T) \<le> amount"
  shows "balance (Currency T) c2 spo = balance (Currency T) (ext s) spo"
    and "balance_on_hold (Currency T) c2 = balance_on_hold (Currency T) (ext s)"
proof -
  note s = sponsor_moves_holds [OF assms(1,2)] and r = revoke_moves_holds [OF assms(1,5)]
  show "balance (Currency T) c2 spo = balance (Currency T) (ext s) spo"
    using sponsor_pays_exactly [OF assms(1-3), of spo] r(3) [of spo] assms(4,6-8)
    by (simp add: word_unat_eq_iff)
  have "balance_on_hold (Currency T) c2 x a = balance_on_hold (Currency T) (ext s) x a" for x a
    using s(1,2) [of a] r(1,2) [of a] assms(6,7) by (cases x) (simp_all add: word_unat_eq_iff split: if_splits)
  then show "balance_on_hold (Currency T) c2 = balance_on_hold (Currency T) (ext s)" by blast
qed

lemma released_charged:
  assumes "exact_caps T" "within_caps T (charged_ledger T amount spo s)" "rec_amount r = amount"
  shows "active_amount (released_ledger r (charged_ledger T amount spo s)) =
      active_amount (SponsorLedger s spo)"
    and "active_count (released_ledger r (charged_ledger T amount spo s)) =
      active_count (SponsorLedger s spo)"
  using charged_exact(1,2) [OF assms(1,2)] assms(3)
  by (simp_all add: word_unat_eq_iff unat_saturating_sub)

lemma sponsor_revoke_inverse:
  assumes law: "take_off_hold_law sound (System T) (Currency T)" "lawful T" "exact_caps T"
    and run: "do_sponsor T spo b amount au l em s = Inr s1" and neq: "spo \<noteq> b"
    and sound: "sound (ext s)"
    and inv: "hold_inv T s" "expiry_inv T s" "queue_inv T s"
  shows "\<exists>r s2. revoke_sponsorship T b s1 = Inr (r, s2) \<and> rec_sponsor r = spo \<and> restored T spo s s2"
proof -
  let ?r = "created_record T spo amount au l s"
  from run obtain c where g: "Sponsorships s b = None" "minimum_sponsorship T \<le> amount"
      "within_caps T (charged_ledger T amount spo s)" "sponsor_can_pay T spo amount s"
    and m: "sponsor_moves T spo b amount (ext s) c"
    and s1: "s1 = emit em (Sponsored spo b amount au l) (sponsored_state T spo b amount au l c s)"
    by (auto simp: do_sponsor_Inr)
  have inv1: "hold_inv T s1"
    using hold_inv_sponsored [OF law(2) inv(1) g(1) m] by (simp add: s1 emit_def)
  have "unat (balance (Currency T) c spo) + unat amount + unat (SponsorshipStorageDeposit T) < 2 ^ 128"
    using sponsor_moves_holds(3) [OF law(2) m, of spo] unat_bound [of "balance (Currency T) (ext s) spo"]
    by simp
  with revoke_succeeds [OF law(1,2) inv1, of b ?r] sponsor_moves_sound [OF law(1) sound m] g obtain s2 where
    s2: "revoke_sponsorship T b s1 = Inr (?r, s2)"
    by (auto simp: s1 minimum_sponsorship_def)
  then obtain c2 where m2: "revoke_moves T b ?r (StorageDepositHeld s1 b) c c2"
    and st2: "s2 = revoked_state b ?r c2 s1"
    by (auto simp: revoke_sponsorship_Inr s1)
  have dep: "StorageDepositHeld s1 b = SponsorshipStorageDeposit T"
    using inv1 by (simp add: hold_inv_def s1)
  have idle: "b \<notin> set (Expirations s n)" "b \<notin> set (AutoUnlockQueue s)" "StorageDepositHeld s b = 0" for n
    using expiry_inv_not_in_bucket [OF inv(2), of b n] inv(1,3) g(1)
    by (auto simp: queue_inv_def hold_inv_def)
  have "restored T spo s s2"
    using moves_inverse [OF law(2) m g(4) neq m2 [unfolded dep]] idle
      released_charged [OF law(3) g(3), of ?r] g(1,2)
    by (auto simp: restored_def st2 s1 queue_remove_insert expirations_remove_insert fun_eq_iff
        minimum_sponsorship_def)
  with s2 show ?thesis by force
qed

end
