(* ===== verification/Sponsorship_Events.thy ===== *)
theory Sponsorship_Events
  imports Sponsorship_Hook
begin

text \<open>
  The event log as a history of the sponsorships: \<open>apply_event\<close> is how an observer of the chain
  reads one event, and every operation of the pallet extends the log so that replaying it gives the
  records (\<open>logged\<close>).
\<close>

type_synonym 'a observed = "'a \<rightharpoonup> 'a \<times> Balance \<times> AutoUnlockMode \<times> Lease"

fun apply_event :: "'a observed \<Rightarrow> 'a Event \<Rightarrow> 'a observed" where
  "apply_event m (Sponsored spo b amount au l) = m(b \<mapsto> (spo, amount, au, l))"
| "apply_event m (Unlocked spo b amount reason) = m(b := None)"
| "apply_event m (PolicyUpdated spo b au l) =
     m(b := map_option (\<lambda>(spo', amount, _, _). (spo', amount, au, l)) (m b))"
| "apply_event m (Expired spo b amount) = m(b := None)"
| "apply_event m (AutoUnlocked spo b amount cond) = m(b := None)"

definition observe :: "('a, 'c) Storage \<Rightarrow> 'a observed" where
  "observe s b = map_option (\<lambda>r. (rec_sponsor r, rec_amount r, rec_auto_unlock r, rec_lease r))
     (Sponsorships s b)"

text \<open>The step from \<open>s\<close> to \<open>s'\<close> deposited events that account for every change of the records.\<close>

definition logged :: "('a, 'c) Storage \<Rightarrow> ('a, 'c) Storage \<Rightarrow> bool" where
  "logged s s' \<longleftrightarrow>
     (\<exists>es. events s' = events s @ es \<and> observe s' = foldl apply_event (observe s) es)"

lemma logged_refl: "Sponsorships s' = Sponsorships s \<Longrightarrow> events s' = events s \<Longrightarrow> logged s s'"
  by (auto simp: logged_def observe_def intro: exI [of _ "[]"])

lemma logged_trans: "logged s s1 \<Longrightarrow> logged s1 s2 \<Longrightarrow> logged s s2"
  unfolding logged_def by (metis append.assoc foldl_append)

lemma logged_event:
  "events s1 = events s \<Longrightarrow> observe s1 = apply_event (observe s) e \<Longrightarrow> logged s (deposit_event e s1)"
  unfolding logged_def by (intro exI [of _ "[e]"]) (simp add: observe_def fun_eq_iff)

lemma logged_sponsor:
  "do_sponsor T spo b amount au l True s = Inr s' \<Longrightarrow> logged s s'"
  by (auto simp: do_sponsor_Inr observe_def intro!: logged_event)

lemma observe_revoked:
  "revoke_sponsorship T b s = Inr (r, s1) \<Longrightarrow>
   events s1 = events s \<and> observe s1 = (observe s)(b := None)"
  by (auto simp: revoke_sponsorship_Inr observe_def)

lemma logged_revoke:
  "revoke_sponsorship T b s = Inr (r, s1) \<Longrightarrow>
   logged s (deposit_event (Unlocked p b amount reason) s1)"
  "revoke_sponsorship T b s = Inr (r, s1) \<Longrightarrow> logged s (deposit_event (Expired p b amount) s1)"
  "revoke_sponsorship T b s = Inr (r, s1) \<Longrightarrow>
   logged s (deposit_event (AutoUnlocked p b amount cond) s1)"
  by (auto intro!: logged_event dest!: observe_revoked)

lemma logged_policy:
  "Sponsorships s b = Some r \<Longrightarrow>
   logged s (deposit_event (PolicyUpdated p b au l) (policy_state b r au l s))"
  by (rule logged_event) (auto simp: observe_def fun_eq_iff)

lemma logged_try_auto_unlock:
  assumes "try_auto_unlock_internal T b True s = Inr (u, s')"
  shows "logged s s'"
proof (cases "Sponsorships s b")
  case None
  with assms show ?thesis by (simp add: try_auto_unlock_internal_missing)
next
  case (Some r)
  show ?thesis
  proof (cases "auto_unlock_due T b r s")
    case True
    with assms Some show ?thesis
      by (auto simp: try_auto_unlock_internal_due auto_unlocked_event_def intro: logged_revoke)
  next
    case False
    with assms Some show ?thesis by (simp add: try_auto_unlock_internal_idle logged_refl)
  qed
qed

lemma logged_dispatch:
  assumes "dispatch T og call s = Inr s'"
  shows "logged s s'"
proof (cases call)
  case (CallSponsor b amt au l)
  with assms show ?thesis by (auto simp: sponsor_def result_simps intro: logged_sponsor)
next
  case (CallSponsorMinimum b au l)
  with assms show ?thesis by (auto simp: sponsor_minimum_def result_simps intro: logged_sponsor)
next
  case (CallUnlock b)
  with assms show ?thesis by (auto simp: unlock_Inr intro: logged_revoke)
next
  case (CallSetPolicy b au l)
  with assms show ?thesis by (auto simp: set_policy_Inr intro: logged_policy)
next
  case (CallForceUnlock b)
  with assms show ?thesis by (auto simp: force_unlock_Inr intro: logged_revoke)
next
  case (CallRefresh b)
  with assms show ?thesis by (auto simp: refresh_def result_simps intro: logged_try_auto_unlock)
qed

lemma logged_expire_loop: "logged s (expire_loop T nw bs s)"
proof (induction bs arbitrary: s)
  case (Cons b bs)
  show ?case
    using Cons.IH by (auto split: option.splits sum.splits
        intro: logged_trans [OF logged_revoke(2) Cons.IH])
qed (simp add: logged_refl)

lemma logged_auto_unlock_loop:
  "auto_unlock_loop T limit i bs un re p s = (un', re', p', s') \<Longrightarrow> logged s s'"
proof (induction bs arbitrary: i un re p s)
  case (Cons b bs)
  have "logged s s'" if "revoke_sponsorship T b s = Inr (r, s1)"
    "auto_unlock_loop T limit (Suc i) bs un re q (deposit_event (AutoUnlocked x b y cond) s1) =
      (un', re', p', s')" for r s1 x y q cond
    using logged_trans [OF logged_revoke(3) [OF that(1)] Cons.IH [OF that(2)]] .
  with Cons show ?case
    by (auto simp: Let_def split: if_splits option.splits sum.splits AutoUnlockMode.splits)
qed (simp add: logged_refl)

lemma logged_on_initialize:
  assumes "on_initialize T nw s = Some (w, s')"
  shows "logged s s'"
proof -
  obtain p s1 where e: "process_expirations T nw s = (p, s1)" by fastforce
  then have "logged (s\<lparr>Expirations := (Expirations s)(nw := [])\<rparr>) s1"
    using logged_expire_loop by (auto simp: process_expirations_def Let_def)
  then have 1: "logged s s1"
    by (rule logged_trans [OF logged_refl, rotated 2]) simp_all
  obtain un re q s2 where l: "auto_unlock_loop T (unat (MaxQueueProcessingPerBlock T)) 0
      (AutoUnlockQueue s1) [] [] 0 (s1\<lparr>AutoUnlockQueue := []\<rparr>) = (un, re, q, s2)"
    by (metis surj_pair)
  have "logged s1 s2"
    by (rule logged_trans [OF logged_refl logged_auto_unlock_loop [OF l]]) simp_all
  moreover have "logged s2 s'"
    using assms e l
    by (auto simp: on_initialize_def process_auto_unlock_queue_def Let_def intro: logged_refl
        split: if_splits)
  ultimately show ?thesis using 1 logged_trans by blast
qed

lemma logged_step: "pallet_step T s s' \<Longrightarrow> logged s s'"
proof (induction rule: pallet_step.induct)
  case (provider_create spo b amount au l s s')
  then show ?case by (auto simp: create_sponsorship_def intro: logged_sponsor)
next
  case (provider_unlock spo b s s')
  then show ?case by (auto simp: unlock_sponsorship_Inr intro: logged_revoke)
next
  case (provider_try b s s')
  then show ?case by (auto simp: try_auto_unlock_def result_simps intro: logged_try_auto_unlock)
next
  case (new_block c s w s')
  from logged_on_initialize [OF new_block(3)] show ?case
    by (rule logged_trans [OF logged_refl, rotated 2]) simp_all
qed (auto intro: logged_dispatch logged_refl)

lemma genesis_build_events: "genesis_build T g s = Some s' \<Longrightarrow> events s' = events s"
  by (induction g arbitrary: s) (fastforce simp: do_sponsor_Inr emit_def split: sum.splits)+

end
