(* ===== verification/Sponsorship_History.thy ===== *)
theory Sponsorship_History
  imports Sponsorship_Events
begin

text \<open>
  Where the changes of a run come from. The block hook is traced back to the single revocations it makes
  (\<open>hook_ends\<close>), so that a record that is gone after the hook is one whose lease ended with the block or
  whose unlock condition held when the hook came to it. \<open>changed_by_call\<close>, \<open>unlocked_when_due\<close>,
  \<open>unlocked_by_hook\<close> and \<open>expired_by_hook\<close> are the four ways a record changes in one step of the chain.
  \<open>block_step\<close> is a step within one block; the counters of a sponsor are compared with the
  \<^verbatim>\<open>Sponsored\<close> events of the block.
\<close>

subsection \<open>The revocations of the block hook\<close>

text \<open>Two storages that differ in the two indexes and the log only. The hook takes a bucket and the queue
  out of the storage before it visits their accounts.\<close>

definition same_books :: "('a, 'c) Storage \<Rightarrow> ('a, 'c) Storage \<Rightarrow> bool" where
  "same_books s s' \<longleftrightarrow>
     ext s' = ext s \<and> Sponsorships s' = Sponsorships s \<and> SponsorLedger s' = SponsorLedger s \<and>
     StorageDepositHeld s' = StorageDepositHeld s"

lemma same_books_refl [simp]: "same_books s s"
  by (simp add: same_books_def)

lemma same_books_trans: "same_books s s1 \<Longrightarrow> same_books s1 s2 \<Longrightarrow> same_books s s2"
  by (simp add: same_books_def)

lemma same_books_update [simp]:
  "same_books s (s'\<lparr>Expirations := e\<rparr>) = same_books s s'" "same_books s (s'\<lparr>AutoUnlockQueue := q\<rparr>) = same_books s s'"
  "same_books s (deposit_event ev s') = same_books s s'"
  "same_books (s\<lparr>Expirations := e\<rparr>) s' = same_books s s'" "same_books (s\<lparr>AutoUnlockQueue := q\<rparr>) s' = same_books s s'"
  by (simp_all add: same_books_def)

lemma auto_unlock_due_ext: "ext s' = ext s \<Longrightarrow> auto_unlock_due T b r s' = auto_unlock_due T b r s"
  by (simp add: auto_unlock_due_def auto_unlock_condition_met_def split: AutoUnlockMode.splits AutoUnlockCondition.splits)

text \<open>One revocation of the hook of block \<open>nw\<close>: of an account whose lease ends now, or whose unlock condition
  holds now.\<close>

inductive hook_ends ::
  "('a, 'c, 'o, 'w) Config \<Rightarrow> BlockNumber \<Rightarrow> ('a, 'c) Storage \<Rightarrow> ('a, 'c) Storage \<Rightarrow> bool"
  for T :: "('a, 'c, 'o, 'w) Config" and nw where
  revoke: "same_books s s1 \<Longrightarrow> Sponsorships s1 b = Some r \<Longrightarrow> rec_lease r = Until nw \<or> auto_unlock_due T b r s1 \<Longrightarrow>
    revoke_sponsorship T b s1 = Inr (r, s2) \<Longrightarrow> same_books s2 s3 \<Longrightarrow> hook_ends T nw s s3"

definition hook_path ::
  "('a, 'c, 'o, 'w) Config \<Rightarrow> BlockNumber \<Rightarrow> ('a, 'c) Storage \<Rightarrow> ('a, 'c) Storage \<Rightarrow> bool" where
  "hook_path T nw s s' \<longleftrightarrow> (\<exists>s1. (hook_ends T nw)\<^sup>*\<^sup>* s s1 \<and> same_books s1 s')"

lemma hook_path_books: "same_books s s' \<Longrightarrow> hook_path T nw s s'"
  unfolding hook_path_def by blast

lemma hook_path_trans:
  assumes "hook_path T nw s s1" "hook_path T nw s1 s2"
  shows "hook_path T nw s s2"
proof -
  obtain t1 t2 where t: "(hook_ends T nw)\<^sup>*\<^sup>* s t1" "same_books t1 s1" "(hook_ends T nw)\<^sup>*\<^sup>* s1 t2" "same_books t2 s2"
    using assms unfolding hook_path_def by blast
  from t(3) show ?thesis
  proof (cases rule: converse_rtranclpE)
    case base
    with t show ?thesis unfolding hook_path_def by (blast intro: same_books_trans)
  next
    case (step y)
    from step(1) have "hook_ends T nw t1 y"
      by cases (blast intro: hook_ends.revoke same_books_trans [OF t(2)])
    with t step(2) show ?thesis unfolding hook_path_def
      by (meson rtranclp_trans converse_rtranclp_into_rtranclp)
  qed
qed

lemma hook_path_revoke:
  assumes "Sponsorships s b = Some r" "rec_lease r = Until nw \<or> auto_unlock_due T b r s"
    and "revoke_sponsorship T b s = Inr (r', s1)"
  shows "hook_path T nw s (deposit_event e s1)"
proof -
  have "r' = r" using assms(1) revoke_sponsorship_record [OF assms(3)] by simp
  with assms(3) have "hook_ends T nw s s1"
    by (intro hook_ends.revoke [OF same_books_refl assms(1,2) _ same_books_refl]) simp
  then show ?thesis unfolding hook_path_def by (intro exI [of _ s1]) simp
qed

lemma expire_loop_path: "hook_path T nw s (expire_loop T nw bs s)"
proof (induction bs arbitrary: s)
  case (Cons b bs)
  then show ?case
    by (auto split: option.splits sum.splits intro: hook_path_trans [OF hook_path_revoke])
qed (simp add: hook_path_books)

lemma auto_unlock_loop_path:
  "auto_unlock_loop T limit i bs un re p s = (un', re', p', s') \<Longrightarrow> hook_path T nw s s'"
proof (induction bs arbitrary: i un re p s)
  case (Cons b bs)
  have "hook_path T nw s s'" if "Sponsorships s b = Some r" "auto_unlock_due T b r s" "revoke_sponsorship T b s = Inr (r', s1)"
    "auto_unlock_loop T limit (Suc i) bs un re q (deposit_event e s1) = (un', re', p', s')" for r r' s1 q e
    using hook_path_trans [OF hook_path_revoke [OF that(1) disjI2 [OF that(2)] that(3)] Cons.IH [OF that(4)]] .
  with Cons show ?case
    by (auto simp: Let_def auto_unlock_due_def split: if_splits option.splits sum.splits AutoUnlockMode.splits)
qed (simp add: hook_path_books)

lemma on_initialize_path:
  assumes "on_initialize T nw s = Some (w, s')"
  shows "hook_path T nw s s'"
proof -
  obtain p s1 where e: "process_expirations T nw s = (p, s1)" by fastforce
  then have s1: "s1 = expire_loop T nw (Expirations s nw) (s\<lparr>Expirations := (Expirations s)(nw := [])\<rparr>)"
    by (simp add: process_expirations_def Let_def)
  have 1: "hook_path T nw s s1"
    unfolding s1 by (rule hook_path_trans [OF hook_path_books expire_loop_path]) simp
  obtain un re q s2 where l: "auto_unlock_loop T (unat (MaxQueueProcessingPerBlock T)) 0
      (AutoUnlockQueue s1) [] [] 0 (s1\<lparr>AutoUnlockQueue := []\<rparr>) = (un, re, q, s2)"
    by (metis surj_pair)
  have "hook_path T nw s1 s2"
    by (rule hook_path_trans [OF hook_path_books auto_unlock_loop_path [OF l]]) simp
  moreover have "same_books s2 s'"
    using assms e l by (auto simp: on_initialize_def process_auto_unlock_queue_def Let_def split: if_splits)
  ultimately show ?thesis using 1 hook_path_trans hook_path_books by blast
qed

text \<open>A record that is gone at the end of a path was there, and due, at some point of it.\<close>

lemma hook_path_record:
  assumes "(hook_ends T nw)\<^sup>*\<^sup>* s s'" "Sponsorships s b = Some r" "Sponsorships s' b \<noteq> Some r"
  shows "Sponsorships s' b = None \<and> (rec_lease r = Until nw \<or>
    (\<exists>s1. (hook_ends T nw)\<^sup>*\<^sup>* s s1 \<and> Sponsorships s1 b = Some r \<and> auto_unlock_due T b r s1))"
  using assms(1,3)
proof (induction rule: rtranclp_induct)
  case (step t t')
  from step(2) obtain t1 t2 a q where t: "same_books t t1" "Sponsorships t1 a = Some q"
    "rec_lease q = Until nw \<or> auto_unlock_due T a q t1" "revoke_sponsorship T a t1 = Inr (q, t2)" "same_books t2 t'"
    by cases blast
  have t': "Sponsorships t' = (Sponsorships t)(a := None)"
    using t(1,4,5) by (auto simp: revoke_sponsorship_Inr revoked_state_def same_books_def)
  show ?case
  proof (cases "Sponsorships t b = Some r")
    case True
    with step.prems t' have "a = b" by (auto split: if_splits)
    from t(1) have books: "ext t1 = ext t" "Sponsorships t1 = Sponsorships t" by (simp_all add: same_books_def)
    with True t(2) \<open>a = b\<close> have "q = r" by simp
    with t(3) \<open>a = b\<close> have "rec_lease r = Until nw \<or> auto_unlock_due T b r t"
      by (simp add: auto_unlock_due_ext [OF books(1)])
    with True t' \<open>a = b\<close> step(1) show ?thesis by auto
  next
    case False
    with step.IH t' show ?thesis by auto
  qed
qed (use assms(2) in simp)

lemma hook_path_clock:
  assumes "clocked T" "hook_path T nw s s'"
  shows "now T s' = now T s"
proof -
  have ends: "now T t' = now T t" if "hook_ends T nw t t'" for t t'
    using that
    by cases (use assms(1) in \<open>auto simp: same_books_def now_def revoke_sponsorship_Inr revoked_state_def dest!: revoke_moves_clock\<close>)
  have path: "now T t = now T s" if "(hook_ends T nw)\<^sup>*\<^sup>* s t" for t
    using that by (induction rule: rtranclp_induct) (simp_all add: ends)
  from assms(2) obtain t where t: "(hook_ends T nw)\<^sup>*\<^sup>* s t" "same_books t s'" unfolding hook_path_def by blast
  from t(2) have "now T s' = now T t" by (simp add: same_books_def now_def)
  with path [OF t(1)] show ?thesis by simp
qed

subsection \<open>Who changes a record\<close>

text \<open>The sponsor ends the sponsorship or changes its policy, or the force origin ends it, by a call of the
  pallet; or another pallet ends it on behalf of its sponsor.\<close>

definition changed_by_call ::
  "('a, 'c, 'o, 'w) Config \<Rightarrow> 'a \<Rightarrow> 'a SponsorshipRecord \<Rightarrow> ('a, 'c) Storage \<Rightarrow> ('a, 'c) Storage \<Rightarrow> bool" where
  "changed_by_call T b r s s' \<longleftrightarrow>
     (\<exists>og. ensure_signed (System T) og = Some (rec_sponsor r) \<and> unlock T og b s = Inr s' \<and> Sponsorships s' b = None) \<or>
     (\<exists>og au l. ensure_signed (System T) og = Some (rec_sponsor r) \<and> set_policy T og b au l s = Inr s' \<and>
        Sponsorships s' b = Some (r\<lparr>rec_auto_unlock := au, rec_lease := l\<rparr>)) \<or>
     (\<exists>og. ForceOrigin T og \<and> force_unlock T og b s = Inr s' \<and> Sponsorships s' b = None) \<or>
     unlock_sponsorship T (rec_sponsor r) b s = Inr s' \<and> Sponsorships s' b = None"

text \<open>Anyone, or another pallet, triggers the automatic unlock, and its condition holds.\<close>

definition unlocked_when_due ::
  "('a, 'c, 'o, 'w) Config \<Rightarrow> 'a \<Rightarrow> 'a SponsorshipRecord \<Rightarrow> ('a, 'c) Storage \<Rightarrow> ('a, 'c) Storage \<Rightarrow> bool" where
  "unlocked_when_due T b r s s' \<longleftrightarrow>
     ((\<exists>og. refresh T og b s = Inr s') \<or> try_auto_unlock T b s = Inr s') \<and>
     auto_unlock_due T b r s \<and> Sponsorships s' b = None"

text \<open>A new block begins with the other pallets in state \<open>c\<close>.\<close>

definition begins_block ::
  "('a, 'c, 'o, 'w) Config \<Rightarrow> 'c \<Rightarrow> ('a, 'c) Storage \<Rightarrow> ('a, 'c) Storage \<Rightarrow> bool" where
  "begins_block T c s s' \<longleftrightarrow>
     unat (block_number (System T) c) = unat (now T s) + 1 \<and>
     (\<exists>w. on_initialize T (block_number (System T) c) (s\<lparr>ext := c\<rparr>) = Some (w, s'))"

definition unlocked_by_hook ::
  "('a, 'c, 'o, 'w) Config \<Rightarrow> 'a \<Rightarrow> 'a SponsorshipRecord \<Rightarrow> ('a, 'c) Storage \<Rightarrow> ('a, 'c) Storage \<Rightarrow> bool" where
  "unlocked_by_hook T b r s s' \<longleftrightarrow>
     (\<exists>c s1. begins_block T c s s' \<and> (hook_ends T (block_number (System T) c))\<^sup>*\<^sup>* (s\<lparr>ext := c\<rparr>) s1 \<and>
        Sponsorships s1 b = Some r \<and> auto_unlock_due T b r s1) \<and>
     Sponsorships s' b = None"

definition expired_by_hook ::
  "('a, 'c, 'o, 'w) Config \<Rightarrow> 'a \<Rightarrow> 'a SponsorshipRecord \<Rightarrow> ('a, 'c) Storage \<Rightarrow> ('a, 'c) Storage \<Rightarrow> bool" where
  "expired_by_hook T b r s s' \<longleftrightarrow>
     (\<exists>c. begins_block T c s s' \<and> rec_lease r = Until (block_number (System T) c)) \<and> Sponsorships s' b = None"

lemma try_auto_unlock_changes:
  assumes "try_auto_unlock_internal T b' em s = Inr (u, s')" "Sponsorships s b = Some r" "Sponsorships s' b \<noteq> Some r"
  shows "b' = b \<and> auto_unlock_due T b r s \<and> Sponsorships s' b = None"
proof (cases "Sponsorships s b'")
  case None
  with assms show ?thesis by (simp add: try_auto_unlock_internal_missing)
next
  case (Some r')
  with assms show ?thesis
    by (cases "auto_unlock_due T b' r' s")
      (auto simp: try_auto_unlock_internal_due try_auto_unlock_internal_idle revoke_sponsorship_Inr split: if_splits)
qed

lemma dispatch_changes:
  assumes "dispatch T og call s = Inr s'" and "Sponsorships s b = Some r" and "Sponsorships s' b \<noteq> Some r"
  shows "changed_by_call T b r s s' \<or> unlocked_when_due T b r s s'"
proof (cases call)
  case (CallUnlock b')
  with assms have "b' = b" "ensure_signed (System T) og = Some (rec_sponsor r)" "Sponsorships s' b = None"
    by (auto simp: unlock_Inr revoke_sponsorship_Inr split: if_splits)
  with assms(1) CallUnlock show ?thesis by (auto simp: changed_by_call_def)
next
  case (CallSetPolicy b' au l)
  with assms have "b' = b" "ensure_signed (System T) og = Some (rec_sponsor r)"
    "Sponsorships s' b = Some (r\<lparr>rec_auto_unlock := au, rec_lease := l\<rparr>)"
    by (auto simp: set_policy_Inr split: if_splits)
  with assms(1) CallSetPolicy show ?thesis by (auto simp: changed_by_call_def)
next
  case (CallForceUnlock b')
  with assms have "b' = b" "ForceOrigin T og" "Sponsorships s' b = None"
    by (auto simp: force_unlock_Inr revoke_sponsorship_Inr split: if_splits)
  with assms(1) CallForceUnlock show ?thesis by (auto simp: changed_by_call_def)
next
  case (CallRefresh b')
  with assms(1) obtain u where "try_auto_unlock_internal T b' True s = Inr (u, s')"
    by (auto simp: refresh_def result_simps)
  from try_auto_unlock_changes [OF this assms(2,3)] assms(1) CallRefresh show ?thesis
    by (auto simp: unlocked_when_due_def)
qed (use assms in \<open>auto simp: sponsor_def sponsor_minimum_def result_simps do_sponsor_Inr split: if_splits\<close>)

lemma hook_changes:
  assumes "begins_block T c s s'" and "Sponsorships s b = Some r" and "Sponsorships s' b \<noteq> Some r"
  shows "unlocked_by_hook T b r s s' \<or> expired_by_hook T b r s s'"
proof -
  from assms(1) obtain t where t: "(hook_ends T (block_number (System T) c))\<^sup>*\<^sup>* (s\<lparr>ext := c\<rparr>) t"
    "Sponsorships s' = Sponsorships t"
    unfolding begins_block_def by (auto dest!: on_initialize_path simp: hook_path_def same_books_def)
  from hook_path_record [OF t(1), of b r] assms t(2) show ?thesis
    unfolding unlocked_by_hook_def expired_by_hook_def by auto
qed

lemma step_changes:
  assumes "pallet_step T s s'" and "Sponsorships s b = Some r" and "Sponsorships s' b \<noteq> Some r"
  shows "changed_by_call T b r s s' \<or> unlocked_when_due T b r s s' \<or> unlocked_by_hook T b r s s' \<or>
    expired_by_hook T b r s s'"
  using assms
proof (induction rule: pallet_step.induct)
  case (provider_unlock spo b' s s')
  then have "b' = b" "spo = rec_sponsor r" "Sponsorships s' b = None"
    by (auto simp: unlock_sponsorship_Inr revoke_sponsorship_Inr split: if_splits)
  with provider_unlock show ?case by (auto simp: changed_by_call_def)
next
  case (provider_try b' s s')
  from provider_try.hyps obtain u where "try_auto_unlock_internal T b' True s = Inr (u, s')"
    by (auto simp: try_auto_unlock_def result_simps)
  from try_auto_unlock_changes [OF this provider_try.prems] provider_try.hyps show ?case
    by (auto simp: unlocked_when_due_def)
next
  case (new_block c s w s')
  then have "begins_block T c s s'" by (auto simp: begins_block_def)
  from hook_changes [OF this new_block.prems] show ?case by blast
qed (auto dest: dispatch_changes simp: create_sponsorship_def do_sponsor_Inr split: if_splits)

subsection \<open>The limits per block\<close>

text \<open>What the log says a sponsor created, and what its counters say it created in the current block.\<close>

fun logged_amount :: "'a \<Rightarrow> 'a Event list \<Rightarrow> nat" where
  "logged_amount p [] = 0"
| "logged_amount p (Sponsored spo b amount au l # es) = (if spo = p then unat amount else 0) + logged_amount p es"
| "logged_amount p (e # es) = logged_amount p es"

fun logged_count :: "'a \<Rightarrow> 'a Event list \<Rightarrow> nat" where
  "logged_count p [] = 0"
| "logged_count p (Sponsored spo b amount au l # es) = (if spo = p then 1 else 0) + logged_count p es"
| "logged_count p (e # es) = logged_count p es"

lemma logged_append [simp]:
  "logged_amount p (es @ fs) = logged_amount p es + logged_amount p fs"
  "logged_count p (es @ fs) = logged_count p es + logged_count p fs"
  by (induction es rule: logged_amount.induct) auto

definition block_amount :: "('a, 'c, 'o, 'w) Config \<Rightarrow> 'a \<Rightarrow> ('a, 'c) Storage \<Rightarrow> nat" where
  "block_amount T p s =
     (if last_block (SponsorLedger s p) = now T s then unat (sponsored_amount_in_block (SponsorLedger s p)) else 0)"

definition block_count :: "('a, 'c, 'o, 'w) Config \<Rightarrow> 'a \<Rightarrow> ('a, 'c) Storage \<Rightarrow> nat" where
  "block_count T p s =
     (if last_block (SponsorLedger s p) = now T s then unat (new_sponsorships_in_block (SponsorLedger s p)) else 0)"

text \<open>Within a block the counters of every sponsor grow by what the log says.\<close>

definition counted :: "('a, 'c, 'o, 'w) Config \<Rightarrow> ('a, 'c) Storage \<Rightarrow> ('a, 'c) Storage \<Rightarrow> bool" where
  "counted T s s' \<longleftrightarrow> now T s' = now T s \<and>
     (exact_caps T \<longrightarrow> (\<exists>es. events s' = events s @ es \<and>
        (\<forall>p. block_amount T p s' = block_amount T p s + logged_amount p es \<and>
             block_count T p s' = block_count T p s + logged_count p es)))"

lemma counted_frame:
  "now T s' = now T s \<Longrightarrow> SponsorLedger s' = SponsorLedger s \<Longrightarrow> events s' = events s \<Longrightarrow> counted T s s'"
  by (auto simp: counted_def block_amount_def block_count_def intro: exI [of _ "[]"])

lemma counted_trans: "counted T s s1 \<Longrightarrow> counted T s1 s2 \<Longrightarrow> counted T s s2"
  unfolding counted_def
  by (cases "exact_caps T") auto

lemma counted_event:
  assumes "now T s' = now T s" "events s' = events s"
    and "\<And>p. last_block (SponsorLedger s' p) = last_block (SponsorLedger s p) \<and>
      sponsored_amount_in_block (SponsorLedger s' p) = sponsored_amount_in_block (SponsorLedger s p) \<and>
      new_sponsorships_in_block (SponsorLedger s' p) = new_sponsorships_in_block (SponsorLedger s p)"
    and "\<And>p. logged_amount p [e] = 0 \<and> logged_count p [e] = 0"
  shows "counted T s (deposit_event e s')"
  unfolding counted_def using assms by (intro conjI impI exI [of _ "[e]"]) (auto simp: block_amount_def block_count_def)

lemma counted_revoke:
  assumes "clocked T" "revoke_sponsorship T b s = Inr (r, s1)"
    and "\<And>p. logged_amount p [e] = 0 \<and> logged_count p [e] = 0"
  shows "counted T s (deposit_event e s1)"
  using assms(2) revoke_moves_clock [OF assms(1)]
  by (intro counted_event assms(3)) (auto simp: revoke_sponsorship_Inr revoked_state_def released_ledger_def now_def)

lemma counted_sponsor:
  assumes "clocked T" "do_sponsor T spo b amount au l True s = Inr s'"
  shows "counted T s s'"
proof -
  from assms(2) obtain c where caps: "within_caps T (charged_ledger T amount spo s)"
    and c: "sponsor_moves T spo b amount (ext s) c"
    and s': "s' = deposit_event (Sponsored spo b amount au l) (sponsored_state T spo b amount au l c s)"
    by (auto simp: do_sponsor_Inr)
  have now: "now T s' = now T s" using sponsor_moves_clock [OF assms(1) c] by (simp add: s' now_def sponsored_state_def)
  have "block_amount T p s' = block_amount T p s + logged_amount p [Sponsored spo b amount au l] \<and>
      block_count T p s' = block_count T p s + logged_count p [Sponsored spo b amount au l]"
    if "exact_caps T" for p
    using charged_exact(3,4) [OF that caps] now
    by (auto simp: block_amount_def block_count_def s' sponsored_state_def charged_ledger_def
        refresh_per_block_ledger_def Let_def)
  then show ?thesis unfolding counted_def using now by (intro conjI impI exI [of _ "[Sponsored spo b amount au l]"])
    (simp_all add: s' sponsored_state_def)
qed

lemma counted_try_auto_unlock:
  assumes "clocked T" "try_auto_unlock_internal T b True s = Inr (u, s')"
  shows "counted T s s'"
proof (cases "Sponsorships s b")
  case None
  with assms show ?thesis by (simp add: try_auto_unlock_internal_missing)
next
  case (Some r)
  show ?thesis
  proof (cases "auto_unlock_due T b r s")
    case True
    with assms Some show ?thesis
      by (auto simp: try_auto_unlock_internal_due auto_unlocked_event_def intro: counted_revoke)
  next
    case False
    with assms Some show ?thesis by (simp add: try_auto_unlock_internal_idle counted_frame)
  qed
qed

lemma counted_dispatch:
  assumes "clocked T" "dispatch T og call s = Inr s'"
  shows "counted T s s'"
proof (cases call)
  case (CallSetPolicy b au l)
  with assms(2) show ?thesis
    by (auto simp: set_policy_Inr policy_state_def now_def intro!: counted_event)
next
  case (CallRefresh b)
  with assms show ?thesis by (auto simp: refresh_def result_simps intro: counted_try_auto_unlock)
qed (use assms in \<open>auto simp: sponsor_def sponsor_minimum_def unlock_Inr force_unlock_Inr result_simps
      intro: counted_sponsor counted_revoke\<close>)

text \<open>A step of the chain that does not begin a block.\<close>

definition block_step ::
  "('a, 'c, 'o, 'w) Config \<Rightarrow> ('a, 'c) Storage \<Rightarrow> ('a, 'c) Storage \<Rightarrow> bool" where
  "block_step T s s' \<longleftrightarrow> pallet_step T s s' \<and> now T s' = now T s"

lemma step_cases:
  assumes "clocked T" "pallet_step T s s'"
  shows "counted T s s' \<or> (\<exists>c. begins_block T c s s' \<and> now T s' = block_number (System T) c)"
  using assms(2)
proof cases
  case (new_block c w)
  have "now T s' = now T (s\<lparr>ext := c\<rparr>)"
    by (rule hook_path_clock [OF assms(1) on_initialize_path [OF new_block(3)]])
  then have "now T s' = block_number (System T) c" by (simp add: now_def)
  with new_block show ?thesis unfolding begins_block_def by blast
qed (use assms(1) in \<open>auto simp: create_sponsorship_def unlock_sponsorship_Inr try_auto_unlock_def result_simps
      intro: counted_dispatch counted_sponsor counted_revoke counted_try_auto_unlock counted_frame\<close>)

lemma block_run_counted:
  assumes "clocked T" "(block_step T)\<^sup>*\<^sup>* s s'"
  shows "counted T s s'"
  using assms(2)
proof (induction rule: rtranclp_induct)
  case (step t t')
  then have "counted T t t'"
    using step_cases [OF assms(1), of t t'] by (auto simp: block_step_def begins_block_def)
  with step.IH show ?case by (rule counted_trans)
qed (simp add: counted_frame)

lemma block_run_reachable: "(block_step T)\<^sup>*\<^sup>* s s' \<Longrightarrow> reachable T s \<Longrightarrow> reachable T s'"
  by (induction rule: rtranclp_induct) (auto simp: block_step_def intro: reachable.step)

text \<open>A lease that is over is not ended by any step that leaves the record to the hooks.\<close>

definition unattended ::
  "('a, 'c, 'o, 'w) Config \<Rightarrow> 'a \<Rightarrow> ('a, 'c) Storage \<Rightarrow> ('a, 'c) Storage \<Rightarrow> bool" where
  "unattended T b s s' \<longleftrightarrow> pallet_step T s s' \<and>
     (\<forall>r. Sponsorships s b = Some r \<longrightarrow> Sponsorships s' b = Some r \<or>
        \<not> changed_by_call T b r s s' \<and> \<not> unlocked_when_due T b r s s' \<and> \<not> unlocked_by_hook T b r s s')"

lemma step_now:
  assumes "clocked T" "pallet_step T s s'"
  shows "now T s \<le> now T s'"
  using step_cases [OF assms] by (auto simp: counted_def begins_block_def word_le_nat_alt)

lemma unattended_keeps:
  assumes "clocked T" "unattended T b s s'" "Sponsorships s b = Some r" "rec_lease r = Until n" "n \<le> now T s"
  shows "Sponsorships s' b = Some r \<and> n \<le> now T s'"
proof -
  have step: "pallet_step T s s'" using assms(2) by (simp add: unattended_def)
  have "\<not> expired_by_hook T b r s s'"
    using assms(4,5) by (auto simp: expired_by_hook_def begins_block_def word_le_nat_alt)
  with step_changes [OF step assms(3)] assms(2,3) have "Sponsorships s' b = Some r"
    by (auto simp: unattended_def)
  with step_now [OF assms(1) step] assms(5) show ?thesis by simp
qed

lemma unattended_run_keeps:
  assumes "(unattended T b)\<^sup>*\<^sup>* s s'" "clocked T" "Sponsorships s b = Some r" "rec_lease r = Until n" "n \<le> now T s"
  shows "Sponsorships s' b = Some r \<and> n \<le> now T s'"
  using assms(1)
proof (induction rule: rtranclp_induct)
  case (step t t')
  then show ?case using unattended_keeps [OF assms(2) step.hyps(2) _ assms(4)] by blast
qed (use assms in simp)

end
