(* ===== verification/Sponsorship_Provider.thy ===== *)
theory Sponsorship_Provider
  imports Sponsorship_Effects
begin

text \<open>
  The trait \<^verbatim>\<open>SponsorshipProvider\<close> as the contract other pallets program against: the locale
  fixes its seven functions over a storage \<open>'s\<close> and states what each promises. What a client can
  conclude from the contract alone is proved inside; the pallet is the interpretation.
\<close>

locale sponsorship_provider =
  fixes sponsorship_of :: "'a \<Rightarrow> 's \<Rightarrow> 'a SponsorshipView option"
    and is_sponsored :: "'a \<Rightarrow> 's \<Rightarrow> bool"
    and sponsored_amount :: "'a \<Rightarrow> 's \<Rightarrow> Balance"
    and sponsor_of :: "'a \<Rightarrow> 's \<Rightarrow> 'a option"
    and create :: "'a \<Rightarrow> 'a \<Rightarrow> Balance \<Rightarrow> AutoUnlockMode \<Rightarrow> Lease \<Rightarrow> 's \<Rightarrow> DispatchError + 's"
    and unlock :: "'a \<Rightarrow> 'a \<Rightarrow> 's \<Rightarrow> DispatchError + 's"
    and try_auto_unlock :: "'a \<Rightarrow> 's \<Rightarrow> DispatchError + 's"
  assumes is_sponsored_view: "is_sponsored b s \<longleftrightarrow> sponsorship_of b s \<noteq> None"
    and amount_view: "sponsored_amount b s =
      (case sponsorship_of b s of None \<Rightarrow> 0 | Some v \<Rightarrow> view_amount v)"
    and sponsor_view: "sponsor_of b s = map_option view_sponsor (sponsorship_of b s)"
    and view_names: "sponsorship_of b s = Some v \<Longrightarrow> view_beneficiary v = b"
    and create_law: "create spo b amount au l s = Inr s' \<Longrightarrow>
      \<not> is_sponsored b s \<and>
      (\<exists>at. sponsorship_of b s' = Some \<lparr>view_sponsor = spo, view_beneficiary = b,
         view_amount = amount, view_auto_unlock = au, view_lease = l, view_created_at = at\<rparr>) \<and>
      (\<forall>a. a \<noteq> b \<longrightarrow> sponsorship_of a s' = sponsorship_of a s)"
    and unlock_law: "unlock spo b s = Inr s' \<Longrightarrow>
      sponsor_of b s = Some spo \<and> \<not> is_sponsored b s' \<and>
      (\<forall>a. a \<noteq> b \<longrightarrow> sponsorship_of a s' = sponsorship_of a s)"
    and try_law: "try_auto_unlock b s = Inr s' \<Longrightarrow>
      is_sponsored b s \<and> (sponsorship_of b s' = sponsorship_of b s \<or> \<not> is_sponsored b s') \<and>
      (\<forall>a. a \<noteq> b \<longrightarrow> sponsorship_of a s' = sponsorship_of a s)"
begin

lemma create_queries:
  "create spo b amount au l s = Inr s' \<Longrightarrow>
   is_sponsored b s' \<and> sponsored_amount b s' = amount \<and> sponsor_of b s' = Some spo"
  using create_law [of spo b amount au l s s']
  by (auto simp: is_sponsored_view amount_view sponsor_view)

lemma create_twice_fails:
  "create spo b amount au l s = Inr s' \<Longrightarrow> \<exists>e. create spo' b amount' au' l' s' = Inl e"
  using create_queries [of spo b amount au l s s'] create_law [of spo' b amount' au' l' s']
  by (cases "create spo' b amount' au' l' s'") auto

lemma stranger_cannot_unlock:
  "sponsor_of b s \<noteq> Some spo \<Longrightarrow> \<exists>e. unlock spo b s = Inl e"
  using unlock_law [of spo b s] by (cases "unlock spo b s") auto

lemma unlock_clears:
  "unlock spo b s = Inr s' \<Longrightarrow> sponsored_amount b s' = 0 \<and> sponsor_of b s' = None"
  using unlock_law [of spo b s s'] by (simp add: is_sponsored_view amount_view sponsor_view)

text \<open>A sponsorship that is created and given back leaves every view as it was.\<close>

lemma create_unlock_views:
  assumes "create spo b amount au l s = Inr s1" and "unlock spo' b s1 = Inr s2"
  shows "spo' = spo \<and> (\<forall>a. sponsorship_of a s2 = sponsorship_of a s)"
proof -
  have "sponsor_of b s1 = Some spo" using create_queries [OF assms(1)] by simp
  with create_law [OF assms(1)] unlock_law [OF assms(2)] show ?thesis
    by (auto simp: is_sponsored_view) metis
qed

end

lemma create_sponsorship_view:
  "create_sponsorship T spo b amount au l s = Inr s' \<Longrightarrow>
   Sponsorships s b = None \<and>
   Sponsorships s' = (Sponsorships s)(b \<mapsto> \<lparr>rec_sponsor = spo, rec_amount = amount,
     rec_auto_unlock = au, rec_lease = l, rec_created_at = now T s\<rparr>)"
  by (auto simp: create_sponsorship_def do_sponsor_Inr sponsored_state_def)

lemma unlock_sponsorship_view:
  "unlock_sponsorship T spo b s = Inr s' \<Longrightarrow>
   \<exists>r. Sponsorships s b = Some r \<and> rec_sponsor r = spo \<and> Sponsorships s' = (Sponsorships s)(b := None)"
  by (auto simp: unlock_sponsorship_Inr revoke_sponsorship_Inr revoked_state_def)

lemma try_auto_unlock_view:
  assumes "try_auto_unlock T b s = Inr s'"
  shows "Sponsorships s b \<noteq> None \<and>
    (Sponsorships s' = Sponsorships s \<or> Sponsorships s' = (Sponsorships s)(b := None))"
proof -
  from assms obtain u where u: "try_auto_unlock_internal T b True s = Inr (u, s')"
    by (auto simp: try_auto_unlock_def result_simps)
  show ?thesis
  proof (cases "Sponsorships s b")
    case None
    with u show ?thesis by (simp add: try_auto_unlock_internal_missing)
  next
    case (Some r)
    with u show ?thesis
      by (cases "auto_unlock_due T b r s")
        (auto simp: try_auto_unlock_internal_due try_auto_unlock_internal_idle
          revoke_sponsorship_Inr revoked_state_def)
  qed
qed

interpretation provider: sponsorship_provider sponsorship_of is_sponsored sponsored_amount sponsor_of
  "create_sponsorship T" "unlock_sponsorship T" "try_auto_unlock T"
  for T :: "('a, 'c, 'o, 'w) Config"
proof unfold_locales
  fix b spo :: 'a and amount au l and s s' :: "('a, 'c) Storage"
  show "is_sponsored b s \<longleftrightarrow> sponsorship_of b s \<noteq> None"
    by (simp add: is_sponsored_def sponsorship_of_def)
  show "sponsored_amount b s = (case sponsorship_of b s of None \<Rightarrow> 0 | Some v \<Rightarrow> view_amount v)"
    by (simp add: sponsored_amount_def sponsorship_of_def split: option.splits)
  show "sponsor_of b s = map_option view_sponsor (sponsorship_of b s)"
    by (simp add: sponsor_of_def sponsorship_of_def option.map_comp comp_def)
  show "view_beneficiary v = b" if "sponsorship_of b s = Some v" for v
    using that by (auto simp: sponsorship_of_def)
  show "\<not> is_sponsored b s \<and>
      (\<exists>at. sponsorship_of b s' = Some \<lparr>view_sponsor = spo, view_beneficiary = b,
         view_amount = amount, view_auto_unlock = au, view_lease = l, view_created_at = at\<rparr>) \<and>
      (\<forall>a. a \<noteq> b \<longrightarrow> sponsorship_of a s' = sponsorship_of a s)"
    if "create_sponsorship T spo b amount au l s = Inr s'"
    using create_sponsorship_view [OF that] by (simp add: sponsorship_of_def is_sponsored_def)
  show "sponsor_of b s = Some spo \<and> \<not> is_sponsored b s' \<and>
      (\<forall>a. a \<noteq> b \<longrightarrow> sponsorship_of a s' = sponsorship_of a s)"
    if "unlock_sponsorship T spo b s = Inr s'"
    using unlock_sponsorship_view [OF that]
    by (auto simp: sponsorship_of_def sponsor_of_def is_sponsored_def)
  show "is_sponsored b s \<and> (sponsorship_of b s' = sponsorship_of b s \<or> \<not> is_sponsored b s') \<and>
      (\<forall>a. a \<noteq> b \<longrightarrow> sponsorship_of a s' = sponsorship_of a s)"
    if "try_auto_unlock T b s = Inr s'"
    using try_auto_unlock_view [OF that] by (auto simp: sponsorship_of_def is_sponsored_def)
qed

end
