(* ===== verification/Sample_Ledger.thy ===== *)
theory Sample_Ledger
  imports Frame_Interface
begin

text \<open>
  A concrete currency and system for accounts named by natural numbers: a clock, a free balance and
  the holds of every account. It meets the laws of \<open>Frame_Interface\<close>, so the properties
  that rest on them are not vacuous, and it computes, so they can be applied to concrete inputs.
\<close>

record 'r vault =
  vault_clock :: u32
  vault_free :: "nat \<Rightarrow> u128"
  vault_held :: "'r \<Rightarrow> nat \<Rightarrow> u128"

definition credit :: "nat \<Rightarrow> u128 \<Rightarrow> (nat \<Rightarrow> u128) \<Rightarrow> (nat \<Rightarrow> u128) option" where
  "credit who amt m = (if unat (m who) + unat amt < 2 ^ 128 then Some (m(who := m who + amt)) else None)"

definition debit :: "nat \<Rightarrow> u128 \<Rightarrow> (nat \<Rightarrow> u128) \<Rightarrow> (nat \<Rightarrow> u128) option" where
  "debit who amt m = (if amt \<le> m who then Some (m(who := m who - amt)) else None)"

definition lock_funds :: "'r \<Rightarrow> nat \<Rightarrow> nat \<Rightarrow> u128 \<Rightarrow> 'r vault \<Rightarrow> 'r vault option" where
  "lock_funds r src dst amt v =
     (case (debit src amt (vault_free v), credit dst amt (vault_held v r)) of
        (Some f, Some h) \<Rightarrow> Some (v\<lparr>vault_free := f, vault_held := (vault_held v)(r := h)\<rparr>)
      | _ \<Rightarrow> None)"

definition free_funds :: "'r \<Rightarrow> nat \<Rightarrow> nat \<Rightarrow> u128 \<Rightarrow> 'r vault \<Rightarrow> 'r vault option" where
  "free_funds r src dst amt v =
     (case (debit src amt (vault_held v r), credit dst amt (vault_free v)) of
        (Some h, Some f) \<Rightarrow> Some (v\<lparr>vault_free := f, vault_held := (vault_held v)(r := h)\<rparr>)
      | _ \<Rightarrow> None)"

definition move_funds :: "nat \<Rightarrow> nat \<Rightarrow> u128 \<Rightarrow> 'r vault \<Rightarrow> 'r vault option" where
  "move_funds src dst amt v =
     (case debit src amt (vault_free v) of
        None \<Rightarrow> None
      | Some f \<Rightarrow> map_option (\<lambda>f'. v\<lparr>vault_free := f'\<rparr>) (credit dst amt f))"

text \<open>The minimum balance is 1, so nothing is ever lost as dust; an account that must be preserved keeps
  it.\<close>

definition spendable :: "Preservation \<Rightarrow> u128 \<Rightarrow> u128" where
  "spendable k x = (if k = Preserve then saturating_sub x 1 else x)"

definition sample_currency :: "(nat, 'r vault, 'r) hold_fungible" where
  "sample_currency =
     \<lparr>minimum_balance = 1, balance = vault_free, reducible_balance = (\<lambda>v a k _. spendable k (vault_free v a)),
      transfer = (\<lambda>src dst amt _. move_funds src dst amt),
      balance_on_hold = vault_held, hold_available = (\<lambda>_ _ _. True),
      hold = (\<lambda>r who. lock_funds r who who),
      release = (\<lambda>r who amt _. free_funds r who who amt),
      transfer_and_hold = (\<lambda>r src dst amt _ _ _. lock_funds r src dst amt),
      transfer_on_hold = (\<lambda>r src dst amt _ _ _. free_funds r src dst amt)\<rparr>"

text \<open>Origin 0 is the root origin; every other one is signed by the account of that number.\<close>

definition sample_system :: "(nat, 'r vault, nat) frame_system" where
  "sample_system =
     \<lparr>block_number = vault_clock, ensure_signed = (\<lambda>og. if og = 0 then None else Some og),
      inc_providers = (\<lambda>_ v. v), dec_providers = (\<lambda>_ v. (True, v)),
      account_exists = (\<lambda>v a. vault_free v a \<noteq> 0)\<rparr>"

lemma credit_Some:
  "credit who amt m = Some m' \<Longrightarrow>
   m' = m(who := m who + amt) \<and> unat (m who + amt) = unat (m who) + unat amt"
  by (auto simp: credit_def unat_word_ariths split: if_splits)

lemma debit_Some:
  "debit who amt m = Some m' \<Longrightarrow>
   m' = m(who := m who - amt) \<and> unat (m who - amt) + unat amt = unat (m who)"
  by (auto simp: debit_def unat_sub word_le_nat_alt split: if_splits)

lemma lock_funds_Some:
  assumes "lock_funds r src dst amt v = Some v'"
  shows "vault_clock v' = vault_clock v"
    and "unat (vault_held v' r' a) = unat (vault_held v r' a) + (if r' = r \<and> a = dst then unat amt else 0)"
    and "unat (vault_free v' a) + (if a = src then unat amt else 0) = unat (vault_free v a)"
  using assms
  by (auto simp: lock_funds_def split: option.splits dest!: credit_Some debit_Some)

lemma lock_funds_other: "lock_funds r src dst amt v = Some v' \<Longrightarrow> a \<noteq> src \<Longrightarrow> vault_free v' a = vault_free v a"
  by (auto simp: lock_funds_def split: option.splits dest!: debit_Some)

lemma lock_funds_own:
  "lock_funds r src dst amt v = Some v' \<Longrightarrow> unat (vault_free v' src) + unat amt = unat (vault_free v src)"
  using lock_funds_Some(3) [of r src dst amt v v' src] by simp

lemma free_funds_Some:
  assumes "free_funds r src dst amt v = Some v'"
  shows "vault_clock v' = vault_clock v"
    and "unat (vault_held v' r' a) + (if r' = r \<and> a = src then unat amt else 0) = unat (vault_held v r' a)"
    and "unat (vault_free v' a) = unat (vault_free v a) + (if a = dst then unat amt else 0)"
  using assms
  by (auto simp: free_funds_def split: option.splits dest!: credit_Some debit_Some)

lemma sample_currency_simps [simp]:
  "minimum_balance sample_currency = 1" "balance sample_currency = vault_free"
  "reducible_balance sample_currency v a k f = spendable k (vault_free v a)"
  "transfer sample_currency src dst amt p = move_funds src dst amt"
  "balance_on_hold sample_currency = vault_held" "hold_available sample_currency v r a"
  "hold sample_currency r who = lock_funds r who who"
  "release sample_currency r who amt prec = free_funds r who who amt"
  "transfer_and_hold sample_currency r src dst amt prec p f = lock_funds r src dst amt"
  "transfer_on_hold sample_currency r src dst amt prec re f = free_funds r src dst amt"
  by (simp_all add: sample_currency_def)

lemma sample_system_simps [simp]:
  "block_number sample_system = vault_clock"
  "ensure_signed sample_system og = (if og = 0 then None else Some og)"
  "inc_providers sample_system who v = v" "dec_providers sample_system who v = (True, v)"
  "account_exists sample_system v a = (vault_free v a \<noteq> 0)"
  by (simp_all add: sample_system_def)

lemma sample_laws: "hold_currency_laws sample_system sample_currency"
  unfolding hold_currency_laws_def
proof (intro conjI)
  show "transfer_and_hold_law sample_currency"
    unfolding transfer_and_hold_law_def sample_currency_simps
    by (intro allI impI conjI) (rule lock_funds_Some, assumption)+
  show "hold_law sample_currency"
    unfolding hold_law_def sample_currency_simps
    by (auto simp: lock_funds_Some(2) lock_funds_other lock_funds_own)
  show "transfer_on_hold_law sample_currency"
    unfolding transfer_on_hold_law_def sample_currency_simps
    by (auto simp: free_funds_Some(2) free_funds_Some(3))
  show "release_law sample_currency"
    unfolding release_law_def sample_currency_simps
    by (auto simp: free_funds_Some(2) free_funds_Some(3))
  show "reducible_law sample_currency"
    by (auto simp: reducible_law_def spendable_def unat_saturating_sub word_unat_eq_iff)
  show "providers_law sample_system sample_currency"
    by (simp add: providers_law_def)
  show "clock_law sample_system sample_currency"
    by (auto simp: clock_law_def dest: lock_funds_Some(1) free_funds_Some(1))
qed

lemma sample_take_off_hold: "take_off_hold_law (\<lambda>_. True) sample_system sample_currency"
  by (auto simp: take_off_hold_law_def free_funds_def debit_def credit_def split: option.splits)

lemma free_funds_grows: "free_funds r src dst amt v = Some v' \<Longrightarrow> vault_free v a \<le> vault_free v' a"
  using free_funds_Some(3) [of r src dst amt v v' a] by (simp add: word_le_nat_alt)

lemma sample_spendable_law: "spendable_law sample_system sample_currency"
  by (auto simp: spendable_law_def spendable_def word_le_nat_alt unat_saturating_sub intro!: diff_le_mono
      simp: free_funds_grows [unfolded word_le_nat_alt])

subsection \<open>Credits of the sample currency\<close>

text \<open>A credit is its value.\<close>

definition sample_balanced :: "(nat, 'r vault, u128) balanced" where
  "sample_balanced =
     \<lparr>minimum_balance = 1, balance = vault_free, reducible_balance = (\<lambda>v a _ _. vault_free v a),
      transfer = (\<lambda>src dst amt _. move_funds src dst amt),
      can_withdraw = (\<lambda>v a amt. amt \<le> vault_free v a),
      withdraw = (\<lambda>a amt _ _ _ v. map_option (\<lambda>f. (amt, v\<lparr>vault_free := f\<rparr>)) (debit a amt (vault_free v))),
      resolve = (\<lambda>a cr v. case credit a cr (vault_free v) of
          None \<Rightarrow> Inl cr | Some f \<Rightarrow> Inr (v\<lparr>vault_free := f\<rparr>)),
      peek = id, split_credit = (\<lambda>cr amt. (min cr amt, saturating_sub cr amt)),
      subsume = saturating_add, drop_credit = (\<lambda>_ v. v)\<rparr>"

lemma sample_balanced_simps [simp]:
  "balance sample_balanced = vault_free" "can_withdraw sample_balanced v a amt = (amt \<le> vault_free v a)"
  "withdraw sample_balanced a amt p k f v =
     map_option (\<lambda>f. (amt, v\<lparr>vault_free := f\<rparr>)) (debit a amt (vault_free v))"
  "resolve sample_balanced a cr v = (case credit a cr (vault_free v) of
      None \<Rightarrow> Inl cr | Some f \<Rightarrow> Inr (v\<lparr>vault_free := f\<rparr>))"
  "peek sample_balanced cr = cr"
  "split_credit sample_balanced cr amt = (min cr amt, saturating_sub cr amt)"
  "subsume sample_balanced cr cr' = saturating_add cr cr'" "drop_credit sample_balanced cr v = v"
  "transfer sample_balanced src dst amt keep = move_funds src dst amt"
  by (simp_all add: sample_balanced_def)

lemma sample_credit_laws: "credit_laws sample_balanced"
  unfolding credit_laws_def
proof (intro conjI)
  show "withdraw_law sample_balanced"
    by (auto simp: withdraw_law_def dest!: debit_Some)
  show "resolve_law sample_balanced"
    by (auto simp: resolve_law_def split: option.splits dest!: credit_Some)
qed (simp_all add: split_law_def drop_law_def)

lemma sample_progress: "withdraw_progress_law sample_balanced pool"
  by (auto simp: withdraw_progress_law_def debit_def split: if_splits)

lemma sample_transfer: "transfer_law sample_balanced"
  by (auto simp: transfer_law_def move_funds_def split: option.splits dest!: credit_Some debit_Some)

subsection \<open>A currency that burns dust\<close>

text \<open>The same credits with a minimum balance of \<open>m\<close>: a withdrawal that leaves less burns the rest, or
  is refused when the account must be preserved.\<close>

definition dusty_withdraw ::
  "u128 \<Rightarrow> nat \<Rightarrow> u128 \<Rightarrow> Preservation \<Rightarrow> 'r vault \<Rightarrow> (u128 \<times> 'r vault) option" where
  "dusty_withdraw m a amt k v =
     (case debit a amt (vault_free v) of
        None \<Rightarrow> None
      | Some f \<Rightarrow>
          if m \<le> f a then Some (amt, v\<lparr>vault_free := f\<rparr>)
          else if k = Preserve then None else Some (amt, v\<lparr>vault_free := f(a := 0)\<rparr>))"

definition dusty_balanced :: "u128 \<Rightarrow> (nat, 'r vault, u128) balanced" where
  "dusty_balanced m =
     sample_balanced\<lparr>minimum_balance := m, withdraw := (\<lambda>a amt _ k _ v. dusty_withdraw m a amt k v)\<rparr>"

lemma dusty_balanced_simps [simp]:
  "balance (dusty_balanced m) = vault_free" "minimum_balance (dusty_balanced m) = m"
  "withdraw (dusty_balanced m) a amt p k f v = dusty_withdraw m a amt k v"
  "resolve (dusty_balanced m) a cr v = (case credit a cr (vault_free v) of
      None \<Rightarrow> Inl cr | Some f \<Rightarrow> Inr (v\<lparr>vault_free := f\<rparr>))"
  "peek (dusty_balanced m) cr = cr"
  "split_credit (dusty_balanced m) cr amt = (min cr amt, saturating_sub cr amt)"
  "subsume (dusty_balanced m) cr cr' = saturating_add cr cr'" "drop_credit (dusty_balanced m) cr v = v"
  "can_withdraw (dusty_balanced m) v a amt = (amt \<le> vault_free v a)"
  by (simp_all add: dusty_balanced_def sample_balanced_def)

lemma dusty_credit_laws: "credit_laws (dusty_balanced m)"
  unfolding credit_laws_def
proof (intro conjI)
  show "withdraw_law (dusty_balanced m)"
    by (auto simp: withdraw_law_def dusty_withdraw_def not_le word_less_nat_alt split: option.splits if_splits
        dest!: debit_Some)
  show "resolve_law (dusty_balanced m)"
    by (auto simp: resolve_law_def split: option.splits dest!: credit_Some)
qed (simp_all add: split_law_def drop_law_def)

lemma dusty_reap: "reap_law (dusty_balanced m) a"
  by (auto simp: reap_law_def dusty_withdraw_def word_le_nat_alt split: option.splits if_splits
      dest!: debit_Some)

end
