(* ===== verification/Sponsorship_Properties.thy ===== *)
theory Sponsorship_Properties
  imports Sponsorship_Liveness Sponsorship_History Sponsorship_Provider Sample_Ledger
begin

text \<open>
  The properties of the sponsorship pallet, each with a run of the pallet on the sample ledger in
  which its hypotheses hold. The sample run: account 11 has funds at genesis and sponsors account 12
  with a lease that ends at block 1; then account 11 sponsors account 13 without a lease.
\<close>

subsection \<open>A sample configuration and a sample run\<close>

definition sample_config :: "(nat, HoldReason vault, nat, nat) Config" where
  "sample_config =
     \<lparr>System = sample_system, Currency = sample_currency,
      WeightInfo = \<lparr>on_initialize_process_auto_unlock = unat, on_initialize_process_expiries = unat,
        weight_saturating_add = (+)\<rparr>,
      MinSponsorship = 10, SponsorMinRemaining = 5, MaxTotalSponsoredPerSponsor = 1000,
      MaxSponsoredAccountsPerSponsor = 10, MaxSponsoredAmountPerBlock = 500,
      MaxNewSponsorshipsPerBlock = 3, MaxLeaseDuration = 100, MaxQueueProcessingPerBlock = 4,
      SponsorshipStorageDeposit = 2, ForceOrigin = (\<lambda>og. og = 0)\<rparr>"

definition sample_vault :: "HoldReason vault" where
  "sample_vault =
     \<lparr>vault_clock = 0, vault_free = (\<lambda>_. 0)(11 := 1000), vault_held = (\<lambda>_ _. 0)\<rparr>"

definition sample_genesis :: "(nat, HoldReason vault) Storage" where
  "sample_genesis = empty_storage sample_vault"

definition sample_state :: "(nat, HoldReason vault) Storage" where
  "sample_state =
     (case sponsor sample_config 11 12 100 (Enabled FreeGeSponsored) (Until 1) sample_genesis of
        Inl _ \<Rightarrow> sample_genesis | Inr s \<Rightarrow> s)"

lemmas sample_defs = spendable_def sample_config_def sample_vault_def sample_genesis_def empty_storage_def
  lock_funds_def free_funds_def debit_def credit_def
  sponsor_def do_sponsor_def minimum_sponsorship_def validate_lease_def refresh_per_block_ledger_def
  SponsorState_default_def now_def saturating_add_def saturating_sub_def insert_expiration_def
  enqueue_auto_unlock_def try_push_def deposit_event_def Let_def

lemma sample_sponsor_ok:
  "\<not> isl (sponsor sample_config 11 12 100 (Enabled FreeGeSponsored) (Until 1) sample_genesis)"
  by (simp add: sample_defs)

lemma sample_sponsor:
  "sponsor sample_config 11 12 100 (Enabled FreeGeSponsored) (Until 1) sample_genesis = Inr sample_state"
  using sample_sponsor_ok by (auto simp: sample_state_def split: sum.splits)

lemma sample_lawful: "lawful sample_config" "clocked sample_config" "exact_caps sample_config"
  "take_off_hold_law (\<lambda>_. True) (System sample_config) (Currency sample_config)"
  using sample_laws sample_take_off_hold
  by (simp_all add: sample_config_def lawful_clocked exact_caps_def hold_currency_laws_def sample_laws [unfolded hold_currency_laws_def])

lemma sample_spendable: "spendable_law (System sample_config) (Currency sample_config)"
  by (simp add: sample_config_def sample_spendable_law)

lemma sample_reachable: "reachable sample_config sample_genesis" "reachable sample_config sample_state"
proof -
  show g: "reachable sample_config sample_genesis"
    by (rule reachable.genesis [of _ sample_vault "[]"])
      (simp_all add: sample_config_def sample_vault_def sample_genesis_def)
  show "reachable sample_config sample_state"
    by (rule reachable.step [OF g], rule pallet_step.call
        [where og = 11 and call = "CallSponsor 12 100 (Enabled FreeGeSponsored) (Until 1)"])
      (simp add: sample_sponsor)
qed

lemma sample_state_now: "now sample_config sample_state = 0"
  by (simp add: sample_state_def sample_defs)

lemma sample_record:
  "Sponsorships sample_state =
     [12 \<mapsto> \<lparr>rec_sponsor = 11, rec_amount = 100, rec_auto_unlock = Enabled FreeGeSponsored,
       rec_lease = Until 1, rec_created_at = 0\<rparr>]"
  by (simp add: sample_state_def sample_defs)

lemma sample_free: "vault_free (ext sample_state) = (\<lambda>_. 0)(11 := 898)"
  by (simp add: sample_state_def sample_defs fun_eq_iff)

lemma sample_sponsored_by:
  "sponsored_by p f sample_state =
     (if p = 11 then f \<lparr>rec_sponsor = 11, rec_amount = 100, rec_auto_unlock = Enabled FreeGeSponsored,
       rec_lease = Until 1, rec_created_at = 0\<rparr> else 0)"
  by (simp add: sponsored_by_def sample_record storage_sum_insert)

text \<open>The next block.\<close>

definition next_block :: "(nat, HoldReason vault) Storage \<Rightarrow> (nat, HoldReason vault) Storage" where
  "next_block s = s\<lparr>ext := (ext s)\<lparr>vault_clock := vault_clock (ext s) + 1\<rparr>\<rparr>"

lemma sample_fit: "balances_fit sample_config (next_block sample_state)"
  by (auto simp: balances_fit_def next_block_def sponsored_by_def [of _ _ "s\<lparr>ext := c\<rparr>" for s c]
      sponsored_by_def [symmetric] sample_sponsored_by sample_config_def sample_free)

subsection \<open>Ledgers, limits and holds\<close>

text \<open>C1. In every reachable state the ledger of a sponsor is exact: the active amount is the sum
  of the amounts of its live sponsorships and the active count is their number, although the pallet
  only ever adds and subtracts with saturation.\<close>

theorem ledger_matches_records:
  assumes "exact_caps T" and "reachable T s"
  shows "unat (active_amount (SponsorLedger s p)) = total_amount p s \<and>
    unat (active_count (SponsorLedger s p)) = total_count p s"
  using ledger.reachable_I [OF assms(2)] assms(1) by (simp add: ledger_inv_def)

theorem ledger_matches_records_witness:
  "reachable sample_config sample_state \<and>
   unat (active_amount (SponsorLedger sample_state 11)) = total_amount 11 sample_state"
  using ledger_matches_records [OF sample_lawful(3) sample_reachable(2), of 11] sample_reachable(2)
  by blast

text \<open>C2. No sponsor ever has more than the configured total amount or the configured number of
  accounts under sponsorship, counted over the live records.\<close>

theorem sponsor_caps_respected:
  assumes "exact_caps T" and "reachable T s"
  shows "total_amount p s \<le> unat (MaxTotalSponsoredPerSponsor T) \<and>
    total_count p s \<le> unat (MaxSponsoredAccountsPerSponsor T)"
  by (rule reachable_caps [OF assms])

theorem sponsor_caps_respected_witness:
  "reachable sample_config sample_state \<and> total_amount 11 sample_state \<le> 1000"
  using sponsor_caps_respected [OF sample_lawful(3) sample_reachable(2), of 11] sample_reachable(2)
  by (simp add: sample_config_def)

text \<open>The records that a sponsor created in the current block and that are still live stay within the
  limits per block.\<close>

lemma block_records_limited:
  assumes "exact_caps T" "clocked T" "reachable T s"
  shows "sponsored_by p (\<lambda>r. if rec_created_at r = now T s then unat (rec_amount r) else 0) s
      \<le> unat (MaxSponsoredAmountPerBlock T) \<and>
    sponsored_by p (\<lambda>r. if rec_created_at r = now T s then 1 else 0) s
      \<le> unat (MaxNewSponsorshipsPerBlock T)"
proof (cases "last_block (SponsorLedger s p) = now T s")
  case True
  have "within_caps T (SponsorLedger s p)"
    using caps.reachable_I [OF assms(3)] by (simp add: caps_inv_def)
  moreover have "rate_inv T s" using rate.reachable_I [OF assms(3)] assms(1,2) by simp
  ultimately show ?thesis
    using rate_inv_counters [of T s p] True
    by (auto simp: within_caps_def word_le_nat_alt)
next
  case False
  have inv: "rate_inv T s" using rate.reachable_I [OF assms(3)] assms(1,2) by simp
  then have "last_block (SponsorLedger s p) < now T s" using False by (auto simp: rate_inv_def order_less_le)
  then have "rec_created_at r < now T s" if "Sponsorships s b = Some r" "rec_sponsor r = p" for b r
    using rate_inv_created [OF inv that] by order
  then show ?thesis by (simp add: sponsored_by_later)
qed

text \<open>C3. The limits per block hold of everything a sponsor creates in a block, also of what does not live to
  the end of it: over any run of calls within one block, from any reachable state, the amounts of the
  \<^verbatim>\<open>Sponsored\<close> events of a sponsor add up to at most the configured amount per block and there are at
  most the configured number of them. Creating and unlocking in turns does not get around the limits.\<close>

theorem block_rate_limited:
  assumes "exact_caps T" "clocked T" "reachable T s" "(block_step T)\<^sup>*\<^sup>* s s'"
  shows "\<exists>es. events s' = events s @ es \<and>
    logged_amount p es \<le> unat (MaxSponsoredAmountPerBlock T) \<and>
    logged_count p es \<le> unat (MaxNewSponsorshipsPerBlock T) \<and>
    sponsored_by p (\<lambda>r. if rec_created_at r = now T s' then unat (rec_amount r) else 0) s'
      \<le> unat (MaxSponsoredAmountPerBlock T) \<and>
    sponsored_by p (\<lambda>r. if rec_created_at r = now T s' then 1 else 0) s' \<le> unat (MaxNewSponsorshipsPerBlock T)"
proof -
  have reach: "reachable T s'" by (rule block_run_reachable [OF assms(4,3)])
  from block_run_counted [OF assms(2,4)] assms(1) obtain es where es: "events s' = events s @ es"
    "block_amount T p s' = block_amount T p s + logged_amount p es"
    "block_count T p s' = block_count T p s + logged_count p es"
    by (auto simp: counted_def)
  have "within_caps T (SponsorLedger s' p)" using caps.reachable_I [OF reach] by (simp add: caps_inv_def)
  then have "block_amount T p s' \<le> unat (MaxSponsoredAmountPerBlock T)"
    "block_count T p s' \<le> unat (MaxNewSponsorshipsPerBlock T)"
    by (simp_all add: within_caps_def block_amount_def block_count_def word_le_nat_alt)
  with es block_records_limited [OF assms(1,2) reach, of p] show ?thesis by (intro exI [of _ es]) simp
qed

text \<open>Account 11 sponsors account 12 and unlocks it again within block 0; the log still counts it.\<close>

lemma sample_churn:
  obtains s where "(block_step sample_config)\<^sup>*\<^sup>* sample_genesis s" "Sponsorships s = Map.empty"
    "events s = [Sponsored 11 12 100 (Enabled FreeGeSponsored) (Until 1), Unlocked 11 12 100 Manual]"
proof -
  have u: "\<exists>s. unlock sample_config 11 12 sample_state = Inr s \<and> Sponsorships s = Map.empty \<and> now sample_config s = 0 \<and>
      events s = [Sponsored 11 12 100 (Enabled FreeGeSponsored) (Until 1), Unlocked 11 12 100 Manual]"
    by (simp add: unlock_def revoke_sponsorship_def sample_state_def sample_defs
        remove_expiration_def dequeue_auto_unlock_def)
  then obtain s where s: "unlock sample_config 11 12 sample_state = Inr s" "Sponsorships s = Map.empty"
    "now sample_config s = 0"
    "events s = [Sponsored 11 12 100 (Enabled FreeGeSponsored) (Until 1), Unlocked 11 12 100 Manual]"
    by blast
  have "now sample_config sample_genesis = 0" by (simp add: sample_defs)
  then have "block_step sample_config sample_genesis sample_state"
    using pallet_step.call [of sample_config 11 "CallSponsor 12 100 (Enabled FreeGeSponsored) (Until 1)"]
    by (simp add: block_step_def sample_sponsor sample_state_now)
  moreover have "block_step sample_config sample_state s"
    using pallet_step.call [of sample_config 11 "CallUnlock 12" sample_state s] s(1,3)
    by (simp add: block_step_def sample_state_now)
  ultimately have "(block_step sample_config)\<^sup>*\<^sup>* sample_genesis s" by simp
  with s show thesis by (intro that)
qed

theorem block_rate_limited_witness:
  "\<exists>s es. (block_step sample_config)\<^sup>*\<^sup>* sample_genesis s \<and> Sponsorships s = Map.empty \<and>
     events s = events sample_genesis @ es \<and> logged_amount 11 es = 100 \<and> logged_amount 11 es \<le> 500"
proof -
  obtain s where s: "(block_step sample_config)\<^sup>*\<^sup>* sample_genesis s" "Sponsorships s = Map.empty"
    "events s = [Sponsored 11 12 100 (Enabled FreeGeSponsored) (Until 1), Unlocked 11 12 100 Manual]"
    by (rule sample_churn)
  from block_rate_limited [OF sample_lawful(3,2) sample_reachable(1) s(1), of 11]
  obtain es where "events s = events sample_genesis @ es" "logged_amount 11 es \<le> 500"
    by (auto simp: sample_config_def)
  moreover from this(1) s(3) have "logged_amount 11 es = 100" by (auto simp: sample_genesis_def)
  ultimately show ?thesis using s by blast
qed

text \<open>C4. The currency holds exactly what the pallet's records say: for every account the amount of
  its sponsorship (nothing if it has none) under the reason \<^verbatim>\<open>Sponsorship\<close>, and for every
  sponsor one storage deposit per live sponsorship under the reason \<^verbatim>\<open>StorageDeposit\<close>.\<close>

theorem holds_match_records:
  assumes "lawful T" and "reachable T s"
  shows "unat (balance_on_hold (Currency T) (ext s) Sponsorship a) = unat (sponsored_amount a s) \<and>
    unat (balance_on_hold (Currency T) (ext s) StorageDeposit a) =
      total_count a s * unat (SponsorshipStorageDeposit T)"
proof -
  have inv: "hold_inv T s" using holds.reachable_I [OF assms(2)] assms(1) by simp
  have k: "sponsored_by a (\<lambda>r. k) s = total_count a s * k" for k
    unfolding sponsored_by_def storage_sum_def sum_distrib_right by (rule sum.cong) simp_all
  from inv have "unat (balance_on_hold (Currency T) (ext s) Sponsorship a) =
      unat (sponsored_amount a s)"
    by (auto simp: hold_inv_def sponsored_amount_def split: option.splits)
  moreover from inv have "unat (balance_on_hold (Currency T) (ext s) StorageDeposit a) =
      total_count a s * unat (SponsorshipStorageDeposit T)"
    unfolding hold_inv_def k [symmetric] by blast
  ultimately show ?thesis ..
qed

theorem holds_match_records_witness:
  "reachable sample_config sample_state \<and>
   unat (vault_held (ext sample_state) Sponsorship 12) = unat (sponsored_amount 12 sample_state)"
  using holds_match_records [OF sample_lawful(1) sample_reachable(2), of 12] sample_reachable(2)
  by (simp add: sample_config_def)

text \<open>C5. Every live sponsorship is of at least the minimum (the configured one and the existential
  deposit), its lease ends at most the maximal lease duration after the current block, and the
  storage deposit is recorded for the sponsored accounts and for no other.\<close>

theorem records_well_formed:
  assumes "clocked T" and "reachable T s"
  shows "case Sponsorships s b of
      None \<Rightarrow> StorageDepositHeld s b = 0
    | Some r \<Rightarrow> MinSponsorship T \<le> rec_amount r \<and> minimum_balance (Currency T) \<le> rec_amount r \<and>
        (case rec_lease r of LeaseNone \<Rightarrow> True
         | Until n \<Rightarrow> unat n \<le> unat (now T s) + unat (MaxLeaseDuration T)) \<and>
        StorageDepositHeld s b = SponsorshipStorageDeposit T"
  using records.reachable_I [OF assms(2)] assms(1)
  by (auto simp: record_inv_def record_ok_def minimum_sponsorship_def split: option.splits Lease.splits)

theorem records_well_formed_witness:
  "reachable sample_config sample_state \<and>
   (case Sponsorships sample_state 13 of None \<Rightarrow> StorageDepositHeld sample_state 13 = 0
    | Some r \<Rightarrow> 10 \<le> rec_amount r)"
  using records_well_formed [OF sample_lawful(2) sample_reachable(2), of 13] sample_reachable(2)
  by (simp add: sample_config_def split: option.splits)

subsection \<open>The indexes and the block hook\<close>

text \<open>C6. The expiry index is exact for the blocks to come: in every reachable state an account is
  in the bucket of a later block if and only if it has a live sponsorship whose lease ends at that
  block; a bucket holds no account twice and never more than its bound.\<close>

theorem expiry_index_exact:
  assumes "clocked T" and "reachable T s" and "now T s < n"
  shows "(b \<in> set (Expirations s n) \<longleftrightarrow>
      (\<exists>r. Sponsorships s b = Some r \<and> rec_lease r = Until n)) \<and>
    distinct (Expirations s n) \<and> length (Expirations s n) \<le> unat (MaxQueueProcessingPerBlock T)"
proof -
  have inv: "expiry_inv T s" using expiry.reachable_I [OF assms(2)] assms(1) by simp
  then show ?thesis
    using expiry_inv_bucket [OF inv, of b n] assms(3) by (auto simp: expiry_inv_def bucket_sound_def)
qed

theorem expiry_index_exact_witness:
  "reachable sample_config sample_state \<and> distinct (Expirations sample_state 1)"
  using expiry_index_exact [OF sample_lawful(2) sample_reachable(2), of 1 12] sample_reachable(2)
  by (simp add: sample_state_now)

text \<open>C7. The block hook never panics in a reachable state: \<^verbatim>\<open>on_initialize\<close> returns, the bounded
  vector it puts back always fits. Afterwards the queue is the old one without the accounts that
  no longer wait for an automatic unlock, in the same order, it names every account that does, and
  nothing but the removal of sponsorships happened to the records.\<close>

theorem on_initialize_never_panics:
  assumes "reachable T s"
  shows "\<exists>w s'. on_initialize T n s = Some (w, s') \<and>
    AutoUnlockQueue s' = filter (auto_unlockable s') (AutoUnlockQueue s) \<and>
    (\<forall>b. auto_unlockable s' b \<longrightarrow> b \<in> set (AutoUnlockQueue s')) \<and>
    (\<forall>b. Sponsorships s' b = None \<or> Sponsorships s' b = Sponsorships s b)"
proof -
  have q: "queue_inv T s" using queue.reachable_I [OF assms] .
  obtain p s1 w s2 where e: "process_expirations T n s = (p, s1)" and q1: "queue_inv T s1"
    and rm: "only_removes (set (AutoUnlockQueue s1)) s1 s2"
    and i: "on_initialize T n s = Some (w,
      s2\<lparr>AutoUnlockQueue := filter (auto_unlockable s2) (AutoUnlockQueue s1)\<rparr>)"
    using on_initialize_run [OF q, of n] by metis
  let ?s' = "s2\<lparr>AutoUnlockQueue := filter (auto_unlockable s2) (AutoUnlockQueue s1)\<rparr>"
  have s': "auto_unlockable ?s' = auto_unlockable s2" by (simp add: auto_unlockable_def fun_eq_iff)
  from process_expirations_queue [OF e] obtain P where P: "AutoUnlockQueue s1 = filter P (AutoUnlockQueue s)"
    and P': "\<And>b. \<not> P b \<Longrightarrow> Sponsorships s1 b = None" and rm0: "only_removes UNIV s s1"
    by blast
  have "filter (auto_unlockable s2) (AutoUnlockQueue s1) = filter (auto_unlockable s2) (AutoUnlockQueue s)"
    unfolding P filter_filter
  proof (intro filter_cong refl)
    show "(P x \<and> auto_unlockable s2 x) = auto_unlockable s2 x" for x
      using rm [unfolded only_removes_def, rule_format, of x] P' [of x]
      by (cases "P x") (auto simp: auto_unlockable_def)
  qed
  moreover have "\<forall>b. auto_unlockable s2 b \<longrightarrow> b \<in> set (AutoUnlockQueue ?s')"
    using queue_inv_hook [OF q1 rm] by (simp add: queue_inv_def s')
  moreover have "\<forall>b. Sponsorships s2 b = None \<or> Sponsorships s2 b = Sponsorships s b"
    using rm rm0 unfolding only_removes_def by metis
  ultimately show ?thesis using i s' by auto
qed

theorem on_initialize_never_panics_witness:
  "reachable sample_config sample_state \<and> on_initialize sample_config 1 sample_state \<noteq> None"
  using on_initialize_never_panics [OF sample_reachable(2), of 1] sample_reachable(2) by auto

text \<open>C8. Leases end: when the block hook has run at block \<open>n\<close>, no sponsorship with a lease until
  \<open>n\<close> is left, for every reachable storage whose funds, free and under sponsorship, fit in the
  balance type and are not frozen.\<close>

theorem expiring_leases_end:
  assumes law: "take_off_hold_law sound (System T) (Currency T)" "lawful T" and reach: "reachable T s"
    and sound: "sound c"
    and c: "unat (block_number (System T) c) = unat (now T s) + 1" "same_holds T (ext s) c"
    and fit: "balances_fit T (s\<lparr>ext := c\<rparr>)"
    and run: "on_initialize T (block_number (System T) c) (s\<lparr>ext := c\<rparr>) = Some (w, s')"
  shows "\<forall>b. map_option rec_lease (Sponsorships s' b) \<noteq> Some (Until (block_number (System T) c))"
proof
  fix b
  let ?n = "block_number (System T) c" and ?s = "s\<lparr>ext := c\<rparr>"
  have inv: "expiry_inv T s" "queue_inv T ?s"
    using expiry.reachable_I [OF reach] queue.reachable_I [OF reach] lawful_clocked [OF law(2)] by simp_all
  have ready: "release_ready sound T ?s"
    by (rule reachable_release_ready [where sound = sound, OF law(2) reach sound c(2) fit])
  obtain p s1 s2 q where e: "process_expirations T ?n ?s = (p, s1)"
    and rm: "only_removes (set (AutoUnlockQueue s1)) s1 s2" and s': "s' = s2\<lparr>AutoUnlockQueue := q\<rparr>"
    using on_initialize_run [OF inv(2), of ?n] run by (metis Pair_inject option.inject)
  have loop: "s1 = expire_loop T ?n (Expirations s ?n) (?s\<lparr>Expirations := (Expirations s)(?n := [])\<rparr>)"
    using e by (simp add: process_expirations_def Let_def)
  have "map_option rec_lease (Sponsorships s1 b) \<noteq> Some (Until ?n)"
  proof (cases "b \<in> set (Expirations s ?n)")
    case True
    with expire_loop_ends [OF law, of "?s\<lparr>Expirations := (Expirations s)(?n := [])\<rparr>"] ready
    show ?thesis by (simp add: loop)
  next
    case False
    with inv(1) c(1) have "map_option rec_lease (Sponsorships s b) \<noteq> Some (Until ?n)"
      by (auto simp: expiry_inv_def word_less_nat_alt)
    moreover have "Sponsorships s1 b = Sponsorships s b"
      unfolding loop by (subst only_removes_other [OF expire_loop_only_removes False]) simp
    ultimately show ?thesis by simp
  qed
  then show "map_option rec_lease (Sponsorships s' b) \<noteq> Some (Until ?n)"
    using rm [unfolded only_removes_def, rule_format, of b] by (auto simp: s')
qed

theorem expiring_leases_end_witness:
  "\<exists>w s'. Sponsorships sample_state 12 \<noteq> None \<and>
     on_initialize sample_config 1 (next_block sample_state) = Some (w, s') \<and>
     map_option rec_lease (Sponsorships s' 12) \<noteq> Some (Until 1)"
proof -
  let ?c = "(ext sample_state)\<lparr>vault_clock := vault_clock (ext sample_state) + 1\<rparr>"
  have n: "vault_clock (ext sample_state) = 0"
    using sample_state_now by (simp add: now_def sample_config_def)
  have "queue_inv sample_config (next_block sample_state)"
    using queue.reachable_I [OF sample_reachable(2)] by (simp add: next_block_def)
  then obtain w s' where r: "on_initialize sample_config 1 (next_block sample_state) = Some (w, s')"
    by (rule on_initialize_run [where nw = 1])
  have "map_option rec_lease (Sponsorships s' 12) \<noteq> Some (Until (block_number (System sample_config) ?c))"
    using expiring_leases_end [OF sample_lawful(4,1) sample_reachable(2), of ?c w s'] r sample_fit n
    by (simp add: sample_config_def next_block_def same_holds_def now_def)
  with r show ?thesis by (auto simp: sample_record sample_config_def n)
qed

subsection \<open>Who can change a sponsorship\<close>



text \<open>C10. Sponsoring and unlocking is a round trip: as long as the funds are not frozen, the sponsor of an
  accepted sponsorship of another account can unlock it at once, and afterwards the sponsor's balance, every hold, the records, the
  storage deposits, the expiry index, the queue and the active totals are what they were.\<close>

theorem sponsor_unlock_round_trip:
  assumes law: "take_off_hold_law sound (System T) (Currency T)" "lawful T" "exact_caps T"
    and reach: "reachable T s" and sound: "sound (ext s)"
    and og: "ensure_signed (System T) og = Some spo" "spo \<noteq> b"
    and run: "sponsor T og b amount au l s = Inr s1"
  shows "\<exists>s2. unlock T og b s1 = Inr s2 \<and>
    balance (Currency T) (ext s2) spo = balance (Currency T) (ext s) spo \<and>
    balance_on_hold (Currency T) (ext s2) = balance_on_hold (Currency T) (ext s) \<and>
    Sponsorships s2 = Sponsorships s \<and> StorageDepositHeld s2 = StorageDepositHeld s \<and>
    Expirations s2 = Expirations s \<and> AutoUnlockQueue s2 = AutoUnlockQueue s \<and>
    (\<forall>p. active_amount (SponsorLedger s2 p) = active_amount (SponsorLedger s p) \<and>
         active_count (SponsorLedger s2 p) = active_count (SponsorLedger s p))"
proof -
  have do: "do_sponsor T spo b amount au l True s = Inr s1"
    using run og(1) by (simp add: sponsor_def)
  from sponsor_revoke_inverse [OF law do og(2) sound] holds.reachable_I [OF reach] expiry.reachable_I [OF reach]
    queue.reachable_I [OF reach] law(2) lawful_clocked [OF law(2)]
  obtain r s2 where "revoke_sponsorship T b s1 = Inr (r, s2)" "rec_sponsor r = spo"
    and "restored T spo s s2" by auto
  then show ?thesis
    using og(1) by (intro exI [of _ "deposit_event (Unlocked (rec_sponsor r) b (rec_amount r) Manual) s2"])
      (auto simp: unlock_Inr restored_def)
qed

theorem sponsor_unlock_round_trip_witness:
  "\<exists>s2. unlock sample_config 11 12 sample_state = Inr s2 \<and>
     vault_free (ext s2) 11 = 1000 \<and> Sponsorships s2 = Map.empty \<and> AutoUnlockQueue s2 = []"
proof -
  have "ensure_signed (System sample_config) 11 = Some 11" by (simp add: sample_config_def)
  from sponsor_unlock_round_trip [OF sample_lawful(4,1,3) sample_reachable(1) _ this _ sample_sponsor]
  obtain s2 where s2: "unlock sample_config 11 12 sample_state = Inr s2"
    "balance (Currency sample_config) (ext s2) 11 = balance (Currency sample_config) (ext sample_genesis) 11"
    "Sponsorships s2 = Sponsorships sample_genesis" "AutoUnlockQueue s2 = AutoUnlockQueue sample_genesis"
    by auto
  then show ?thesis
    by (intro exI [of _ s2]) (simp add: sample_config_def sample_genesis_def sample_vault_def)
qed

subsection \<open>What is refused\<close>

text \<open>The checks of a new sponsorship in the order of the code, before the currency is asked.\<close>

definition sponsor_checks ::
  "('a, 'c, 'o, 'w) Config \<Rightarrow> 'a \<Rightarrow> 'a \<Rightarrow> Balance \<Rightarrow> Lease \<Rightarrow> ('a, 'c) Storage \<Rightarrow> (bool \<times> Error) list" where
  "sponsor_checks T spo b amount l s =
     (let ledger = charged_ledger T amount spo s; total = saturating_add amount (SponsorshipStorageDeposit T) in
      [(Sponsorships s b = None, AlreadySponsored),
       (minimum_sponsorship T \<le> amount, AmountTooLow),
       (case l of LeaseNone \<Rightarrow> True | Until n \<Rightarrow> now T s \<le> n, LeaseInPast),
       (case l of LeaseNone \<Rightarrow> True | Until n \<Rightarrow> saturating_sub n (now T s) \<le> MaxLeaseDuration T,
        LeaseTooLong),
       (active_amount ledger \<le> MaxTotalSponsoredPerSponsor T, SponsorCapExceeded),
       (active_count ledger \<le> MaxSponsoredAccountsPerSponsor T, SponsorCountCapExceeded),
       (sponsored_amount_in_block ledger \<le> MaxSponsoredAmountPerBlock T, SponsorPerBlockCapExceeded),
       (new_sponsorships_in_block ledger \<le> MaxNewSponsorshipsPerBlock T, SponsorPerBlockCountExceeded),
       (total \<le> reducible_balance (Currency T) (ext s) spo Preserve Polite, SponsorMinRemainingViolation),
       (SponsorMinRemaining T \<le> saturating_sub (balance (Currency T) (ext s) spo) total,
        SponsorMinRemainingViolation)])"

lemma find_check_Cons:
  "(\<not> ok \<Longrightarrow> Q e) \<Longrightarrow> (ok \<Longrightarrow> (case find (\<lambda>(ok, _). \<not> ok) xs of None \<Rightarrow> P | Some (_, e) \<Rightarrow> Q e)) \<Longrightarrow>
   (case find (\<lambda>(ok, _). \<not> ok) ((ok, e) # xs) of None \<Rightarrow> P | Some (_, e) \<Rightarrow> Q e)"
  by auto

lemma validate_lease_then:
  "and_then (validate_lease T l nw) f =
     (if case l of LeaseNone \<Rightarrow> True | Until n \<Rightarrow> nw \<le> n then
        if case l of LeaseNone \<Rightarrow> True | Until n \<Rightarrow> saturating_sub n nw \<le> MaxLeaseDuration T then f ()
        else Inl (Module LeaseTooLong)
      else Inl (Module LeaseInPast))"
  by (auto simp: validate_lease_def ensure_def split: Lease.splits)

lemma charged_refreshed:
  "active_amount (charged_ledger T amount spo s) =
     saturating_add (active_amount (refresh_per_block_ledger (SponsorLedger s spo) (now T s))) amount"
  "active_count (charged_ledger T amount spo s) =
     saturating_add (active_count (refresh_per_block_ledger (SponsorLedger s spo) (now T s))) 1"
  "sponsored_amount_in_block (charged_ledger T amount spo s) =
     saturating_add (sponsored_amount_in_block
       (refresh_per_block_ledger (SponsorLedger s spo) (now T s))) amount"
  "new_sponsorships_in_block (charged_ledger T amount spo s) =
     saturating_add (new_sponsorships_in_block
       (refresh_per_block_ledger (SponsorLedger s spo) (now T s))) 1"
  by (simp_all add: charged_ledger_def Let_def del: ledger_fields)

text \<open>C11. A sponsorship that is refused is refused with the error of the first check that fails, in
  the order of the code; when every check passes only the hold, the transfer, the storage deposit or
  a full index can still refuse it.\<close>

theorem sponsor_first_error:
  "case find (\<lambda>(ok, _). \<not> ok) (sponsor_checks T spo b amount l s) of
     Some (_, e) \<Rightarrow> do_sponsor T spo b amount au l em s = Inl (Module e)
   | None \<Rightarrow> {e. do_sponsor T spo b amount au l em s = Inl e} \<subseteq>
       Module ` {HoldUnavailable, CannotTransferAndHold, StorageDepositFailed, QueueFull}"
  unfolding sponsor_checks_def Let_def charged_refreshed
  apply (intro find_check_Cons)
            apply (simp_all only: do_sponsor_def validate_lease_then Let_def if_True if_False simp_thms
      ensure_True ensure_False and_then_simps)
  apply (simp add: ensure_def insert_expiration_Inl enqueue_auto_unlock_Inl result_simps split: if_splits)
  by blast

subsection \<open>Leases that never end\<close>

text \<open>C12. A lease until the current block is accepted and never ends. Whenever a sponsorship without a lease
  would be accepted, and the bucket of the current block has room, the same sponsorship with a lease until the current block is
  accepted; and over every later run of the chain, through any number of blocks, its record stays as it is unless the
  sponsor, the force origin or another pallet ends or changes it or an automatic unlock becomes due.
  The lease itself ends it in no block: the bucket it is in was taken when the block began.\<close>

theorem lease_until_now_never_expires:
  assumes "clocked T" and "ensure_signed (System T) og = Some spo"
    and "sponsor T og b amount au LeaseNone s = Inr s0"
    and "length (Expirations s (now T s)) < unat (MaxQueueProcessingPerBlock T)"
  shows "\<exists>s1. sponsor T og b amount au (Until (now T s)) s = Inr s1 \<and>
    (\<forall>s2. (unattended T b)\<^sup>*\<^sup>* s1 s2 \<longrightarrow> Sponsorships s2 b =
       Some \<lparr>rec_sponsor = spo, rec_amount = amount, rec_auto_unlock = au, rec_lease = Until (now T s),
         rec_created_at = now T s\<rparr>)"
proof -
  let ?l = "Until (now T s)"
  let ?r = "\<lparr>rec_sponsor = spo, rec_amount = amount, rec_auto_unlock = au, rec_lease = ?l, rec_created_at = now T s\<rparr>"
  from assms(2,3) obtain c where g: "Sponsorships s b = None" "minimum_sponsorship T \<le> amount"
      "within_caps T (charged_ledger T amount spo s)" "sponsor_can_pay T spo amount s"
      "queue_room T b au (AutoUnlockQueue s)" and c: "sponsor_moves T spo b amount (ext s) c"
    by (auto simp: sponsor_def do_sponsor_Inr)
  have "validate_lease T ?l (now T s) = Inr ()" by (simp add: validate_lease_Inr)
  moreover have "lease_room T b ?l (Expirations s)" using assms(4) by (simp add: lease_room_def has_room_def)
  ultimately have run: "do_sponsor T spo b amount au ?l True s =
      Inr (emit True (Sponsored spo b amount au ?l) (sponsored_state T spo b amount au ?l c s))" (is "_ = Inr ?s1")
    using g c by (intro do_sponsor_success)
  have "Sponsorships ?s1 b = Some ?r" "now T ?s1 = now T s"
    using sponsor_moves_clock [OF assms(1) c] by (simp_all add: sponsored_state_def now_def)
  then have "Sponsorships s2 b = Some ?r" if "(unattended T b)\<^sup>*\<^sup>* ?s1 s2" for s2
    using unattended_run_keeps [OF that assms(1), of ?r] by simp
  with run assms(2) show ?thesis by (auto simp: sponsor_def)
qed

lemma sample_next_block:
  assumes "reachable sample_config s" "now sample_config s = 0"
  obtains s' where "pallet_step sample_config s s'" "begins_block sample_config (ext (next_block s)) s s'"
    "now sample_config s' = 1" "block_number (System sample_config) (ext (next_block s)) = 1"
proof -
  have n: "block_number (System sample_config) (ext (next_block s)) = 1"
    using assms(2) by (simp add: now_def next_block_def sample_config_def)
  have e: "s\<lparr>ext := ext (next_block s)\<rparr> = next_block s" by (simp add: next_block_def)
  have "queue_inv sample_config (next_block s)"
    using queue.reachable_I [OF assms(1)] by (simp add: next_block_def)
  then obtain w s' where r: "on_initialize sample_config 1 (next_block s) = Some (w, s')"
    by (rule on_initialize_run [where nw = 1])
  have "pallet_step sample_config s s'"
    by (rule pallet_step.new_block [where c = "ext (next_block s)" and w = w])
      (simp_all only: n e r assms(2), simp_all add: same_holds_def next_block_def sample_config_def)
  moreover have "begins_block sample_config (ext (next_block s)) s s'"
    unfolding begins_block_def n e using r by (auto simp: assms(2))
  moreover have "now sample_config s' = 1"
    using hook_path_clock [OF sample_lawful(2) on_initialize_path [OF r]] n by (simp add: now_def)
  ultimately show thesis using n by (intro that)
qed

text \<open>Account 11 sponsors account 12 in block 0 with a lease until block 0, and block 1 begins.\<close>

theorem lease_until_now_never_expires_witness:
  "\<exists>s1 s2. sponsor sample_config 11 12 100 Disabled (Until 0) sample_genesis = Inr s1 \<and>
     (unattended sample_config 12)\<^sup>*\<^sup>* s1 s2 \<and> unat (now sample_config s2) = 1 \<and>
     map_option rec_lease (Sponsorships s2 12) = Some (Until 0)"
proof -
  have n: "now sample_config sample_genesis = 0" by (simp add: sample_defs)
  have "\<not> isl (sponsor sample_config 11 12 100 Disabled LeaseNone sample_genesis)" by (simp add: sample_defs)
  then obtain s0 where s0: "sponsor sample_config 11 12 100 Disabled LeaseNone sample_genesis = Inr s0"
    by (cases "sponsor sample_config 11 12 100 Disabled LeaseNone sample_genesis") auto
  have signed: "ensure_signed (System sample_config) 11 = Some 11" by (simp add: sample_config_def)
  have room: "length (Expirations sample_genesis (now sample_config sample_genesis)) <
      unat (MaxQueueProcessingPerBlock sample_config)" by (simp add: sample_genesis_def sample_config_def)
  from lease_until_now_never_expires [OF sample_lawful(2) signed s0 room] obtain s1 where
    s1: "sponsor sample_config 11 12 100 Disabled (Until 0) sample_genesis = Inr s1"
    and stays: "\<And>s2. (unattended sample_config 12)\<^sup>*\<^sup>* s1 s2 \<Longrightarrow> Sponsorships s2 12 =
       Some \<lparr>rec_sponsor = 11, rec_amount = 100, rec_auto_unlock = Disabled, rec_lease = Until 0, rec_created_at = 0\<rparr>"
    unfolding n by auto
  let ?r = "\<lparr>rec_sponsor = 11, rec_amount = 100, rec_auto_unlock = Disabled, rec_lease = Until 0, rec_created_at = 0\<rparr>"
  have "pallet_step sample_config sample_genesis s1"
    using pallet_step.call [of sample_config 11 "CallSponsor 12 100 Disabled (Until 0)"] s1 by simp
  then have "reachable sample_config s1" by (rule reachable.step [OF sample_reachable(1)])
  moreover have "now sample_config s1 = 0"
    using counted_dispatch [OF sample_lawful(2), of 11 "CallSponsor 12 100 Disabled (Until 0)"] s1 n
    by (simp add: counted_def)
  ultimately obtain s2 where s2: "pallet_step sample_config s1 s2" "now sample_config s2 = 1"
    and block: "begins_block sample_config (ext (next_block s1)) s1 s2"
      "block_number (System sample_config) (ext (next_block s1)) = 1"
    by (rule sample_next_block)
  have "Sponsorships s1 12 = Some ?r" using stays [of s1] by simp
  moreover have "Sponsorships s2 12 = Some ?r"
  proof (rule ccontr)
    assume "Sponsorships s2 12 \<noteq> Some ?r"
    from hook_changes [OF block(1) \<open>Sponsorships s1 12 = Some ?r\<close> this] show False
      using s2(2) by (auto simp: unlocked_by_hook_def expired_by_hook_def auto_unlock_due_def begins_block_def
          \<open>now sample_config s1 = 0\<close>)
  qed
  ultimately have "unattended sample_config 12 s1 s2" using s2(1) by (simp add: unattended_def)
  then have run: "(unattended sample_config 12)\<^sup>*\<^sup>* s1 s2" by simp
  with s1 s2(2) stays [OF run] show ?thesis by (intro exI [of _ s1] exI [of _ s2] conjI) simp_all
qed

subsection \<open>The event log and the provider interface\<close>

text \<open>C13. The event log is complete: over any run of the chain the sponsorships (sponsor, amount,
  unlock mode and lease of every account) are what an observer gets by replaying the events the
  pallet deposited during the run, in order, on top of the sponsorships the run started with.\<close>

theorem event_log_complete:
  assumes "(pallet_step T)\<^sup>*\<^sup>* s0 s"
  shows "\<exists>es. events s = events s0 @ es \<and> observe s = foldl apply_event (observe s0) es"
  using assms
proof (induction rule: rtranclp_induct)
  case (step s s')
  from logged_trans [OF step.IH [folded logged_def] logged_step [OF step(2)]] show ?case
    by (simp add: logged_def)
qed simp

theorem event_log_complete_witness:
  "\<exists>es. events sample_state = events sample_genesis @ es \<and>
     observe sample_state = foldl apply_event (observe sample_genesis) es"
proof (rule event_log_complete [of sample_config])
  have "pallet_step sample_config sample_genesis sample_state"
    by (rule pallet_step.call
        [where og = 11 and call = "CallSponsor 12 100 (Enabled FreeGeSponsored) (Until 1)"])
      (simp add: sample_sponsor)
  then show "(pallet_step sample_config)\<^sup>*\<^sup>* sample_genesis sample_state" ..
qed

text \<open>C14. Automatic unlocks happen: when the unlock condition of a sponsorship is met at the start of a block,
  be it on the free or on the spendable balance, the block hook of that block ends the sponsorship, and
  nothing of it stays on hold. No unlock that is due waits for a later block, however many sponsorships end
  before it in the same hook, as long as the funds fit in the balance type and are not frozen.\<close>

theorem due_unlocks_happen:
  assumes law: "take_off_hold_law sound (System T) (Currency T)" "lawful T" "spendable_law (System T) (Currency T)"
    and reach: "reachable T s" and sound: "sound c"
    and c: "unat (block_number (System T) c) = unat (now T s) + 1" "same_holds T (ext s) c"
    and fit: "balances_fit T (s\<lparr>ext := c\<rparr>)"
    and run: "on_initialize T (block_number (System T) c) (s\<lparr>ext := c\<rparr>) = Some (w, s')"
    and b: "Sponsorships s b = Some r" "rec_auto_unlock r = Enabled cond"
    and met: "auto_unlock_condition_met T b (rec_amount r) cond (s\<lparr>ext := c\<rparr>)"
  shows "Sponsorships s' b = None \<and> balance_on_hold (Currency T) (ext s') Sponsorship b = 0"
proof -
  let ?n = "block_number (System T) c" and ?s = "s\<lparr>ext := c\<rparr>"
  have queue: "queue_inv T ?s" using queue.reachable_I [OF reach] by simp
  have rdy: "release_ready sound T ?s" by (rule reachable_release_ready [where sound = sound, OF law(2) reach sound c(2) fit])
  then have min: "minimum_balance (Currency T) \<le> rec_amount r" using b(1) by (simp add: release_ready_def)
  have wait: "waiting T b r ?s" using b met by (simp add: waiting_def auto_unlock_due_def)
  obtain p s1 where e: "process_expirations T ?n ?s = (p, s1)" by fastforce
  let ?s0 = "?s\<lparr>Expirations := (Expirations s)(?n := [])\<rparr>"
  have s1: "s1 = expire_loop T ?n (Expirations s ?n) ?s0" using e by (simp add: process_expirations_def Let_def)
  have "release_ready sound T s1" "waiting T b r s1"
    unfolding s1 using ready.expire_loop_preserves [where T = T and sound = sound and s = ?s0]
      due.expire_loop_preserves [where T = T and b = b and r = r and s = ?s0]
      rdy wait law min by simp_all
  moreover from e run obtain q where "process_auto_unlock_queue T s1 = Some (q, s')"
    by (auto simp: on_initialize_def split: option.splits)
  ultimately have gone: "Sponsorships s' b = None"
    by (rule process_auto_unlock_queue_ends [OF law min queue_inv_expirations [OF queue e]])
  have "reachable T s'" by (rule reachable.step [OF reach pallet_step.new_block [OF c run]])
  then have "hold_inv T s'" using holds.reachable_I law(2) by blast
  with gone show ?thesis by (simp add: hold_inv_def word_unat_eq_iff)
qed

text \<open>Account 11 sponsors account 12 without a lease, and account 12 earns more than the sponsored amount
  before the next block.\<close>

definition open_state :: "(nat, HoldReason vault) Storage" where
  "open_state =
     (case sponsor sample_config 11 12 100 (Enabled FreeGeSponsored) LeaseNone sample_genesis of
        Inl _ \<Rightarrow> sample_genesis | Inr s \<Rightarrow> s)"

definition earned :: "HoldReason vault" where
  "earned = (ext open_state)\<lparr>vault_clock := 1, vault_free := (vault_free (ext open_state))(12 := 150)\<rparr>"

lemma open_state_run:
  "sponsor sample_config 11 12 100 (Enabled FreeGeSponsored) LeaseNone sample_genesis = Inr open_state"
  "Sponsorships open_state = [12 \<mapsto> \<lparr>rec_sponsor = 11, rec_amount = 100, rec_auto_unlock = Enabled FreeGeSponsored,
     rec_lease = LeaseNone, rec_created_at = 0\<rparr>]"
  "now sample_config open_state = 0" "vault_free (ext open_state) = (\<lambda>_. 0)(11 := 898)"
  by (simp_all add: open_state_def sample_defs fun_eq_iff)

lemma open_state_reachable: "reachable sample_config open_state"
  by (rule reachable.step [OF sample_reachable(1)], rule pallet_step.call
      [where og = 11 and call = "CallSponsor 12 100 (Enabled FreeGeSponsored) LeaseNone"])
    (simp add: open_state_run(1))

lemma open_state_fit: "balances_fit sample_config (open_state\<lparr>ext := earned\<rparr>)"
  by (auto simp: balances_fit_def sponsored_by_def open_state_run storage_sum_insert sample_config_def earned_def)

theorem due_unlocks_happen_witness:
  "\<exists>w s'. on_initialize sample_config 1 (open_state\<lparr>ext := earned\<rparr>) = Some (w, s') \<and>
     Sponsorships open_state 12 \<noteq> None \<and> Sponsorships s' 12 = None"
proof -
  have "queue_inv sample_config (open_state\<lparr>ext := earned\<rparr>)"
    using queue.reachable_I [OF open_state_reachable] by simp
  then obtain w s' where r: "on_initialize sample_config 1 (open_state\<lparr>ext := earned\<rparr>) = Some (w, s')"
    by (rule on_initialize_run [where nw = 1])
  from due_unlocks_happen [OF sample_lawful(4,1) sample_spendable open_state_reachable _ _ _ open_state_fit, of w s' 12]
    r open_state_run
  have "Sponsorships s' 12 = None"
    by (simp add: sample_config_def same_holds_def earned_def auto_unlock_condition_met_def)
  with r show ?thesis by (auto simp: open_state_run)
qed



end
