(* ===== verification/GasPayment.thy ===== *)
theory GasPayment
  imports Frame_Interface
begin

text \<open>
  \<^verbatim>\<open>pallet-gas-transaction-payment\<close> (\<^verbatim>\<open>src/lib.rs\<close>): the trait \<^verbatim>\<open>PrepaidFee\<close> and the
  fee handler \<^verbatim>\<open>PrepaidFeeAdapter<F, P, OU>\<close>, the implementation of
  \<^verbatim>\<open>OnChargeTransaction\<close> that takes a transaction fee from prepaid credit when it covers the
  inclusion fee and from the native balance otherwise.

  The trait is the record \<open>PrepaidFee\<close> over a storage \<open>'p\<close>, as the adapter is generic in it; the
  type parameters of the adapter are the record \<open>Adapter\<close> (\<open>Fung\<close> is \<^verbatim>\<open>F\<close>, \<open>Prep\<close> is
  \<^verbatim>\<open>P\<close>). The state is the currency's storage,
  the storage behind \<^verbatim>\<open>P\<close>, the credits handed to \<^verbatim>\<open>OU\<close> in order (what it does with them is
  not part of the adapter) and the events of the pallet. None of these functions runs in a storage
  transaction, so each returns its result together with the state it leaves, errors included.
\<close>

datatype InvalidTransaction = Payment

datatype TransactionValidityError = Invalid InvalidTransaction

record ('a, 'p) PrepaidFee =
  fee_account :: 'a
  fee_credit_of :: "'a \<Rightarrow> 'p \<Rightarrow> u128"
  fee_withdraw_credit :: "'a \<Rightarrow> u128 \<Rightarrow> 'p \<Rightarrow> TransactionValidityError + 'p"
  fee_refund_credit :: "'a \<Rightarrow> u128 \<Rightarrow> 'p \<Rightarrow> TransactionValidityError + 'p"

datatype ('a, 'cr) LiquidityInfo =
    Native 'a "'cr option" "'cr option"
  | Prepaid 'a u128 'cr "'cr option"
  | NoCharge

definition LiquidityInfo_default :: "('a, 'cr) LiquidityInfo" where
  "LiquidityInfo_default = NoCharge"

datatype 'a GasEvent = PrepaidFeePaid 'a u128 u128 u128

record ('a, 'c, 'p, 'cr, 'o) Adapter =
  Sys :: "('a, 'c, 'o) frame_system"
  Fung :: "('a, 'c, 'cr) balanced"
  Prep :: "('a, 'p) PrepaidFee"

record ('a, 'c, 'p, 'cr) PayState =
  currency :: 'c
  prepaid :: 'p
  handed :: "'cr list"
  gas_events :: "'a GasEvent list"

definition on_unbalanceds ::
  "'cr list \<Rightarrow> ('a, 'c, 'p, 'cr) PayState \<Rightarrow> ('a, 'c, 'p, 'cr) PayState" where
  "on_unbalanceds cs st = st\<lparr>handed := handed st @ cs\<rparr>"

definition drop_value ::
  "('a, 'c, 'p, 'cr, 'o) Adapter \<Rightarrow> 'cr \<Rightarrow> ('a, 'c, 'p, 'cr) PayState \<Rightarrow> ('a, 'c, 'p, 'cr) PayState" where
  "drop_value A cr st = st\<lparr>currency := drop_credit (Fung A) cr (currency st)\<rparr>"

fun option_list :: "'x option \<Rightarrow> 'x list" where
  "option_list None = []"
| "option_list (Some x) = [x]"

subsection \<open>Native fees\<close>

definition can_withdraw_native ::
  "('a, 'c, 'p, 'cr, 'o) Adapter \<Rightarrow> 'a \<Rightarrow> u128 \<Rightarrow> ('a, 'c, 'p, 'cr) PayState \<Rightarrow>
   TransactionValidityError + unit" where
  "can_withdraw_native A who amount st =
     (if amount = 0 then Inr ()
      else if can_withdraw (Fung A) (currency st) who amount then Inr ()
      else Inl (Invalid Payment))"

definition withdraw_tip ::
  "('a, 'c, 'p, 'cr, 'o) Adapter \<Rightarrow> 'a \<Rightarrow> u128 \<Rightarrow> ('a, 'c, 'p, 'cr) PayState \<Rightarrow>
   TransactionValidityError + unit" where
  "withdraw_tip A who tip st = can_withdraw_native A who tip st"

definition native_credit ::
  "('a, 'c, 'p, 'cr, 'o) Adapter \<Rightarrow> 'a \<Rightarrow> u128 \<Rightarrow> ('a, 'c, 'p, 'cr) PayState \<Rightarrow>
   (TransactionValidityError + 'cr option) \<times> ('a, 'c, 'p, 'cr) PayState" where
  "native_credit A who amount st =
     (if amount = 0 then (Inr None, st)
      else case withdraw (Fung A) who amount Exact Preserve Polite (currency st) of
          None \<Rightarrow> (Inl (Invalid Payment), st)
        | Some (cr, c) \<Rightarrow> (Inr (Some cr), st\<lparr>currency := c\<rparr>))"

definition refund_native_fee ::
  "('a, 'c, 'p, 'cr, 'o) Adapter \<Rightarrow> 'a \<Rightarrow> 'cr \<Rightarrow> 'cr \<Rightarrow> ('a, 'c, 'p, 'cr) PayState \<Rightarrow>
   'cr \<times> ('a, 'c, 'p, 'cr) PayState" where
  "refund_native_fee A who paid_fee refund_credit st =
     (if peek (Fung A) refund_credit = 0 then (paid_fee, drop_value A refund_credit st)
      else if account_exists (Sys A) (currency st) who then
        (case resolve (Fung A) who refund_credit (currency st) of
           Inl not_refunded \<Rightarrow> (subsume (Fung A) paid_fee not_refunded, st)
         | Inr c \<Rightarrow> (paid_fee, st\<lparr>currency := c\<rparr>))
      else (subsume (Fung A) paid_fee refund_credit, st))"

definition settle_native_fee ::
  "('a, 'c, 'p, 'cr, 'o) Adapter \<Rightarrow> 'a \<Rightarrow> 'cr option \<Rightarrow> u128 \<Rightarrow> 'cr option \<Rightarrow>
   ('a, 'c, 'p, 'cr) PayState \<Rightarrow> ('a, 'c, 'p, 'cr) PayState" where
  "settle_native_fee A who fee_credit corrected_fee tip_credit st =
     (case fee_credit of
        Some cr \<Rightarrow>
          (let (paid_fee, refund_credit) = split_credit (Fung A) cr corrected_fee;
               (paid_fee', st1) = refund_native_fee A who paid_fee refund_credit st in
           on_unbalanceds (paid_fee' # option_list tip_credit) st1)
      | None \<Rightarrow> on_unbalanceds (option_list tip_credit) st)"

subsection \<open>Prepaid fees\<close>

definition settle_prepaid_fee ::
  "('a, 'c, 'p, 'cr, 'o) Adapter \<Rightarrow> 'a \<Rightarrow> 'cr \<Rightarrow> u128 \<Rightarrow> u128 \<Rightarrow> ('a, 'c, 'p, 'cr) PayState \<Rightarrow>
   (TransactionValidityError + unit) \<times> ('a, 'c, 'p, 'cr) PayState" where
  "settle_prepaid_fee A who fee_credit paid_inclusion_fee corrected_fee st =
     (let fee_to_keep = min corrected_fee paid_inclusion_fee;
          (paid_fee, refund_credit) = split_credit (Fung A) fee_credit fee_to_keep;
          refund = peek (Fung A) refund_credit in
      if refund \<noteq> 0 then
        (case resolve (Fung A) (fee_account (Prep A)) refund_credit (currency st) of
           Inr c \<Rightarrow>
             (let st1 = st\<lparr>currency := c\<rparr> in
              case fee_refund_credit (Prep A) who refund (prepaid st1) of
                Inl e \<Rightarrow> (Inl e, drop_value A paid_fee st1)
              | Inr p \<Rightarrow> (Inr (), on_unbalanceds [paid_fee] (st1\<lparr>prepaid := p\<rparr>)))
         | Inl not_refunded \<Rightarrow>
             (Inr (), on_unbalanceds [subsume (Fung A) paid_fee not_refunded] st))
      else (Inr (), on_unbalanceds [paid_fee] (drop_value A refund_credit st)))"

subsection \<open>OnChargeTransaction\<close>

definition withdraw_fee ::
  "('a, 'c, 'p, 'cr, 'o) Adapter \<Rightarrow> 'a \<Rightarrow> u128 \<Rightarrow> u128 \<Rightarrow> ('a, 'c, 'p, 'cr) PayState \<Rightarrow>
   (TransactionValidityError + ('a, 'cr) LiquidityInfo) \<times> ('a, 'c, 'p, 'cr) PayState" where
  "withdraw_fee A who fee_with_tip tip st =
     (if fee_with_tip = 0 then (Inr NoCharge, st)
      else
        let inclusion_fee = saturating_sub fee_with_tip tip in
        if inclusion_fee \<noteq> 0 \<and> inclusion_fee \<le> fee_credit_of (Prep A) who (prepaid st) then
          case withdraw_tip A who tip st of
            Inl e \<Rightarrow> (Inl e, st)
          | Inr _ \<Rightarrow>
              (case fee_withdraw_credit (Prep A) who inclusion_fee (prepaid st) of
                 Inl e \<Rightarrow> (Inl e, st)
               | Inr p \<Rightarrow>
                   let st1 = st\<lparr>prepaid := p\<rparr> in
                   (case withdraw (Fung A) (fee_account (Prep A)) inclusion_fee Exact Expendable Polite
                        (currency st1) of
                      None \<Rightarrow>
                        (Inl (Invalid Payment),
                         case fee_refund_credit (Prep A) who inclusion_fee (prepaid st1) of
                           Inl _ \<Rightarrow> st1 | Inr p' \<Rightarrow> st1\<lparr>prepaid := p'\<rparr>)
                    | Some (fee_credit, c) \<Rightarrow>
                        (case native_credit A who tip (st1\<lparr>currency := c\<rparr>) of
                           (Inl e, st2) \<Rightarrow> (Inl e, drop_value A fee_credit st2)
                         | (Inr tip_credit, st2) \<Rightarrow>
                             (Inr (Prepaid who inclusion_fee fee_credit tip_credit), st2))))
        else
          case withdraw (Fung A) who fee_with_tip Exact Preserve Polite (currency st) of
            None \<Rightarrow> (Inl (Invalid Payment), st)
          | Some (credit, c) \<Rightarrow>
              (let (tip_credit, fee_credit) = split_credit (Fung A) credit tip in
               (Inr (Native who (Some fee_credit) (Some tip_credit)), st\<lparr>currency := c\<rparr>)))"

definition can_withdraw_fee ::
  "('a, 'c, 'p, 'cr, 'o) Adapter \<Rightarrow> 'a \<Rightarrow> u128 \<Rightarrow> u128 \<Rightarrow> ('a, 'c, 'p, 'cr) PayState \<Rightarrow>
   TransactionValidityError + unit" where
  "can_withdraw_fee A who fee_with_tip tip st =
     (if fee_with_tip = 0 then Inr ()
      else
        let inclusion_fee = saturating_sub fee_with_tip tip in
        if inclusion_fee \<noteq> 0 \<and> inclusion_fee \<le> fee_credit_of (Prep A) who (prepaid st)
        then can_withdraw_native A who tip st
        else can_withdraw_native A who fee_with_tip st)"

definition correct_and_deposit_fee ::
  "('a, 'c, 'p, 'cr, 'o) Adapter \<Rightarrow> u128 \<Rightarrow> u128 \<Rightarrow> ('a, 'cr) LiquidityInfo \<Rightarrow>
   ('a, 'c, 'p, 'cr) PayState \<Rightarrow> (TransactionValidityError + unit) \<times> ('a, 'c, 'p, 'cr) PayState" where
  "correct_and_deposit_fee A corrected_fee_with_tip tip liquidity_info st =
     (let corrected_fee = saturating_sub corrected_fee_with_tip tip in
      case liquidity_info of
        NoCharge \<Rightarrow> (Inr (), st)
      | Native who fee_credit tip_credit \<Rightarrow>
          (Inr (), settle_native_fee A who fee_credit corrected_fee tip_credit st)
      | Prepaid who paid_inclusion_fee fee_credit tip_credit \<Rightarrow>
          (case settle_prepaid_fee A who fee_credit paid_inclusion_fee corrected_fee st of
             (Inl e, st1) \<Rightarrow>
               (Inl e, case tip_credit of None \<Rightarrow> st1 | Some cr \<Rightarrow> drop_value A cr st1)
           | (Inr _, st1) \<Rightarrow>
               (let st2 = on_unbalanceds (option_list tip_credit) st1 in
                (Inr (), st2\<lparr>gas_events := gas_events st2 @
                  [PrepaidFeePaid who corrected_fee tip (fee_credit_of (Prep A) who (prepaid st2))]\<rparr>))))"

subsection \<open>The contract of PrepaidFee\<close>

text \<open>What the adapter may rely on: a withdrawal succeeds exactly when the credit covers it and takes
  exactly the amount, a refund always succeeds and adds at most the amount, other accounts are
  untouched. \<open>valid\<close> is the well-formedness of the storage and \<open>outstanding\<close> the credit outstanding.\<close>

locale prepaid_fee =
  fixes Pf :: "('a, 'p) PrepaidFee"
    and valid :: "'p \<Rightarrow> bool"
    and outstanding :: "'p \<Rightarrow> nat"
  assumes withdraw_ok: "amt \<le> fee_credit_of Pf who p \<Longrightarrow> \<exists>p'. fee_withdraw_credit Pf who amt p = Inr p'"
    and withdraw_law: "fee_withdraw_credit Pf who amt p = Inr p' \<Longrightarrow>
      unat (fee_credit_of Pf who p') + unat amt = unat (fee_credit_of Pf who p) \<and>
      (\<forall>a. a \<noteq> who \<longrightarrow> fee_credit_of Pf a p' = fee_credit_of Pf a p) \<and>
      (valid p \<longrightarrow> valid p' \<and> outstanding p' + unat amt = outstanding p)"
    and refund_law: "\<exists>p'. fee_refund_credit Pf who amt p = Inr p' \<and>
      fee_credit_of Pf who p' = saturating_add (fee_credit_of Pf who p) amt \<and>
      (\<forall>a. a \<noteq> who \<longrightarrow> fee_credit_of Pf a p' = fee_credit_of Pf a p) \<and>
      (valid p \<longrightarrow> valid p' \<and> outstanding p' \<le> outstanding p + unat amt)"
    and credit_le: "valid p \<Longrightarrow> unat (fee_credit_of Pf who p) \<le> outstanding p"
begin

lemma withdraw_exact:
  "fee_withdraw_credit Pf who amt p = Inr p' \<Longrightarrow>
   unat (fee_credit_of Pf who p') + unat amt = unat (fee_credit_of Pf who p)"
  using withdraw_law by blast

text \<open>A refund after a withdrawal restores every credit.\<close>

lemma withdraw_refund:
  assumes "fee_withdraw_credit Pf who amt p = Inr p1"
  shows "\<exists>p2. fee_refund_credit Pf who amt p1 = Inr p2 \<and>
    fee_credit_of Pf a p2 = fee_credit_of Pf a p \<and> (valid p \<longrightarrow> valid p2 \<and> outstanding p2 \<le> outstanding p)"
proof -
  obtain p2 where p2: "fee_refund_credit Pf who amt p1 = Inr p2"
    "fee_credit_of Pf who p2 = saturating_add (fee_credit_of Pf who p1) amt"
    "\<forall>a. a \<noteq> who \<longrightarrow> fee_credit_of Pf a p2 = fee_credit_of Pf a p1"
    "valid p1 \<longrightarrow> valid p2 \<and> outstanding p2 \<le> outstanding p1 + unat amt"
    using refund_law by blast
  have "saturating_add (fee_credit_of Pf who p1) amt = fee_credit_of Pf who p"
    using withdraw_exact [OF assms] unat_bound [of "fee_credit_of Pf who p"]
    by (simp add: word_unat_eq_iff unat_saturating_add)
  with p2 withdraw_law [OF assms] show ?thesis by (cases "a = who") auto
qed

end

end
