(* ===== verification/PrepaidGas.thy ===== *)
theory PrepaidGas
  imports GasPayment
begin

text \<open>
  \<^verbatim>\<open>pallet-prepaid-gas\<close> (\<^verbatim>\<open>src/lib.rs\<close>): prepaid credit bought by a sponsor for a
  beneficiary, kept in \<^verbatim>\<open>PrepaidCredits\<close> and backed by the balance of the pallet's account, and
  its implementation of the trait \<^verbatim>\<open>PrepaidFee\<close>.

  \<^verbatim>\<open>PrepaidCredits\<close> is a \<^verbatim>\<open>ValueQuery\<close> map: a partial function read with the default zero.
  The currency and \<^verbatim>\<open>frame_system\<close> are parameters over the storage \<open>'c\<close>, and so is the
  derivation of an account from the pallet identifier. \<^verbatim>\<open>purchase\<close> and \<^verbatim>\<open>purchase_for\<close> are
  \<^verbatim>\<open>#[transactional]\<close>, so their errors carry no state.
\<close>

datatype 'a PrepaidEvent =
    PrepaidPurchased 'a 'a u128 u128
  | PrepaidFeeWithdrawn 'a u128 u128
  | PrepaidFeeRefunded 'a u128 u128

datatype PrepaidError = PurchaseAmountTooLow | CannotPurchaseCredit

datatype PrepaidDispatchError = PrepaidBadOrigin | PrepaidModule PrepaidError

record ('a, 'c, 'o, 'i) PrepaidConfig =
  PSystem :: "('a, 'c, 'o) frame_system"
  PCurrency :: "('a, 'c) fungible"
  PalletId :: 'i
  into_account_truncating :: "'i \<Rightarrow> 'a"
  MinPurchase :: u128

record 'a PrepaidStorage =
  PrepaidCredits :: "'a \<rightharpoonup> u128"
  PalletAccountInitialized :: bool
  prepaid_events :: "'a PrepaidEvent list"

definition empty_prepaid :: "'a PrepaidStorage" where
  "empty_prepaid = \<lparr>PrepaidCredits = Map.empty, PalletAccountInitialized = False, prepaid_events = []\<rparr>"

definition account_id :: "('a, 'c, 'o, 'i) PrepaidConfig \<Rightarrow> 'a" where
  "account_id T = into_account_truncating T (PalletId T)"

definition remaining_credit :: "'a \<Rightarrow> 'a PrepaidStorage \<Rightarrow> u128" where
  "remaining_credit who p = (case PrepaidCredits p who of None \<Rightarrow> 0 | Some x \<Rightarrow> x)"

definition set_credit :: "'a \<Rightarrow> u128 \<Rightarrow> 'a PrepaidEvent \<Rightarrow> 'a PrepaidStorage \<Rightarrow> 'a PrepaidStorage" where
  "set_credit who x e p =
     p\<lparr>PrepaidCredits := (PrepaidCredits p)(who \<mapsto> x), prepaid_events := prepaid_events p @ [e]\<rparr>"

definition ensure_pallet_account ::
  "('a, 'c, 'o, 'i) PrepaidConfig \<Rightarrow> 'a PrepaidStorage \<times> 'c \<Rightarrow> 'a PrepaidStorage \<times> 'c" where
  "ensure_pallet_account T = (\<lambda>(p, c).
     if \<not> PalletAccountInitialized p
     then (p\<lparr>PalletAccountInitialized := True\<rparr>, inc_providers (PSystem T) (account_id T) c)
     else (p, c))"

definition purchase_for ::
  "('a, 'c, 'o, 'i) PrepaidConfig \<Rightarrow> 'a \<Rightarrow> 'a \<Rightarrow> u128 \<Rightarrow> 'a PrepaidStorage \<times> 'c \<Rightarrow>
   PrepaidDispatchError + 'a PrepaidStorage \<times> 'c" where
  "purchase_for T sponsor beneficiary amount s =
     and_then (ensure (amount \<noteq> 0 \<and> MinPurchase T \<le> amount) (PrepaidModule PurchaseAmountTooLow)) (\<lambda>_.
     let (p, c) = ensure_pallet_account T s in
     and_then (ok_or (PrepaidModule CannotPurchaseCredit)
         (transfer (PCurrency T) sponsor (account_id T) amount Preserve c)) (\<lambda>c'.
     let remaining = saturating_add (remaining_credit beneficiary p) amount in
     Inr (set_credit beneficiary remaining
       (PrepaidPurchased sponsor beneficiary amount remaining) p, c')))"

definition purchase ::
  "('a, 'c, 'o, 'i) PrepaidConfig \<Rightarrow> 'o \<Rightarrow> 'a \<Rightarrow> u128 \<Rightarrow> 'a PrepaidStorage \<times> 'c \<Rightarrow>
   PrepaidDispatchError + 'a PrepaidStorage \<times> 'c" where
  "purchase T origin beneficiary amount s =
     and_then (ok_or PrepaidBadOrigin (ensure_signed (PSystem T) origin)) (\<lambda>sponsor.
     purchase_for T sponsor beneficiary amount s)"

subsection \<open>The PrepaidFee implementation\<close>

definition withdraw_credit ::
  "'a \<Rightarrow> u128 \<Rightarrow> 'a PrepaidStorage \<Rightarrow> TransactionValidityError + 'a PrepaidStorage" where
  "withdraw_credit who amount p =
     (if amount = 0 then Inr p
      else
        let stored = remaining_credit who p in
        if stored < amount then Inl (Invalid Payment)
        else
          let remaining = saturating_sub stored amount in
          Inr (set_credit who remaining (PrepaidFeeWithdrawn who amount remaining) p))"

definition refund_credit ::
  "'a \<Rightarrow> u128 \<Rightarrow> 'a PrepaidStorage \<Rightarrow> TransactionValidityError + 'a PrepaidStorage" where
  "refund_credit who amount p =
     (if amount = 0 then Inr p
      else
        let remaining = saturating_add (remaining_credit who p) amount in
        Inr (set_credit who remaining (PrepaidFeeRefunded who amount remaining) p))"

definition prepaid_gas :: "('a, 'c, 'o, 'i) PrepaidConfig \<Rightarrow> ('a, 'a PrepaidStorage) PrepaidFee" where
  "prepaid_gas T =
     \<lparr>fee_account = account_id T, fee_credit_of = remaining_credit,
      fee_withdraw_credit = withdraw_credit, fee_refund_credit = refund_credit\<rparr>"

subsection \<open>The implementation meets the contract\<close>

definition credits_finite :: "'a PrepaidStorage \<Rightarrow> bool" where
  "credits_finite p \<longleftrightarrow> finite (dom (PrepaidCredits p))"

definition total_credit :: "'a PrepaidStorage \<Rightarrow> nat" where
  "total_credit p = storage_sum (\<lambda>_ x. unat x) (PrepaidCredits p)"

lemma remaining_credit_set:
  "remaining_credit a (set_credit who x e p) = (if a = who then x else remaining_credit a p)"
  by (simp add: remaining_credit_def set_credit_def)

lemma set_credit_fields [simp]:
  "PalletAccountInitialized (set_credit who x e p) = PalletAccountInitialized p"
  "PrepaidCredits (set_credit who x e p) = (PrepaidCredits p)(who \<mapsto> x)"
  by (simp_all add: set_credit_def)

lemma credits_finite_set [simp]: "credits_finite (set_credit who x e p) = credits_finite p"
  by (simp add: credits_finite_def set_credit_def)

lemma total_credit_set:
  assumes "credits_finite p"
  shows "total_credit (set_credit who x e p) + unat (remaining_credit who p) = total_credit p + unat x"
proof (cases "PrepaidCredits p who")
  case None
  with assms storage_sum_insert [of "PrepaidCredits p" who "\<lambda>_ x. unat x" x] show ?thesis
    by (simp add: total_credit_def credits_finite_def remaining_credit_def)
next
  case (Some y)
  with assms storage_sum_update [of "PrepaidCredits p" who y "\<lambda>_ x. unat x" x] show ?thesis
    by (simp add: total_credit_def credits_finite_def remaining_credit_def)
qed

lemma withdraw_credit_Inr:
  assumes "withdraw_credit who amount p = Inr p'"
  shows "unat (remaining_credit who p') + unat amount = unat (remaining_credit who p)"
    and "a \<noteq> who \<Longrightarrow> remaining_credit a p' = remaining_credit a p"
    and "credits_finite p \<Longrightarrow> credits_finite p' \<and> total_credit p' + unat amount = total_credit p"
proof -
  have "unat (remaining_credit who p') + unat amount = unat (remaining_credit who p) \<and>
    (a \<noteq> who \<longrightarrow> remaining_credit a p' = remaining_credit a p) \<and>
    (credits_finite p \<longrightarrow> credits_finite p' \<and> total_credit p' + unat amount = total_credit p)"
  proof (cases "amount = 0")
    case True
    with assms show ?thesis by (simp add: withdraw_credit_def)
  next
    case False
    let ?x = "saturating_sub (remaining_credit who p) amount"
    from False assms have le: "unat amount \<le> unat (remaining_credit who p)"
      and p': "p' = set_credit who ?x (PrepaidFeeWithdrawn who amount ?x) p"
      by (auto simp: withdraw_credit_def Let_def not_less word_le_nat_alt split: if_splits)
    have "total_credit p' + unat amount = total_credit p" if "credits_finite p"
      using total_credit_set [OF that, of who ?x "PrepaidFeeWithdrawn who amount ?x"] le
      by (simp add: p' unat_saturating_sub)
    with le show ?thesis by (simp add: p' remaining_credit_set unat_saturating_sub)
  qed
  then show "unat (remaining_credit who p') + unat amount = unat (remaining_credit who p)"
    and "a \<noteq> who \<Longrightarrow> remaining_credit a p' = remaining_credit a p"
    and "credits_finite p \<Longrightarrow> credits_finite p' \<and> total_credit p' + unat amount = total_credit p"
    by blast+
qed

lemma refund_credit_Inr:
  "\<exists>p'. refund_credit who amount p = Inr p' \<and>
     remaining_credit who p' = saturating_add (remaining_credit who p) amount \<and>
     (\<forall>a. a \<noteq> who \<longrightarrow> remaining_credit a p' = remaining_credit a p) \<and>
     (credits_finite p \<longrightarrow> credits_finite p' \<and> total_credit p' \<le> total_credit p + unat amount)"
proof (cases "amount = 0")
  case True
  then show ?thesis by (simp add: refund_credit_def)
next
  case False
  let ?x = "saturating_add (remaining_credit who p) amount"
  have "total_credit (set_credit who ?x e p) \<le> total_credit p + unat amount" if "credits_finite p" for e
    using total_credit_set [OF that, of who ?x e] by (simp add: unat_saturating_add)
  with False show ?thesis by (simp add: refund_credit_def Let_def remaining_credit_set)
qed

lemma prepaid_gas_fields [simp]:
  "fee_account (prepaid_gas T) = account_id T" "fee_credit_of (prepaid_gas T) = remaining_credit"
  "fee_withdraw_credit (prepaid_gas T) = withdraw_credit"
  "fee_refund_credit (prepaid_gas T) = refund_credit"
  by (simp_all add: prepaid_gas_def)

interpretation prepaid: prepaid_fee "prepaid_gas T" credits_finite total_credit
  for T :: "('a, 'c, 'o, 'i) PrepaidConfig"
proof unfold_locales
  fix amt who and p p' :: "'a PrepaidStorage"
  show "\<exists>p'. fee_withdraw_credit (prepaid_gas T) who amt p = Inr p'"
    if "amt \<le> fee_credit_of (prepaid_gas T) who p"
    using that by (auto simp: withdraw_credit_def Let_def)
  show "unat (fee_credit_of (prepaid_gas T) who p') + unat amt = unat (fee_credit_of (prepaid_gas T) who p) \<and>
      (\<forall>a. a \<noteq> who \<longrightarrow> fee_credit_of (prepaid_gas T) a p' = fee_credit_of (prepaid_gas T) a p) \<and>
      (credits_finite p \<longrightarrow> credits_finite p' \<and> total_credit p' + unat amt = total_credit p)"
    if "fee_withdraw_credit (prepaid_gas T) who amt p = Inr p'"
    using withdraw_credit_Inr [of who amt p p'] that by simp
  show "\<exists>p'. fee_refund_credit (prepaid_gas T) who amt p = Inr p' \<and>
      fee_credit_of (prepaid_gas T) who p' = saturating_add (fee_credit_of (prepaid_gas T) who p) amt \<and>
      (\<forall>a. a \<noteq> who \<longrightarrow> fee_credit_of (prepaid_gas T) a p' = fee_credit_of (prepaid_gas T) a p) \<and>
      (credits_finite p \<longrightarrow> credits_finite p' \<and> total_credit p' \<le> total_credit p + unat amt)"
    using refund_credit_Inr by simp
  show "unat (fee_credit_of (prepaid_gas T) who p) \<le> total_credit p" if "credits_finite p"
    using that storage_sum_le [of "PrepaidCredits p" who _ "\<lambda>_ x. unat x"]
    by (auto simp: remaining_credit_def total_credit_def credits_finite_def split: option.splits)
qed

end
