(* ===== verification/Gas_Accounting.thy ===== *)
theory Gas_Accounting
  imports PrepaidGas
begin

text \<open>
  Where the money of a transaction fee goes. The lemmas of the context \<open>prepaid_fee\<close> follow the
  value of a fee through the adapter, for any implementation of \<^verbatim>\<open>PrepaidFee\<close> that keeps its
  contract and any currency that keeps the laws of \<open>credit_laws\<close>: what the payer loses is what is
  handed on, and the credit outstanding stays covered by the pool account (\<open>backed\<close>), up to the dust
  that a withdrawal burns when it leaves the pool with less than the minimum balance.
\<close>

definition value_of :: "('a, 'c, 'p, 'cr, 'o) Adapter \<Rightarrow> 'cr list \<Rightarrow> nat" where
  "value_of A cs = sum_list (map (\<lambda>cr. unat (peek (Fung A) cr)) cs)"

definition bal :: "('a, 'c, 'p, 'cr, 'o) Adapter \<Rightarrow> ('a, 'c, 'p, 'cr) PayState \<Rightarrow> 'a \<Rightarrow> nat" where
  "bal A st a = unat (balance (Fung A) (currency st) a)"

text \<open>The pool covers the credit outstanding, up to \<open>gap\<close>; a step that empties the pool can widen the gap
  by less than the minimum balance.\<close>

definition backed ::
  "('a, 'c, 'p, 'cr, 'o) Adapter \<Rightarrow> ('p \<Rightarrow> nat) \<Rightarrow> nat \<Rightarrow> ('a, 'c, 'p, 'cr) PayState \<Rightarrow> bool" where
  "backed A tot gap st \<longleftrightarrow> tot (prepaid st) \<le> bal A st (fee_account (Prep A)) + gap"

definition empties ::
  "('a, 'c, 'p, 'cr, 'o) Adapter \<Rightarrow> ('a, 'c, 'p, 'cr) PayState \<Rightarrow> ('a, 'c, 'p, 'cr) PayState \<Rightarrow> bool" where
  "empties A st st' \<longleftrightarrow> bal A st (fee_account (Prep A)) \<noteq> 0 \<and> bal A st' (fee_account (Prep A)) = 0"

abbreviation dust_gap ::
  "('a, 'c, 'p, 'cr, 'o) Adapter \<Rightarrow> ('a, 'c, 'p, 'cr) PayState \<Rightarrow> ('a, 'c, 'p, 'cr) PayState \<Rightarrow> nat" where
  "dust_gap A st st' \<equiv> (if empties A st st' then unat (minimum_balance (Fung A)) - 1 else 0)"

lemma value_of_simps [simp]:
  "value_of A [] = 0" "value_of A (cr # cs) = unat (peek (Fung A) cr) + value_of A cs"
  "value_of A (cs @ ds) = value_of A cs + value_of A ds"
  by (simp_all add: value_of_def)

lemma on_unbalanceds_fields [simp]:
  "currency (on_unbalanceds cs st) = currency st" "prepaid (on_unbalanceds cs st) = prepaid st"
  "handed (on_unbalanceds cs st) = handed st @ cs" "bal A (on_unbalanceds cs st) a = bal A st a"
  by (simp_all add: on_unbalanceds_def bal_def)

lemma drop_value_fields [simp]:
  "prepaid (drop_value A cr st) = prepaid st" "handed (drop_value A cr st) = handed st"
  by (simp_all add: drop_value_def)

lemma bal_drop_value [simp]: "credit_laws (Fung A) \<Longrightarrow> bal A (drop_value A cr st) a = bal A st a"
  by (simp add: credit_laws_def drop_law_def drop_value_def bal_def)

lemma bal_update [simp]:
  "bal A (st\<lparr>prepaid := p\<rparr>) a = bal A st a" "bal A (st\<lparr>gas_events := ev\<rparr>) a = bal A st a"
  by (simp_all add: bal_def)

lemma credit_lawsD:
  assumes "credit_laws F"
  shows "withdraw_law F" "resolve_law F" "split_law F" "drop_law F"
  using assms by (simp_all add: credit_laws_def)

subsection \<open>The steps of the adapter\<close>

lemma native_credit_effect:
  assumes "credit_laws (Fung A)" and "native_credit A who amt st = (r, st')"
  shows "prepaid st' = prepaid st \<and> handed st' = handed st \<and>
    (case r of
       Inl e \<Rightarrow> st' = st
     | Inr tc \<Rightarrow> value_of A (option_list tc) = unat amt \<and>
         (\<forall>a. bal A st' a + (if a = who then unat amt else 0) = bal A st a))"
proof (cases "amt = 0")
  case True
  with assms(2) show ?thesis by (auto simp: native_credit_def)
next
  case False
  show ?thesis
  proof (cases "withdraw (Fung A) who amt Exact Preserve Polite (currency st)")
    case None
    with False assms(2) show ?thesis by (auto simp: native_credit_def)
  next
    case (Some x)
    then obtain cr c where x: "withdraw (Fung A) who amt Exact Preserve Polite (currency st) = Some (cr, c)"
      by (cases x) simp
    with False assms(2) have "r = Inr (Some cr)" "st' = st\<lparr>currency := c\<rparr>"
      by (auto simp: native_credit_def)
    with withdraw_lawD(1,3) [OF credit_lawsD(1) [OF assms(1)] x] show ?thesis
      by (simp add: bal_def del: split_paired_All)
  qed
qed

lemma refund_native_effect:
  assumes "credit_laws (Fung A)" and "refund_native_fee A who paid refund st = (paid', st')"
    and "unat (peek (Fung A) paid) + unat (peek (Fung A) refund) < 2 ^ 128"
  shows "prepaid st' = prepaid st \<and> handed st' = handed st \<and>
    (\<exists>k. k \<in> {0, unat (peek (Fung A) refund)} \<and>
       (\<forall>a. bal A st' a = bal A st a + (if a = who then k else 0)) \<and>
       unat (peek (Fung A) paid') + k = unat (peek (Fung A) paid) + unat (peek (Fung A) refund))"
proof -
  let ?v = "\<lambda>cr. unat (peek (Fung A) cr)"
  note laws = credit_lawsD [OF assms(1)]
  have joined: "?v (subsume (Fung A) paid cr) = ?v paid + ?v refund" if "peek (Fung A) cr = peek (Fung A) refund" for cr
    using assms(3) by (simp add: subsume_lawD [OF laws(3)] that unat_saturating_add)
  show ?thesis
  proof (cases "peek (Fung A) refund = 0 \<or> \<not> account_exists (Sys A) (currency st) who")
    case True
    with assms(1,2) joined [of refund] show ?thesis
      by (intro conjI exI [of _ 0]) (auto simp: refund_native_fee_def split: if_splits)
  next
    case False
    show ?thesis
    proof (cases "resolve (Fung A) who refund (currency st)")
      case (Inl cr)
      with False assms(2) joined [OF resolve_lawD(2) [OF laws(2) Inl]] show ?thesis
        by (intro conjI exI [of _ 0]) (auto simp: refund_native_fee_def)
    next
      case (Inr c)
      with False assms(2) resolve_lawD(1) [OF laws(2) Inr] show ?thesis
        by (intro conjI exI [of _ "?v refund"]) (auto simp: refund_native_fee_def bal_def)
    qed
  qed
qed

lemma settle_native_effect:
  assumes laws: "credit_laws (Fung A)"
    and run: "settle_native_fee A who (Some fc) corrected tc st = st'"
  shows "prepaid st' = prepaid st \<and>
    (\<exists>paid k. handed st' = handed st @ paid # option_list tc \<and>
       (\<forall>a. bal A st' a = bal A st a + (if a = who then k else 0)) \<and>
       unat (peek (Fung A) paid) + k = unat (peek (Fung A) fc) \<and>
       k \<in> {0, unat (peek (Fung A) fc) - unat corrected})"
proof -
  obtain x y where s: "split_credit (Fung A) fc corrected = (x, y)" by fastforce
  obtain paid st1 where r: "refund_native_fee A who x y st = (paid, st1)" by fastforce
  note xy = split_lawD [OF credit_lawsD(3) [OF laws] s]
  have "unat (peek (Fung A) x) + unat (peek (Fung A) y) = unat (peek (Fung A) fc)"
    using xy by simp
  with refund_native_effect [OF laws r] xy unat_bound [of "peek (Fung A) fc"] obtain k where
    k: "prepaid st1 = prepaid st" "handed st1 = handed st" "k \<in> {0, unat (peek (Fung A) y)}"
      "\<forall>a. bal A st1 a = bal A st a + (if a = who then k else 0)"
      "unat (peek (Fung A) paid) + k = unat (peek (Fung A) fc)"
    by auto
  moreover have "st' = on_unbalanceds (paid # option_list tc) st1"
    using run s r by (simp add: settle_native_fee_def)
  ultimately show ?thesis using xy by auto
qed

lemma settle_native_None:
  "settle_native_fee A who None corrected tc st = on_unbalanceds (option_list tc) st"
  by (simp add: settle_native_fee_def)

subsection \<open>Clients of the contract\<close>

context prepaid_fee
begin

lemma settle_prepaid_effect:
  assumes laws: "credit_laws (Fung A)" and A: "Prep A = Pf"
    and run: "settle_prepaid_fee A who fc paid_fee corrected st = (r, st')"
  shows "r = Inr () \<and>
    (\<exists>paid k. handed st' = handed st @ [paid] \<and>
       (\<forall>a. bal A st' a = bal A st a + (if a = fee_account Pf then unat k else 0)) \<and>
       unat (peek (Fung A) paid) + unat k = unat (peek (Fung A) fc) \<and>
       fee_credit_of Pf who (prepaid st') = saturating_add (fee_credit_of Pf who (prepaid st)) k \<and>
       (\<forall>a. a \<noteq> who \<longrightarrow> fee_credit_of Pf a (prepaid st') = fee_credit_of Pf a (prepaid st)) \<and>
       (valid (prepaid st) \<longrightarrow> valid (prepaid st') \<and> outstanding (prepaid st') \<le> outstanding (prepaid st) + unat k) \<and>
       unat k \<in> {0, unat (peek (Fung A) fc) - min (unat corrected) (unat paid_fee)})"
proof -
  let ?v = "\<lambda>cr. unat (peek (Fung A) cr)"
  obtain x y where s: "split_credit (Fung A) fc (min corrected paid_fee) = (x, y)" by fastforce
  have m: "unat (min corrected paid_fee) = min (unat corrected) (unat paid_fee)"
    by (simp add: min_def word_le_nat_alt)
  note xy = split_lawD [OF credit_lawsD(3) [OF laws] s, unfolded m]
  have sum: "?v x + ?v y = ?v fc" using xy by simp
  show ?thesis
  proof (cases "peek (Fung A) y = 0")
    case True
    with run s have "r = Inr ()" "st' = on_unbalanceds [x] (drop_value A y st)"
      by (auto simp: settle_prepaid_fee_def)
    with True sum laws show ?thesis by (intro conjI exI [of _ x] exI [of _ 0]) auto
  next
    case False
    show ?thesis
    proof (cases "resolve (Fung A) (fee_account Pf) y (currency st)")
      case (Inl cr)
      with False run s A have st': "r = Inr ()" "st' = on_unbalanceds [subsume (Fung A) x cr] st"
        by (auto simp: settle_prepaid_fee_def)
      have "?v (subsume (Fung A) x cr) = ?v fc"
        using sum resolve_lawD(2) [OF credit_lawsD(2) [OF laws] Inl] unat_bound [of "peek (Fung A) fc"]
        by (simp add: subsume_lawD [OF credit_lawsD(3) [OF laws]] unat_saturating_add)
      with st' show ?thesis by (intro conjI exI [of _ "subsume (Fung A) x cr"] exI [of _ 0]) auto
    next
      case (Inr c)
      obtain p where p: "fee_refund_credit Pf who (peek (Fung A) y) (prepaid st) = Inr p"
        "fee_credit_of Pf who p = saturating_add (fee_credit_of Pf who (prepaid st)) (peek (Fung A) y)"
        "\<forall>a. a \<noteq> who \<longrightarrow> fee_credit_of Pf a p = fee_credit_of Pf a (prepaid st)"
        "valid (prepaid st) \<longrightarrow> valid p \<and> outstanding p \<le> outstanding (prepaid st) + ?v y"
        using refund_law by blast
      with False Inr run s A
      have st': "r = Inr ()" "st' = on_unbalanceds [x] (st\<lparr>currency := c, prepaid := p\<rparr>)"
        by (auto simp: settle_prepaid_fee_def)
      have "bal A st' a = bal A st a + (if a = fee_account Pf then ?v y else 0)" for a
        using resolve_lawD(1) [OF credit_lawsD(2) [OF laws] Inr, of a] by (simp add: st' bal_def)
      with st' p sum xy show ?thesis by (intro conjI exI [of _ x] exI [of _ "peek (Fung A) y"]) auto
    qed
  qed
qed

text \<open>What a withdrawal that succeeds leaves behind, by the way the fee is paid.\<close>

definition native_withdrawn where
  "native_withdrawn A who fee tip fc tc st st' \<longleftrightarrow>
     prepaid st' = prepaid st \<and> handed st' = handed st \<and>
     (\<exists>f t. fc = Some f \<and> tc = Some t \<and>
        unat (peek (Fung A) t) = min (unat fee) (unat tip) \<and>
        unat (peek (Fung A) f) = unat fee - unat tip) \<and>
     (\<forall>a. bal A st' a + (if a = who then unat fee else 0) = bal A st a)"

definition prepaid_withdrawn where
  "prepaid_withdrawn A who incl tip dust fc tc st st' \<longleftrightarrow>
     handed st' = handed st \<and> peek (Fung A) fc = incl \<and>
     value_of A (option_list tc) = unat tip \<and>
     (\<forall>a. bal A st' a + (if a = who then unat tip else 0) +
        (if a = fee_account Pf then unat incl + dust else 0) = bal A st a) \<and>
     (dust = 0 \<or> bal A st' (fee_account Pf) = 0 \<and> dust < unat (minimum_balance (Fung A))) \<and>
     unat (fee_credit_of Pf who (prepaid st')) + unat incl = unat (fee_credit_of Pf who (prepaid st)) \<and>
     (\<forall>a. a \<noteq> who \<longrightarrow> fee_credit_of Pf a (prepaid st') = fee_credit_of Pf a (prepaid st)) \<and>
     (valid (prepaid st) \<longrightarrow> valid (prepaid st') \<and>
        outstanding (prepaid st') + unat incl = outstanding (prepaid st))"

definition pays_prepaid where
  "pays_prepaid who fee tip st \<longleftrightarrow>
     saturating_sub fee tip \<noteq> 0 \<and> saturating_sub fee tip \<le> fee_credit_of Pf who (prepaid st)"

lemma withdraw_fee_native:
  assumes laws: "credit_laws (Fung A)" and A: "Prep A = Pf"
    and fee: "fee \<noteq> 0" "\<not> pays_prepaid who fee tip st"
    and run: "withdraw_fee A who fee tip st = (Inr li, st')"
  shows "\<exists>fc tc. li = Native who fc tc \<and> native_withdrawn A who fee tip fc tc st st'"
proof -
  have eq: "withdraw_fee A who fee tip st =
      (case withdraw (Fung A) who fee Exact Preserve Polite (currency st) of
         None \<Rightarrow> (Inl (Invalid Payment), st)
       | Some (credit, c) \<Rightarrow>
           (let (tip_credit, fee_credit) = split_credit (Fung A) credit tip in
            (Inr (Native who (Some fee_credit) (Some tip_credit)), st\<lparr>currency := c\<rparr>)))"
    using fee unfolding withdraw_fee_def pays_prepaid_def A Let_def by (simp only: if_False)
  with run obtain cr c where w: "withdraw (Fung A) who fee Exact Preserve Polite (currency st) = Some (cr, c)"
    by (auto split: option.splits)
  obtain t f where s: "split_credit (Fung A) cr tip = (t, f)" by fastforce
  have li: "li = Native who (Some f) (Some t)" "st' = st\<lparr>currency := c\<rparr>"
    using run unfolding eq w by (simp_all add: s)
  show ?thesis
    using withdraw_lawD(1,3) [OF credit_lawsD(1) [OF laws] w] split_lawD [OF credit_lawsD(3) [OF laws] s]
    by (simp add: li native_withdrawn_def bal_def)
qed

text \<open>The prepaid path once the tip was found payable: the credit and the pool give the fee, the payer
  the tip.\<close>

lemma withdraw_fee_prepaid_steps:
  assumes A: "Prep A = Pf" and fee: "pays_prepaid who fee tip st" "fee \<noteq> 0"
    and tip: "withdraw_tip A who tip st = Inr ()"
    and p: "fee_withdraw_credit Pf who (saturating_sub fee tip) (prepaid st) = Inr p"
  shows "withdraw_fee A who fee tip st =
    (case withdraw (Fung A) (fee_account Pf) (saturating_sub fee tip) Exact Expendable Polite (currency st) of
       None \<Rightarrow> (Inl (Invalid Payment),
         case fee_refund_credit Pf who (saturating_sub fee tip) p of
           Inl _ \<Rightarrow> st\<lparr>prepaid := p\<rparr> | Inr p' \<Rightarrow> st\<lparr>prepaid := p'\<rparr>)
     | Some (fc, c) \<Rightarrow>
         (case native_credit A who tip (st\<lparr>prepaid := p, currency := c\<rparr>) of
            (Inl e, st2) \<Rightarrow> (Inl e, drop_value A fc st2)
          | (Inr tc, st2) \<Rightarrow> (Inr (Prepaid who (saturating_sub fee tip) fc tc), st2)))"
  using fee tip p by (simp add: withdraw_fee_def pays_prepaid_def A Let_def split: option.splits sum.splits)

lemma withdraw_fee_prepaid_run:
  assumes A: "Prep A = Pf" and fee: "pays_prepaid who fee tip st" "fee \<noteq> 0"
    and run: "withdraw_fee A who fee tip st = (Inr li, st')"
  obtains p fc c tc where "fee_withdraw_credit Pf who (saturating_sub fee tip) (prepaid st) = Inr p"
    "withdraw (Fung A) (fee_account Pf) (saturating_sub fee tip) Exact Expendable Polite (currency st) = Some (fc, c)"
    "native_credit A who tip (st\<lparr>prepaid := p, currency := c\<rparr>) = (Inr tc, st')"
    "li = Prepaid who (saturating_sub fee tip) fc tc"
proof -
  let ?incl = "saturating_sub fee tip"
  have tip: "withdraw_tip A who tip st = Inr ()"
    using run fee
    by (cases "withdraw_tip A who tip st") (auto simp: withdraw_fee_def pays_prepaid_def A Let_def)
  obtain p where p: "fee_withdraw_credit Pf who ?incl (prepaid st) = Inr p"
    using withdraw_ok fee(1) unfolding pays_prepaid_def by blast
  note run' = run [unfolded withdraw_fee_prepaid_steps [OF A fee tip p]]
  then obtain fc c where w: "withdraw (Fung A) (fee_account Pf) ?incl Exact Expendable Polite (currency st)
      = Some (fc, c)"
    by (auto split: option.splits)
  obtain r st2 where n: "native_credit A who tip (st\<lparr>prepaid := p, currency := c\<rparr>) = (r, st2)"
    by fastforce
  with run' w obtain tc where "r = Inr tc" "li = Prepaid who ?incl fc tc" "st' = st2"
    by (auto split: sum.splits)
  with p w n show thesis by (intro that) simp_all
qed

lemma withdraw_fee_prepaid:
  assumes laws: "credit_laws (Fung A)" and A: "Prep A = Pf"
    and fee: "pays_prepaid who fee tip st" "fee \<noteq> 0"
    and run: "withdraw_fee A who fee tip st = (Inr li, st')"
  shows "\<exists>fc tc dust. li = Prepaid who (saturating_sub fee tip) fc tc \<and>
    prepaid_withdrawn A who (saturating_sub fee tip) tip dust fc tc st st'"
proof -
  let ?incl = "saturating_sub fee tip"
  obtain p fc c tc where p: "fee_withdraw_credit Pf who ?incl (prepaid st) = Inr p"
    and w: "withdraw (Fung A) (fee_account Pf) ?incl Exact Expendable Polite (currency st) = Some (fc, c)"
    and n: "native_credit A who tip (st\<lparr>prepaid := p, currency := c\<rparr>) = (Inr tc, st')"
    and li: "li = Prepaid who ?incl fc tc"
    by (rule withdraw_fee_prepaid_run [OF A fee run])
  note e = native_credit_effect [OF laws n] and l = withdraw_lawD(1,4) [OF credit_lawsD(1) [OF laws] w]
  from l(2) obtain dust where dust: "\<And>a. unat (balance (Fung A) c a) +
      (if a = fee_account Pf then unat ?incl + dust else 0) = bal A st a"
    "dust = 0 \<or> balance (Fung A) c (fee_account Pf) = 0 \<and> dust < unat (minimum_balance (Fung A))"
    by (auto simp: bal_def)
  have tip': "bal A st' a + (if a = who then unat tip else 0) = unat (balance (Fung A) c a)" for a
    using e by (simp add: bal_def)
  have "bal A st' a + (if a = who then unat tip else 0) +
      (if a = fee_account Pf then unat ?incl + dust else 0) = bal A st a" for a
    using tip' [of a] dust(1) [of a] by simp
  moreover have "dust = 0 \<or> bal A st' (fee_account Pf) = 0 \<and> dust < unat (minimum_balance (Fung A))"
    using tip' [of "fee_account Pf"] dust(2) by (auto split: if_splits)
  ultimately have "prepaid_withdrawn A who ?incl tip dust fc tc st st'"
    using e l(1) withdraw_law [OF p] by (simp add: prepaid_withdrawn_def)
  with li show ?thesis by blast
qed

subsubsection \<open>The whole transaction\<close>

lemma native_accounting:
  assumes laws: "credit_laws (Fung A)" and A: "Prep A = Pf"
    and fee: "fee \<noteq> 0" "\<not> pays_prepaid who fee tip st"
    and w: "withdraw_fee A who fee tip st = (Inr li, st1)"
    and c: "correct_and_deposit_fee A corrected tip li st1 = (r, st2)"
  shows "r = Inr () \<and> prepaid st2 = prepaid st \<and>
    (\<exists>hs. handed st2 = handed st @ hs \<and>
       (\<forall>a. bal A st2 a + (if a = who then value_of A hs else 0) = bal A st a) \<and>
       value_of A hs \<in>
         {unat fee, min (unat fee) (unat tip) + min (unat fee - unat tip) (unat corrected - unat tip)})"
proof -
  obtain f t where li: "li = Native who (Some f) (Some t)"
    and n: "prepaid st1 = prepaid st" "handed st1 = handed st"
      "unat (peek (Fung A) t) = min (unat fee) (unat tip)" "unat (peek (Fung A) f) = unat fee - unat tip"
      "\<And>a. bal A st1 a + (if a = who then unat fee else 0) = bal A st a"
    using withdraw_fee_native [OF laws A fee w] by (auto simp: native_withdrawn_def)
  have st2: "r = Inr ()" "settle_native_fee A who (Some f) (saturating_sub corrected tip) (Some t) st1 = st2"
    using c by (simp_all add: correct_and_deposit_fee_def li)
  obtain paid k where s: "prepaid st2 = prepaid st1" "handed st2 = handed st1 @ [paid, t]"
      "\<And>a. bal A st2 a = bal A st1 a + (if a = who then k else 0)"
      "unat (peek (Fung A) paid) + k = unat fee - unat tip"
      "k \<in> {0, (unat fee - unat tip) - (unat corrected - unat tip)}"
    using settle_native_effect [OF laws st2(2)] n(4) by (auto simp: unat_saturating_sub)
  have v: "value_of A [paid, t] + k = unat fee"
    using s(4) n(3) by simp
  have "bal A st2 a + (if a = who then value_of A [paid, t] else 0) = bal A st a" for a
    using s(3) [of a] n(5) [of a] v by (cases "a = who") simp_all
  moreover have "value_of A [paid, t] \<in>
      {unat fee, min (unat fee) (unat tip) + min (unat fee - unat tip) (unat corrected - unat tip)}"
    using s(4,5) n(3) by auto
  ultimately show ?thesis
    using st2(1) s(1,2) n(1,2) by (intro conjI exI [of _ "[paid, t]"]) simp_all
qed

lemma prepaid_accounting:
  assumes laws: "credit_laws (Fung A)" and A: "Prep A = Pf"
    and fee: "fee \<noteq> 0" "pays_prepaid who fee tip st"
    and w: "withdraw_fee A who fee tip st = (Inr li, st1)"
    and c: "correct_and_deposit_fee A corrected tip li st1 = (r, st2)"
  shows "r = Inr () \<and>
    (\<exists>hs kept dust. handed st2 = handed st @ hs \<and> value_of A hs = kept + unat tip \<and>
       kept \<in> {unat fee - unat tip, min (unat corrected - unat tip) (unat fee - unat tip)} \<and>
       (\<forall>a. bal A st2 a + (if a = who then unat tip else 0) +
          (if a = fee_account Pf then kept + dust else 0) = bal A st a) \<and>
       (dust = 0 \<or> bal A st1 (fee_account Pf) = 0 \<and> dust < unat (minimum_balance (Fung A))) \<and>
       (\<forall>a. unat (fee_credit_of Pf a (prepaid st2)) + (if a = who then kept else 0) =
          unat (fee_credit_of Pf a (prepaid st))) \<and>
       (valid (prepaid st) \<longrightarrow> valid (prepaid st2) \<and>
          outstanding (prepaid st2) + kept \<le> outstanding (prepaid st)))"
proof -
  let ?incl = "saturating_sub fee tip" and ?v = "\<lambda>cr. unat (peek (Fung A) cr)"
  have incl: "unat ?incl = unat fee - unat tip" by (simp add: unat_saturating_sub)
  obtain fc tc dust where li: "li = Prepaid who ?incl fc tc"
    and n: "prepaid_withdrawn A who ?incl tip dust fc tc st st1"
    using withdraw_fee_prepaid [OF laws A fee(2,1) w] by auto
  obtain r1 st' where s: "settle_prepaid_fee A who fc ?incl (saturating_sub corrected tip) st1 = (r1, st')"
    by fastforce
  obtain paid k where e: "r1 = Inr ()" "handed st' = handed st1 @ [paid]"
      "\<And>a. bal A st' a = bal A st1 a + (if a = fee_account Pf then unat k else 0)"
      "?v paid + unat k = unat fee - unat tip"
      "fee_credit_of Pf who (prepaid st') = saturating_add (fee_credit_of Pf who (prepaid st1)) k"
      "\<And>a. a \<noteq> who \<Longrightarrow> fee_credit_of Pf a (prepaid st') = fee_credit_of Pf a (prepaid st1)"
      "valid (prepaid st1) \<Longrightarrow>
         valid (prepaid st') \<and> outstanding (prepaid st') \<le> outstanding (prepaid st1) + unat k"
      "unat k \<in> {0, (unat fee - unat tip) - min (unat corrected - unat tip) (unat fee - unat tip)}"
    using settle_prepaid_effect [OF laws A s] n incl
    by (auto simp: prepaid_withdrawn_def unat_saturating_sub)
  have st2: "r = Inr ()" "prepaid st2 = prepaid st'" "handed st2 = handed st' @ option_list tc"
      "\<And>a. bal A st2 a = bal A st' a"
    using c e(1) by (auto simp: correct_and_deposit_fee_def li s Let_def)
  have "bal A st2 a + (if a = who then unat tip else 0) + (if a = fee_account Pf then ?v paid + dust else 0)
      = bal A st a" for a
  proof -
    have "bal A st1 a + (if a = who then unat tip else 0) +
        (if a = fee_account Pf then unat ?incl + dust else 0) = bal A st a"
      using n unfolding prepaid_withdrawn_def by blast
    then show ?thesis using e(3) [of a] e(4) st2(4) [of a] incl by (simp split: if_splits)
  qed
  moreover have "unat (fee_credit_of Pf a (prepaid st2)) + (if a = who then ?v paid else 0) =
      unat (fee_credit_of Pf a (prepaid st))" for a
  proof (cases "a = who")
    case True
    have "unat (fee_credit_of Pf who (prepaid st1)) + (?v paid + unat k) = unat (fee_credit_of Pf who (prepaid st))"
      using n incl e(4) by (simp add: prepaid_withdrawn_def)
    with unat_bound [of "fee_credit_of Pf who (prepaid st)"] True e(5) show ?thesis
      by (simp add: st2 unat_saturating_add)
  next
    case False
    with n e(6) show ?thesis by (simp add: st2 prepaid_withdrawn_def)
  qed
  moreover have "valid (prepaid st2) \<and> outstanding (prepaid st2) + ?v paid \<le> outstanding (prepaid st)"
    if "valid (prepaid st)"
    using n that incl e(4,7) by (auto simp: prepaid_withdrawn_def st2)
  moreover have "?v paid \<in> {unat fee - unat tip, min (unat corrected - unat tip) (unat fee - unat tip)}"
    using e(4,8) by auto
  moreover have "value_of A (paid # option_list tc) = ?v paid + unat tip"
    using n by (simp add: prepaid_withdrawn_def)
  ultimately show ?thesis
    using st2(1,3) e(2) n
    by (intro conjI exI [of _ "paid # option_list tc"] exI [of _ "?v paid"] exI [of _ dust])
      (simp_all add: prepaid_withdrawn_def)
qed

subsubsection \<open>Withdrawals that fail\<close>

lemma withdraw_fee_error:
  assumes A: "Prep A = Pf" and run: "withdraw_fee A who fee tip st = (Inl e, st')"
  shows "st' = st \<or>
    (\<exists>p p'. fee_withdraw_credit Pf who (saturating_sub fee tip) (prepaid st) = Inr p \<and>
       fee_refund_credit Pf who (saturating_sub fee tip) p = Inr p' \<and> st' = st\<lparr>prepaid := p'\<rparr> \<and>
       withdraw (Fung A) (fee_account Pf) (saturating_sub fee tip) Exact Expendable Polite (currency st) = None) \<or>
    (\<exists>p fc c. fee_withdraw_credit Pf who (saturating_sub fee tip) (prepaid st) = Inr p \<and>
       withdraw_tip A who tip st = Inr () \<and>
       withdraw (Fung A) (fee_account Pf) (saturating_sub fee tip) Exact Expendable Polite (currency st)
         = Some (fc, c) \<and>
       fst (native_credit A who tip (st\<lparr>prepaid := p, currency := c\<rparr>)) = Inl e \<and>
       st' = drop_value A fc (st\<lparr>prepaid := p, currency := c\<rparr>))"
proof (cases "fee \<noteq> 0 \<and> pays_prepaid who fee tip st \<and> withdraw_tip A who tip st = Inr ()")
  case False
  have "st' = st"
  proof (cases "fee \<noteq> 0 \<and> pays_prepaid who fee tip st")
    case True
    with False run show ?thesis
      by (cases "withdraw_tip A who tip st") (auto simp: withdraw_fee_def pays_prepaid_def A Let_def)
  next
    case False
    then have "fee = 0 \<or> \<not> (saturating_sub fee tip \<noteq> 0 \<and> saturating_sub fee tip \<le> fee_credit_of (Prep A) who (prepaid st))"
      by (auto simp: pays_prepaid_def A)
    with run show ?thesis unfolding withdraw_fee_def Let_def
      by (elim disjE) (simp_all only: if_True if_False, auto split: option.splits prod.splits if_splits)
  qed
  then show ?thesis by simp
next
  case True
  then have fee: "pays_prepaid who fee tip st" "fee \<noteq> 0" and tip: "withdraw_tip A who tip st = Inr ()"
    by simp_all
  obtain p where p: "fee_withdraw_credit Pf who (saturating_sub fee tip) (prepaid st) = Inr p"
    using withdraw_ok fee(1) unfolding pays_prepaid_def by blast
  obtain p' where p': "fee_refund_credit Pf who (saturating_sub fee tip) p = Inr p'"
    using refund_law by blast
  have tipfail: "st2 = s" if "native_credit A who tip s = (Inl e, st2)" for s st2
    using that by (auto simp: native_credit_def split: if_splits option.splits)
  note run' = run [unfolded withdraw_fee_prepaid_steps [OF A fee tip p]]
  show ?thesis
  proof (cases "withdraw (Fung A) (fee_account Pf) (saturating_sub fee tip) Exact Expendable Polite (currency st)")
    case None
    with run' p p' show ?thesis by auto
  next
    case (Some x)
    then obtain fc c where x: "x = (fc, c)" by (cases x)
    obtain r st2 where n: "native_credit A who tip (st\<lparr>prepaid := p, currency := c\<rparr>) = (r, st2)"
      by fastforce
    with run' Some x have "r = Inl e" "st' = drop_value A fc st2" by (auto split: sum.splits)
    with tipfail [of "st\<lparr>prepaid := p, currency := c\<rparr>" st2] n p tip Some x show ?thesis by auto
  qed
qed

text \<open>Dust that a withdrawal burns is missing for the credit that is left: the pool is empty, and a fee
  that the credit covers is accepted by validation and refused at withdrawal.\<close>

lemma dusted_pool:
  assumes laws: "credit_laws (Fung A)" "reap_law (Fung A) (fee_account Pf)" and A: "Prep A = Pf"
    and fee: "pays_prepaid who fee tip st" "fee \<noteq> 0"
    and low: "bal A st (fee_account Pf) < unat (saturating_sub fee tip) + unat (minimum_balance (Fung A))"
    and run: "withdraw_fee A who fee tip st = (Inr li, st')"
  shows "bal A st' (fee_account Pf) = 0"
proof -
  obtain p fc c tc where "fee_withdraw_credit Pf who (saturating_sub fee tip) (prepaid st) = Inr p"
    and w: "withdraw (Fung A) (fee_account Pf) (saturating_sub fee tip) Exact Expendable Polite (currency st) = Some (fc, c)"
    and n: "native_credit A who tip (st\<lparr>prepaid := p, currency := c\<rparr>) = (Inr tc, st')"
    and "li = Prepaid who (saturating_sub fee tip) fc tc"
    by (rule withdraw_fee_prepaid_run [OF A fee run])
  have "balance (Fung A) c (fee_account Pf) = 0"
    using laws(2) w low unfolding reap_law_def bal_def by blast
  moreover have "bal A st' a + (if a = who then unat tip else 0) = unat (balance (Fung A) c a)" for a
    using native_credit_effect [OF laws(1) n] by (simp add: bal_def)
  ultimately show ?thesis by (metis add_is_0 unat_0)
qed

lemma empty_pool_refuses:
  assumes laws: "credit_laws (Fung A)" and A: "Prep A = Pf"
    and empty: "bal A st (fee_account Pf) = 0"
    and fee: "fee \<noteq> 0" "fee \<le> fee_credit_of Pf who (prepaid st)"
  shows "can_withdraw_fee A who fee 0 st = Inr () \<and> fst (withdraw_fee A who fee 0 st) = Inl (Invalid Payment)"
proof -
  have incl: "saturating_sub fee 0 = fee" by (simp add: saturating_sub_def)
  have pays: "pays_prepaid who fee 0 st" using fee by (simp add: pays_prepaid_def incl)
  have tip: "withdraw_tip A who 0 st = Inr ()" by (simp add: withdraw_tip_def can_withdraw_native_def)
  obtain p where p: "fee_withdraw_credit Pf who (saturating_sub fee 0) (prepaid st) = Inr p"
    using withdraw_ok fee(2) unfolding incl by blast
  have "withdraw (Fung A) (fee_account Pf) fee Exact Expendable Polite (currency st) = None"
  proof (rule ccontr)
    assume "withdraw (Fung A) (fee_account Pf) fee Exact Expendable Polite (currency st) \<noteq> None"
    then obtain cr c where w: "withdraw (Fung A) (fee_account Pf) fee Exact Expendable Polite (currency st) = Some (cr, c)"
      by auto
    from withdraw_lawD(4) [OF credit_lawsD(1) [OF laws] w] obtain dust where
      "\<forall>a. unat (balance (Fung A) c a) + (if a = fee_account Pf then unat fee + dust else 0) =
        unat (balance (Fung A) (currency st) a)"
      by blast
    from this [rule_format, of "fee_account Pf"] have "unat fee \<le> bal A st (fee_account Pf)"
      by (simp add: bal_def)
    with empty fee(1) show False by (simp add: word_unat_eq_iff)
  qed
  moreover have "can_withdraw_fee A who fee 0 st = Inr ()"
    using fee by (simp add: can_withdraw_fee_def incl A can_withdraw_native_def)
  ultimately show ?thesis
    by (simp add: withdraw_fee_prepaid_steps [OF A pays fee(1) tip p] incl)
qed

lemma dust_uncovers:
  assumes laws: "credit_laws (Fung A)" "reap_law (Fung A) (fee_account Pf)" and A: "Prep A = Pf"
    and valid: "valid (prepaid st)"
    and fee: "fee \<noteq> 0" "saturating_sub fee tip \<noteq> 0" "saturating_sub fee tip \<le> fee_credit_of Pf who (prepaid st)"
    and cover: "outstanding (prepaid st) = bal A st (fee_account Pf)"
      "unat (saturating_sub fee tip) < outstanding (prepaid st)"
      "outstanding (prepaid st) < unat (saturating_sub fee tip) + unat (minimum_balance (Fung A))"
    and run: "withdraw_fee A who fee tip st = (Inr li, st')"
  shows "0 < outstanding (prepaid st') \<and> bal A st' (fee_account Pf) = 0 \<and>
    (\<forall>who' fee'. fee' \<noteq> 0 \<longrightarrow> fee' \<le> fee_credit_of Pf who' (prepaid st') \<longrightarrow>
       can_withdraw_fee A who' fee' 0 st' = Inr () \<and>
       fst (withdraw_fee A who' fee' 0 st') = Inl (Invalid Payment))"
proof -
  have pays: "pays_prepaid who fee tip st" using fee(2,3) by (simp add: pays_prepaid_def)
  have empty: "bal A st' (fee_account Pf) = 0"
    using cover by (intro dusted_pool [OF laws A pays fee(1) _ run]) simp
  obtain fc tc dust where "prepaid_withdrawn A who (saturating_sub fee tip) tip dust fc tc st st'"
    using withdraw_fee_prepaid [OF laws(1) A pays fee(1) run] by blast
  with valid have "outstanding (prepaid st') + unat (saturating_sub fee tip) = outstanding (prepaid st)"
    unfolding prepaid_withdrawn_def by blast
  with cover(2) empty empty_pool_refuses [OF laws(1) A empty] show ?thesis by simp
qed

text \<open>A fee that was found payable is paid, and a withdrawal that fails takes no credit.\<close>

lemma tip_still_payable:
  assumes "withdraw_progress_law (Fung A) (fee_account Pf)" and "who \<noteq> fee_account Pf"
    and "withdraw_tip A who tip st = Inr ()"
    and "withdraw (Fung A) (fee_account Pf) x Exact Expendable Polite (currency st) = Some (fc, c)"
  shows "\<exists>tc st2. native_credit A who tip (st\<lparr>prepaid := p, currency := c\<rparr>) = (Inr tc, st2)"
proof (cases "tip = 0")
  case True
  then show ?thesis by (simp add: native_credit_def)
next
  case False
  with assms(3) have "can_withdraw (Fung A) (currency st) who tip"
    by (auto simp: withdraw_tip_def can_withdraw_native_def split: if_splits)
  with assms(1,2,4) have "can_withdraw (Fung A) c who tip"
    unfolding withdraw_progress_law_def by blast
  with assms(1) have "withdraw (Fung A) who tip Exact Preserve Polite c \<noteq> None"
    unfolding withdraw_progress_law_def by blast
  with False show ?thesis by (auto simp: native_credit_def)
qed

lemma error_keeps_credit:
  assumes law: "withdraw_progress_law (Fung A) (fee_account Pf)" and neq: "who \<noteq> fee_account Pf"
    and A: "Prep A = Pf" and run: "withdraw_fee A who fee tip st = (Inl e, st')"
  shows "fee_credit_of Pf a (prepaid st') = fee_credit_of Pf a (prepaid st) \<and>
    currency st' = currency st \<and> handed st' = handed st"
  using withdraw_fee_error [OF A run]
proof (elim disjE exE conjE)
  fix p p'
  assume "fee_withdraw_credit Pf who (saturating_sub fee tip) (prepaid st) = Inr p"
    "fee_refund_credit Pf who (saturating_sub fee tip) p = Inr p'" "st' = st\<lparr>prepaid := p'\<rparr>"
  then show ?thesis using withdraw_refund [of who "saturating_sub fee tip" "prepaid st" p a] by auto
next
  fix p fc c
  assume "withdraw_tip A who tip st = Inr ()"
    "withdraw (Fung A) (fee_account Pf) (saturating_sub fee tip) Exact Expendable Polite (currency st) = Some (fc, c)"
    "fst (native_credit A who tip (st\<lparr>prepaid := p, currency := c\<rparr>)) = Inl e"
  with tip_still_payable [OF law neq, of tip st "saturating_sub fee tip" fc c p] show ?thesis by auto
qed simp

lemma payable_is_paid:
  assumes law: "withdraw_progress_law (Fung A) (fee_account Pf)" and neq: "who \<noteq> fee_account Pf"
    and A: "Prep A = Pf" and inv: "valid (prepaid st)" "backed A outstanding 0 st"
    and can: "can_withdraw_fee A who fee tip st = Inr ()"
  shows "\<exists>li st'. withdraw_fee A who fee tip st = (Inr li, st')"
proof (cases "fee \<noteq> 0 \<and> pays_prepaid who fee tip st")
  case True
  then have fee: "pays_prepaid who fee tip st" "fee \<noteq> 0" by simp_all
  with can have tip: "withdraw_tip A who tip st = Inr ()"
    by (auto simp: can_withdraw_fee_def withdraw_tip_def pays_prepaid_def A Let_def)
  obtain p where p: "fee_withdraw_credit Pf who (saturating_sub fee tip) (prepaid st) = Inr p"
    using withdraw_ok fee(1) unfolding pays_prepaid_def by blast
  have "unat (saturating_sub fee tip) \<le> unat (fee_credit_of Pf who (prepaid st))"
    using fee(1) by (simp add: pays_prepaid_def word_le_nat_alt)
  also have "\<dots> \<le> unat (balance (Fung A) (currency st) (fee_account Pf))"
    using credit_le [OF inv(1), of who] inv(2) by (simp add: backed_def bal_def A)
  finally obtain fc c where w: "withdraw (Fung A) (fee_account Pf) (saturating_sub fee tip) Exact Expendable
      Polite (currency st) = Some (fc, c)"
    using law unfolding withdraw_progress_law_def word_le_nat_alt by fastforce
  from tip_still_payable [OF law neq tip w, of p] w show ?thesis
    by (auto simp: withdraw_fee_prepaid_steps [OF A fee tip p])
next
  case False
  show ?thesis
  proof (cases "fee = 0")
    case True
    then show ?thesis by (simp add: withdraw_fee_def)
  next
    case fee: False
    with False have np: "\<not> (saturating_sub fee tip \<noteq> 0 \<and> saturating_sub fee tip \<le> fee_credit_of (Prep A) who (prepaid st))"
      by (simp add: pays_prepaid_def A)
    with can fee have "can_withdraw (Fung A) (currency st) who fee"
      unfolding can_withdraw_fee_def Let_def
      by (simp only: if_False) (auto simp: can_withdraw_native_def split: if_splits)
    with law have "withdraw (Fung A) who fee Exact Preserve Polite (currency st) \<noteq> None"
      unfolding withdraw_progress_law_def by blast
    with np fee show ?thesis
      unfolding withdraw_fee_def Let_def by (simp only: if_False) (auto split: prod.splits)
  qed
qed

subsubsection \<open>The pool covers the credit outstanding\<close>

lemma backed_pool_withdrawn:
  assumes A: "Prep A = Pf" and inv: "backed A outstanding gap st"
    and paid: "outstanding (prepaid st') + n = outstanding (prepaid st)"
      "bal A st' (fee_account Pf) + n + dust = bal A st (fee_account Pf)"
      "dust = 0 \<or> bal A st' (fee_account Pf) = 0 \<and> dust < unat (minimum_balance (Fung A))"
  shows "backed A outstanding (gap + dust_gap A st st') st'"
proof (cases "dust = 0")
  case True
  with inv paid show ?thesis by (auto simp: backed_def A)
next
  case False
  with paid(2,3) have "empties A st st'" by (auto simp: empties_def A)
  with inv paid False show ?thesis by (auto simp: backed_def A)
qed

lemma backed_withdraw:
  assumes laws: "credit_laws (Fung A)" and A: "Prep A = Pf" and neq: "who \<noteq> fee_account Pf"
    and inv: "valid (prepaid st)" "backed A outstanding gap st"
    and run: "withdraw_fee A who fee tip st = (r, st')"
  shows "valid (prepaid st') \<and> backed A outstanding (gap + dust_gap A st st') st'"
proof (cases r)
  case (Inl e)
  from withdraw_fee_error [OF A run [unfolded Inl]] show ?thesis
  proof (elim disjE exE conjE)
    fix p p'
    assume "fee_withdraw_credit Pf who (saturating_sub fee tip) (prepaid st) = Inr p"
      "fee_refund_credit Pf who (saturating_sub fee tip) p = Inr p'" "st' = st\<lparr>prepaid := p'\<rparr>"
    then show ?thesis
      using withdraw_refund [of who "saturating_sub fee tip" "prepaid st" p who] inv
      by (auto simp: backed_def)
  next
    fix p fc c
    assume p: "fee_withdraw_credit Pf who (saturating_sub fee tip) (prepaid st) = Inr p"
      and w: "withdraw (Fung A) (fee_account Pf) (saturating_sub fee tip) Exact Expendable Polite (currency st) = Some (fc, c)"
      and st': "st' = drop_value A fc (st\<lparr>prepaid := p, currency := c\<rparr>)"
    from withdraw_lawD(4) [OF credit_lawsD(1) [OF laws] w] obtain dust where
      b: "\<forall>a. unat (balance (Fung A) c a) + (if a = fee_account Pf then unat (saturating_sub fee tip) + dust else 0) =
        unat (balance (Fung A) (currency st) a)"
      and z: "dust = 0 \<or> balance (Fung A) c (fee_account Pf) = 0 \<and> dust < unat (minimum_balance (Fung A))"
      by blast
    from b [rule_format, of "fee_account Pf"] z have d: "bal A st' (fee_account Pf) + unat (saturating_sub fee tip) + dust = bal A st (fee_account Pf)"
      "dust = 0 \<or> bal A st' (fee_account Pf) = 0 \<and> dust < unat (minimum_balance (Fung A))"
      using laws by (simp_all add: st') (auto simp: bal_def)
    have o: "valid (prepaid st')" "outstanding (prepaid st') + unat (saturating_sub fee tip) = outstanding (prepaid st)"
      using withdraw_law [OF p] inv(1) by (simp_all add: st')
    show ?thesis using o(1) backed_pool_withdrawn [OF A inv(2) o(2) d] by simp
  qed (use inv in \<open>simp_all add: backed_def\<close>)
next
  case (Inr li)
  show ?thesis
  proof (cases "fee \<noteq> 0 \<and> pays_prepaid who fee tip st")
    case True
    with withdraw_fee_prepaid [OF laws A _ _ run [unfolded Inr]] obtain fc tc dust
      where w: "prepaid_withdrawn A who (saturating_sub fee tip) tip dust fc tc st st'" by auto
    then have b: "bal A st' a + (if a = who then unat tip else 0) +
        (if a = fee_account Pf then unat (saturating_sub fee tip) + dust else 0) = bal A st a" for a
      unfolding prepaid_withdrawn_def by blast
    from w inv(1) have o: "valid (prepaid st')"
      "outstanding (prepaid st') + unat (saturating_sub fee tip) = outstanding (prepaid st)"
      "dust = 0 \<or> bal A st' (fee_account Pf) = 0 \<and> dust < unat (minimum_balance (Fung A))"
      unfolding prepaid_withdrawn_def by blast+
    with backed_pool_withdrawn [OF A inv(2) o(2) _ o(3)] b [of "fee_account Pf"] neq show ?thesis by simp
  next
    case False
    show ?thesis
    proof (cases "fee = 0")
      case True
      with run inv show ?thesis by (auto simp: withdraw_fee_def backed_def)
    next
      case fee: False
      with withdraw_fee_native [OF laws A fee _ run [unfolded Inr]] False obtain fc tc
        where w: "native_withdrawn A who fee tip fc tc st st'" by auto
      then have "bal A st' a + (if a = who then unat fee else 0) = bal A st a" for a
        unfolding native_withdrawn_def by blast
      from this [of "fee_account Pf"] w inv neq show ?thesis
        by (auto simp: native_withdrawn_def backed_def A)
    qed
  qed
qed

lemma backed_settle:
  assumes laws: "credit_laws (Fung A)" and A: "Prep A = Pf"
    and inv: "valid (prepaid st)" "backed A outstanding gap st"
    and run: "correct_and_deposit_fee A corrected tip li st = (r, st')"
  shows "valid (prepaid st') \<and> backed A outstanding gap st'"
proof (cases li)
  case (Native w fc tc)
  show ?thesis
  proof (cases fc)
    case None
    with Native run inv show ?thesis
      by (auto simp: correct_and_deposit_fee_def settle_native_None backed_def)
  next
    case (Some f)
    with Native run have "settle_native_fee A w (Some f) (saturating_sub corrected tip) tc st = st'"
      by (simp add: correct_and_deposit_fee_def)
    from settle_native_effect [OF laws this] obtain k where "prepaid st' = prepaid st"
      "\<forall>a. bal A st' a = bal A st a + (if a = w then k else 0)" by blast
    with inv show ?thesis by (simp add: backed_def)
  qed
next
  case (Prepaid w paid fc tc)
  obtain r1 st1 where s: "settle_prepaid_fee A w fc paid (saturating_sub corrected tip) st = (r1, st1)"
    by fastforce
  from settle_prepaid_effect [OF laws A s] inv have "valid (prepaid st1) \<and> backed A outstanding gap st1"
    by (auto simp: backed_def A intro: order_trans)
  moreover have "prepaid st' = prepaid st1 \<and> bal A st' (fee_account (Prep A)) = bal A st1 (fee_account (Prep A))"
    using run settle_prepaid_effect [OF laws A s] by (auto simp: correct_and_deposit_fee_def Prepaid s Let_def)
  ultimately show ?thesis by (simp add: backed_def)
next
  case NoCharge
  with run inv show ?thesis by (simp add: correct_and_deposit_fee_def)
qed

end

end
