(* ===== verification/Gas_Properties.thy ===== *)
theory Gas_Properties
  imports Gas_Accounting Sample_Ledger
begin

text \<open>
  The properties of the two gas pallets together: the fee handler on top of the prepaid gas pallet,
  over any interleaving of purchases, fee withdrawals and settlements. Each property is applied to
  a run on the sample currency: account 11 buys credit for account 12 into the pool account 99,
  and account 12 pays fees.
\<close>

text \<open>The adapter of the runtime: \<^verbatim>\<open>PrepaidFeeAdapter<Balances, PrepaidGas, _>\<close>, both pallets on
  the same currency.\<close>

definition adapter_on ::
  "('a, 'c, 'o, 'i) PrepaidConfig \<Rightarrow> ('a, 'c, 'a PrepaidStorage, 'cr, 'o) Adapter \<Rightarrow> bool" where
  "adapter_on T A \<longleftrightarrow>
     Prep A = prepaid_gas T \<and> balance (PCurrency T) = balance (Fung A) \<and>
     credit_laws (Fung A) \<and> transfer_law (PCurrency T) \<and>
     (\<forall>who c. balance (PCurrency T) (inc_providers (PSystem T) who c) = balance (PCurrency T) c)"

subsection \<open>Purchases\<close>

lemma purchase_for_Inr:
  assumes "adapter_on T A" and "purchase_for T spo b amount (p, c) = Inr (p', c')"
  shows "amount \<noteq> 0 \<and> MinPurchase T \<le> amount"
    and "unat (balance (Fung A) c' a) + (if a = spo then unat amount else 0) =
      unat (balance (Fung A) c a) + (if a = account_id T then unat amount else 0)"
    and "remaining_credit a p' = (if a = b then saturating_add (remaining_credit b p) amount
      else remaining_credit a p)"
    and "credits_finite p \<Longrightarrow> credits_finite p' \<and> total_credit p' \<le> total_credit p + unat amount"
proof -
  obtain p1 c1 where e: "ensure_pallet_account T (p, c) = (p1, c1)" by fastforce
  have p1: "PrepaidCredits p1 = PrepaidCredits p" and c1: "balance (PCurrency T) c1 = balance (PCurrency T) c"
    using e assms(1) by (auto simp: ensure_pallet_account_def adapter_on_def split: if_splits)
  let ?x = "saturating_add (remaining_credit b p1) amount"
  from assms(2) e have g: "amount \<noteq> 0 \<and> MinPurchase T \<le> amount"
    and t: "transfer (PCurrency T) spo (account_id T) amount Preserve c1 = Some c'"
    and p': "p' = set_credit b ?x (PrepaidPurchased spo b amount ?x) p1"
    by (auto simp: purchase_for_def result_simps Let_def)
  have rc: "remaining_credit a p1 = remaining_credit a p" for a by (simp add: remaining_credit_def p1)
  show "amount \<noteq> 0 \<and> MinPurchase T \<le> amount" by (fact g)
  show "unat (balance (Fung A) c' a) + (if a = spo then unat amount else 0) =
      unat (balance (Fung A) c a) + (if a = account_id T then unat amount else 0)"
    using assms(1) t c1 unfolding adapter_on_def transfer_law_def by metis
  show "remaining_credit a p' = (if a = b then saturating_add (remaining_credit b p) amount
      else remaining_credit a p)"
    by (simp add: p' remaining_credit_set rc)
  show "credits_finite p' \<and> total_credit p' \<le> total_credit p + unat amount" if "credits_finite p"
    using total_credit_set [of p1 b ?x] that p1
    by (fastforce simp: p' credits_finite_def total_credit_def unat_saturating_add)
qed

subsection \<open>Runs of the two pallets\<close>

text \<open>The calls of the two pallets: a purchase by an account other than the pool, which has no key, the
  withdrawal of a fee, and its settlement. Between them other pallets may act on the currency, as long as
  they leave the pool its balance.\<close>

inductive gas_call ::
  "('a, 'c, 'o, 'i) PrepaidConfig \<Rightarrow> ('a, 'c, 'a PrepaidStorage, 'cr, 'o) Adapter \<Rightarrow>
   ('a, 'c, 'a PrepaidStorage, 'cr) PayState \<Rightarrow> ('a, 'c, 'a PrepaidStorage, 'cr) PayState \<Rightarrow> bool"
  for T A where
  buy: "purchase T og b amount (prepaid st, currency st) = Inr (p, c) \<Longrightarrow>
    ensure_signed (PSystem T) og \<noteq> Some (account_id T) \<Longrightarrow>
    gas_call T A st (st\<lparr>prepaid := p, currency := c\<rparr>)"
| charge: "withdraw_fee A who fee tip st = (r, st') \<Longrightarrow> who \<noteq> account_id T \<Longrightarrow> gas_call T A st st'"
| settle: "correct_and_deposit_fee A corrected tip li st = (r, st') \<Longrightarrow> gas_call T A st st'"

inductive gas_step ::
  "('a, 'c, 'o, 'i) PrepaidConfig \<Rightarrow> ('a, 'c, 'a PrepaidStorage, 'cr, 'o) Adapter \<Rightarrow>
   ('a, 'c, 'a PrepaidStorage, 'cr) PayState \<Rightarrow> ('a, 'c, 'a PrepaidStorage, 'cr) PayState \<Rightarrow> bool"
  for T A where
  call: "gas_call T A st st' \<Longrightarrow> gas_step T A st st'"
| elsewhere: "unat (balance (Fung A) (currency st) (account_id T)) \<le> unat (balance (Fung A) c (account_id T)) \<Longrightarrow>
    gas_step T A st (st\<lparr>currency := c\<rparr>)"

text \<open>A run, with the number of its steps that empty the pool.\<close>

inductive gas_run ::
  "('a, 'c, 'o, 'i) PrepaidConfig \<Rightarrow> ('a, 'c, 'a PrepaidStorage, 'cr, 'o) Adapter \<Rightarrow> nat \<Rightarrow>
   ('a, 'c, 'a PrepaidStorage, 'cr) PayState \<Rightarrow> ('a, 'c, 'a PrepaidStorage, 'cr) PayState \<Rightarrow> bool"
  for T A where
  start: "gas_run T A 0 st st"
| more: "gas_run T A n st st1 \<Longrightarrow> gas_step T A st1 st2 \<Longrightarrow>
    gas_run T A (if empties A st1 st2 then Suc n else n) st st2"

definition gas_inv where
  "gas_inv A gap st \<longleftrightarrow> credits_finite (prepaid st) \<and> backed A total_credit gap st"

lemma gas_call_inv:
  assumes "adapter_on T A" and "gas_call T A st st'" and "gas_inv A gap st"
  shows "gas_inv A (gap + dust_gap A st st') st'"
  using assms(2,3)
proof (induction rule: gas_call.induct)
  case (buy og b amount st p c)
  then obtain spo where "spo \<noteq> account_id T" and s: "purchase_for T spo b amount (prepaid st, currency st) = Inr (p, c)"
    by (auto simp: purchase_def result_simps)
  with purchase_for_Inr(2,4) [OF assms(1) s] buy.prems assms(1) show ?case
    by (auto simp: gas_inv_def backed_def bal_def adapter_on_def dest!: meta_spec [of _ "account_id T"])
next
  case (charge who fee tip st r st')
  with prepaid.backed_withdraw [of A T who st gap fee tip r st'] assms(1) show ?case
    by (simp add: gas_inv_def adapter_on_def)
next
  case (settle corrected tip li st r st')
  with prepaid.backed_settle [of A T st gap corrected tip li r st'] assms(1) show ?case
    by (simp add: gas_inv_def adapter_on_def backed_def)
qed

lemma gas_step_inv:
  assumes "adapter_on T A" and "gas_step T A st st'" and "gas_inv A gap st"
  shows "gas_inv A (gap + dust_gap A st st') st'"
  using assms(2,3)
proof (cases rule: gas_step.cases)
  case call
  from gas_call_inv [OF assms(1) this assms(3)] show ?thesis .
next
  case (elsewhere c)
  with assms(1,3) show ?thesis by (auto simp: gas_inv_def backed_def bal_def adapter_on_def)
qed

lemma gas_run_inv:
  assumes "adapter_on T A" and "gas_run T A n st st'" and "gas_inv A 0 st"
  shows "gas_inv A (n * (unat (minimum_balance (Fung A)) - 1)) st'"
  using assms(2,3)
proof (induction rule: gas_run.induct)
  case (more n st st1 st2)
  from gas_step_inv [OF assms(1) more(2) more.IH [OF more.prems]] show ?case
    by (auto simp: add.commute)
qed simp

subsection \<open>A sample run\<close>

definition gas_config :: "(nat, unit vault, nat, nat) PrepaidConfig" where
  "gas_config =
     \<lparr>PSystem = sample_system, PCurrency = fungible.truncate sample_balanced, PalletId = 99,
      into_account_truncating = id, MinPurchase = 10\<rparr>"

definition gas_adapter :: "(nat, unit vault, nat PrepaidStorage, u128, nat) Adapter" where
  "gas_adapter = \<lparr>Sys = sample_system, Fung = sample_balanced, Prep = prepaid_gas gas_config\<rparr>"

definition gas_start :: "(nat, unit vault, nat PrepaidStorage, u128) PayState" where
  "gas_start =
     \<lparr>currency = \<lparr>vault_clock = 0, vault_free = (\<lambda>_. 0)(11 := 1000, 12 := 50), vault_held = (\<lambda>_ _. 0)\<rparr>,
      prepaid = empty_prepaid, handed = [], gas_events = []\<rparr>"

definition gas_bought :: "(nat, unit vault, nat PrepaidStorage, u128) PayState" where
  "gas_bought =
     (case purchase gas_config 11 12 100 (prepaid gas_start, currency gas_start) of
        Inl _ \<Rightarrow> gas_start | Inr (p, c) \<Rightarrow> gas_start\<lparr>prepaid := p, currency := c\<rparr>)"

lemmas gas_sample = gas_config_def gas_adapter_def gas_start_def gas_bought_def empty_prepaid_def
  purchase_def purchase_for_def ensure_pallet_account_def account_id_def remaining_credit_def set_credit_def
  move_funds_def debit_def credit_def saturating_add_def saturating_sub_def Let_def fungible.truncate_def

lemma gas_sample_on: "adapter_on gas_config gas_adapter"
  using sample_credit_laws sample_transfer
  by (simp add: adapter_on_def gas_config_def gas_adapter_def fungible.truncate_def transfer_law_def)

lemma gas_sample_purchase:
  "\<exists>p c. purchase gas_config 11 12 100 (prepaid gas_start, currency gas_start) = Inr (p, c) \<and>
     gas_bought = gas_start\<lparr>prepaid := p, currency := c\<rparr>"
  by (simp add: gas_sample)

lemma gas_sample_run: "gas_run gas_config gas_adapter 0 gas_start gas_bought"
proof -
  obtain p c where "purchase gas_config 11 12 100 (prepaid gas_start, currency gas_start) = Inr (p, c)"
    "gas_bought = gas_start\<lparr>prepaid := p, currency := c\<rparr>"
    using gas_sample_purchase by blast
  moreover have "ensure_signed (PSystem gas_config) 11 \<noteq> Some (account_id gas_config)"
    by (simp add: gas_config_def account_id_def)
  ultimately have "gas_step gas_config gas_adapter gas_start gas_bought"
    using gas_call.buy [of gas_config 11 12 100 gas_start p c gas_adapter] by (auto intro: gas_step.call)
  from gas_run.more [OF gas_run.start this] show ?thesis
    by (simp add: empties_def bal_def gas_adapter_def gas_start_def gas_config_def account_id_def)
qed

lemma gas_start_inv: "gas_inv gas_adapter 0 gas_start"
  by (simp add: gas_inv_def backed_def credits_finite_def total_credit_def gas_start_def empty_prepaid_def)

lemma gas_sample_states:
  "remaining_credit 12 (prepaid gas_bought) = 100" "vault_free (currency gas_bought) 99 = 100"
  "vault_free (currency gas_bought) 12 = 50"
  by (simp_all add: gas_sample)

subsection \<open>Properties\<close>

text \<open>C15. Prepaid credit is covered: over any run of purchases, fee withdrawals (failed ones included),
  settlements and activity elsewhere, the credit outstanding over all accounts never exceeds the balance
  of the pallet's account, if it did not at the start, by more than the dust burnt: less than the
  minimum balance for each of the \<open>n\<close> steps of the run that emptied that account. A run that never
  empties it keeps the credit covered in full.\<close>

theorem prepaid_credit_covered:
  assumes "adapter_on T A" and "gas_run T A n st st'"
    and "finite (dom (PrepaidCredits (prepaid st)))"
    and "total_credit (prepaid st) \<le> unat (balance (Fung A) (currency st) (account_id T))"
  shows "total_credit (prepaid st') \<le>
    unat (balance (Fung A) (currency st') (account_id T)) + n * (unat (minimum_balance (Fung A)) - 1)"
proof -
  have "gas_inv A 0 st" using assms by (simp add: gas_inv_def credits_finite_def backed_def bal_def adapter_on_def)
  from gas_run_inv [OF assms(1,2) this] assms(1) show ?thesis
    by (simp add: gas_inv_def backed_def bal_def adapter_on_def)
qed

theorem prepaid_credit_covered_witness:
  "total_credit (prepaid gas_bought) \<le> unat (vault_free (currency gas_bought) 99)"
  using prepaid_credit_covered [OF gas_sample_on gas_sample_run] gas_start_inv
  by (simp add: gas_inv_def backed_def bal_def credits_finite_def gas_adapter_def gas_config_def account_id_def)

text \<open>C16. A fee paid from the native balance is conserved: after withdrawal and settlement the payer
  has lost exactly the value handed on, no other balance and no prepaid credit moved, and the value
  is the tip plus the corrected fee (at most what was withdrawn), or everything that was withdrawn
  when the difference could not be given back.\<close>

theorem native_fee_conserved:
  assumes "credit_laws (Fung A)" and "Prep A = prepaid_gas T" and "fee \<noteq> 0"
    and "\<not> (saturating_sub fee tip \<noteq> 0 \<and> saturating_sub fee tip \<le> remaining_credit who (prepaid st))"
    and "withdraw_fee A who fee tip st = (Inr li, st1)"
    and "correct_and_deposit_fee A corrected tip li st1 = (r, st2)"
  shows "r = Inr () \<and> prepaid st2 = prepaid st \<and>
    (\<exists>hs. handed st2 = handed st @ hs \<and>
       (\<forall>a. bal A st2 a + (if a = who then value_of A hs else 0) = bal A st a) \<and>
       value_of A hs \<in>
         {unat fee, min (unat fee) (unat tip) + min (unat fee - unat tip) (unat corrected - unat tip)})"
  using assms by (intro prepaid.native_accounting) (simp_all add: prepaid.pays_prepaid_def)

theorem native_fee_conserved_witness:
  "\<exists>li st1 r st2 hs. withdraw_fee gas_adapter 11 20 5 gas_start = (Inr li, st1) \<and>
     correct_and_deposit_fee gas_adapter 15 5 li st1 = (r, st2) \<and> handed st2 = hs \<and>
     bal gas_adapter st2 11 + value_of gas_adapter hs = 1000"
proof -
  obtain li st1 where w: "withdraw_fee gas_adapter 11 20 5 gas_start = (Inr li, st1)"
    by (simp add: withdraw_fee_def gas_sample)
  obtain r st2 where c: "correct_and_deposit_fee gas_adapter 15 5 li st1 = (r, st2)" by fastforce
  have l: "credit_laws (Fung gas_adapter)" "Prep gas_adapter = prepaid_gas gas_config"
    by (simp_all add: gas_adapter_def sample_credit_laws)
  have "remaining_credit 11 (prepaid gas_start) = 0" by (simp add: gas_sample)
  with native_fee_conserved [OF l _ _ w c] obtain hs where h: "handed st2 = handed gas_start @ hs"
    and b: "\<forall>a. bal gas_adapter st2 a + (if a = 11 then value_of gas_adapter hs else 0) =
      bal gas_adapter gas_start a"
    by (auto simp: saturating_sub_def)
  have "bal gas_adapter gas_start 11 = 1000" "handed gas_start = []"
    by (simp_all add: bal_def gas_adapter_def gas_start_def)
  with b [rule_format, of 11] h w c show ?thesis by auto
qed

text \<open>C17. A fee paid from prepaid credit is conserved: the payer's balance gives exactly the tip, the
  payer's credit and the pool give the same amount, which is the corrected fee (at most what was
  withdrawn) or the whole inclusion fee when the difference could not be given back, and the sum of
  both is handed on. No other balance and no other credit moves. Beyond that only dust can be lost: less
  than the minimum balance, and only when the withdrawal emptied the pool.\<close>

theorem prepaid_fee_conserved:
  assumes "credit_laws (Fung A)" and "Prep A = prepaid_gas T" and "fee \<noteq> 0"
    and "saturating_sub fee tip \<noteq> 0" and "saturating_sub fee tip \<le> remaining_credit who (prepaid st)"
    and "withdraw_fee A who fee tip st = (Inr li, st1)"
    and "correct_and_deposit_fee A corrected tip li st1 = (r, st2)"
  shows "r = Inr () \<and>
    (\<exists>hs kept dust. handed st2 = handed st @ hs \<and> value_of A hs = kept + unat tip \<and>
       kept \<in> {unat fee - unat tip, min (unat corrected - unat tip) (unat fee - unat tip)} \<and>
       (\<forall>a. bal A st2 a + (if a = who then unat tip else 0) + (if a = account_id T then kept + dust else 0)
          = bal A st a) \<and>
       (dust = 0 \<or> bal A st1 (account_id T) = 0 \<and> dust < unat (minimum_balance (Fung A))) \<and>
       (\<forall>a. unat (remaining_credit a (prepaid st2)) + (if a = who then kept else 0) =
          unat (remaining_credit a (prepaid st))))"
  using prepaid.prepaid_accounting [of A T fee who tip st li st1 corrected r st2] assms
  unfolding prepaid.pays_prepaid_def prepaid_gas_fields by blast

theorem prepaid_fee_conserved_witness:
  "\<exists>li st1 r st2 hs kept. withdraw_fee gas_adapter 12 25 5 gas_bought = (Inr li, st1) \<and>
     correct_and_deposit_fee gas_adapter 15 5 li st1 = (r, st2) \<and> handed st2 = hs \<and>
     value_of gas_adapter hs = kept + 5 \<and> unat (remaining_credit 12 (prepaid st2)) + kept = 100"
proof -
  have l: "credit_laws (Fung gas_adapter)" "Prep gas_adapter = prepaid_gas gas_config"
    by (simp_all add: gas_adapter_def sample_credit_laws)
  have "\<not> isl (fst (withdraw_fee gas_adapter 12 25 5 gas_bought))"
    by (simp add: withdraw_fee_def withdraw_tip_def can_withdraw_native_def native_credit_def
        withdraw_credit_def gas_sample)
  then obtain li st1 where w: "withdraw_fee gas_adapter 12 25 5 gas_bought = (Inr li, st1)"
    by (cases "withdraw_fee gas_adapter 12 25 5 gas_bought", cases "fst (withdraw_fee gas_adapter 12 25 5 gas_bought)") auto
  obtain r st2 where c: "correct_and_deposit_fee gas_adapter 15 5 li st1 = (r, st2)" by fastforce
  have g: "(25 :: u128) \<noteq> 0" "saturating_sub (25 :: u128) 5 \<noteq> 0"
    "saturating_sub 25 5 \<le> remaining_credit 12 (prepaid gas_bought)"
    by (simp_all add: saturating_sub_def gas_sample_states(1))
  from prepaid_fee_conserved [OF l g w c] obtain hs kept where
    h: "handed st2 = handed gas_bought @ hs" "value_of gas_adapter hs = kept + unat (5 :: u128)"
    and k: "\<forall>a. unat (remaining_credit a (prepaid st2)) + (if a = 12 then kept else 0) =
      unat (remaining_credit a (prepaid gas_bought))"
    by blast
  have "handed gas_bought = []" by (simp add: gas_sample)
  with h k [rule_format, of 12] w c show ?thesis by (simp add: gas_sample_states(1))
qed

text \<open>C18. A fee that validation found payable is paid: when the pool covers the credit outstanding,
  \<^verbatim>\<open>withdraw_fee\<close> succeeds in every state in which \<^verbatim>\<open>can_withdraw_fee\<close> accepts.\<close>

theorem payable_fee_is_paid:
  assumes "withdraw_progress_law (Fung A) (account_id T)" and "who \<noteq> account_id T"
    and "Prep A = prepaid_gas T" and "credits_finite (prepaid st)"
    and "total_credit (prepaid st) \<le> unat (balance (Fung A) (currency st) (account_id T))"
    and "can_withdraw_fee A who fee tip st = Inr ()"
  shows "\<exists>li st'. withdraw_fee A who fee tip st = (Inr li, st')"
  using assms by (intro prepaid.payable_is_paid [of _ T]) (simp_all add: backed_def bal_def)

theorem payable_fee_is_paid_witness:
  "\<exists>li st'. withdraw_fee gas_adapter 12 30 10 gas_bought = (Inr li, st')"
proof (rule payable_fee_is_paid [of gas_adapter gas_config])
  show "can_withdraw_fee gas_adapter 12 30 10 gas_bought = Inr ()"
    by (simp add: can_withdraw_fee_def can_withdraw_native_def gas_sample)
  show "credits_finite (prepaid gas_bought)" by (simp add: credits_finite_def gas_sample)
  show "total_credit (prepaid gas_bought) \<le>
      unat (balance (Fung gas_adapter) (currency gas_bought) (account_id gas_config))"
    using gas_run_inv [OF gas_sample_on gas_sample_run gas_start_inv]
    by (simp add: gas_inv_def backed_def bal_def gas_adapter_def)
qed (simp_all add: gas_adapter_def sample_progress gas_config_def account_id_def)

text \<open>C19. A fee withdrawal that fails takes nothing: every credit, every balance and the value handed
  on are what they were, also when the pool could not pay after the credit had been taken.\<close>

theorem failed_withdrawal_takes_nothing:
  assumes "withdraw_progress_law (Fung A) (account_id T)" and "who \<noteq> account_id T"
    and "Prep A = prepaid_gas T" and "withdraw_fee A who fee tip st = (Inl e, st')"
  shows "remaining_credit a (prepaid st') = remaining_credit a (prepaid st) \<and>
    currency st' = currency st \<and> handed st' = handed st"
  using prepaid.error_keeps_credit [of A T who fee tip st e st' a] assms by simp

theorem failed_withdrawal_takes_nothing_witness:
  "\<exists>e st'. withdraw_fee gas_adapter 12 200 10 gas_bought = (Inl e, st') \<and>
     remaining_credit 12 (prepaid st') = 100"
proof -
  have w: "withdraw_fee gas_adapter 12 200 10 gas_bought = (Inl (Invalid Payment), gas_bought)"
    by (simp add: withdraw_fee_def gas_sample)
  have "withdraw_progress_law (Fung gas_adapter) (account_id gas_config)" "12 \<noteq> account_id gas_config"
    "Prep gas_adapter = prepaid_gas gas_config"
    by (simp_all add: gas_adapter_def sample_progress gas_config_def account_id_def)
  from failed_withdrawal_takes_nothing [OF this w, of 12] w show ?thesis
    by (simp add: gas_sample_states)
qed

text \<open>C20. A purchase moves exactly its amount: it is accepted only for a positive amount of at least
  the minimum, the sponsor pays it into the pallet's account, the beneficiary's credit grows by it (up
  to the largest balance) and no other credit and no other balance changes.\<close>

theorem purchase_exact:
  assumes "adapter_on T A" and "purchase T og b amount (p, c) = Inr (p', c')"
  shows "\<exists>spo. ensure_signed (PSystem T) og = Some spo \<and> amount \<noteq> 0 \<and> MinPurchase T \<le> amount \<and>
    (\<forall>a. unat (balance (Fung A) c' a) + (if a = spo then unat amount else 0) =
       unat (balance (Fung A) c a) + (if a = account_id T then unat amount else 0)) \<and>
    (\<forall>a. remaining_credit a p' =
       (if a = b then saturating_add (remaining_credit b p) amount else remaining_credit a p))"
proof -
  from assms(2) obtain spo where "ensure_signed (PSystem T) og = Some spo"
    and s: "purchase_for T spo b amount (p, c) = Inr (p', c')"
    by (auto simp: purchase_def result_simps)
  with purchase_for_Inr(1-3) [OF assms(1) s] show ?thesis by blast
qed

theorem purchase_exact_witness:
  "\<exists>p c. purchase gas_config 11 12 100 (prepaid gas_start, currency gas_start) = Inr (p, c) \<and>
     remaining_credit 12 p = saturating_add (remaining_credit 12 (prepaid gas_start)) 100"
proof -
  obtain p c where "purchase gas_config 11 12 100 (prepaid gas_start, currency gas_start) = Inr (p, c)"
    using gas_sample_purchase by blast
  with purchase_exact [OF gas_sample_on this] show ?thesis by fastforce
qed

text \<open>C23. The dust of the pool can leave credit that nothing covers. When the pool covers exactly the credit
  outstanding and a fee leaves it with less than the minimum balance, the rest is burnt: credit is still
  outstanding, the pool is empty, and every fee that a holder of that credit could pay with it passes
  validation and is then refused, although nothing is taken from the payer's own balance.\<close>

theorem dust_leaves_credit_uncovered:
  assumes "credit_laws (Fung A)" and "reap_law (Fung A) (account_id T)" and "Prep A = prepaid_gas T"
    and "credits_finite (prepaid st)" and "fee \<noteq> 0" and "saturating_sub fee tip \<noteq> 0"
    and "saturating_sub fee tip \<le> remaining_credit who (prepaid st)"
    and "total_credit (prepaid st) = unat (balance (Fung A) (currency st) (account_id T))"
    and "unat (saturating_sub fee tip) < total_credit (prepaid st)"
    and "total_credit (prepaid st) < unat (saturating_sub fee tip) + unat (minimum_balance (Fung A))"
    and "withdraw_fee A who fee tip st = (Inr li, st')"
  shows "0 < total_credit (prepaid st') \<and> balance (Fung A) (currency st') (account_id T) = 0 \<and>
    (\<forall>who' fee'. fee' \<noteq> 0 \<longrightarrow> fee' \<le> remaining_credit who' (prepaid st') \<longrightarrow>
       can_withdraw_fee A who' fee' 0 st' = Inr () \<and>
       fst (withdraw_fee A who' fee' 0 st') = Inl (Invalid Payment))"
  using prepaid.dust_uncovers [of A T st fee tip who li st'] assms
  by (simp add: bal_def) (simp add: word_unat_eq_iff)

definition dusty_adapter :: "(nat, unit vault, nat PrepaidStorage, u128, nat) Adapter" where
  "dusty_adapter = \<lparr>Sys = sample_system, Fung = dusty_balanced 30, Prep = prepaid_gas gas_config\<rparr>"

theorem dust_leaves_credit_uncovered_witness:
  "\<exists>li st'. withdraw_fee dusty_adapter 12 80 0 gas_bought = (Inr li, st') \<and>
     0 < total_credit (prepaid st') \<and> vault_free (currency st') 99 = 0"
proof -
  have "\<not> isl (fst (withdraw_fee dusty_adapter 12 80 0 gas_bought))"
    by (simp add: withdraw_fee_def withdraw_tip_def can_withdraw_native_def native_credit_def
        withdraw_credit_def dusty_adapter_def dusty_withdraw_def gas_sample)
  then obtain li st' where w: "withdraw_fee dusty_adapter 12 80 0 gas_bought = (Inr li, st')"
    by (cases "withdraw_fee dusty_adapter 12 80 0 gas_bought", cases "fst (withdraw_fee dusty_adapter 12 80 0 gas_bought)") auto
  have l: "credit_laws (Fung dusty_adapter)" "reap_law (Fung dusty_adapter) (account_id gas_config)"
    "Prep dusty_adapter = prepaid_gas gas_config" "credits_finite (prepaid gas_bought)"
    by (simp_all add: dusty_adapter_def dusty_credit_laws dusty_reap credits_finite_def gas_sample)
  have t: "total_credit (prepaid gas_bought) = 100"
    by (simp add: total_credit_def storage_sum_def gas_sample)
  have "saturating_sub 80 0 = (80 :: u128)" by (simp add: saturating_sub_def)
  with dust_leaves_credit_uncovered [OF l, of 80 0 12 li st'] w t show ?thesis
    by (auto simp: gas_sample_states dusty_adapter_def gas_config_def account_id_def)
qed

end
