(* ===== verification/Hft_Types.thy ===== *)
theory Hft_Types
  imports Frame_Interface "HOL-Library.Char_ord"
begin

text \<open>
  \<^verbatim>\<open>pallet-hyper-fungible-token\<close>, the types (\<^verbatim>\<open>src/types.rs\<close>, \<^verbatim>\<open>src/error.rs\<close>) and the
  amount conversion (\<^verbatim>\<open>src/impls.rs\<close>).

  A computation of this pallet can return, fail or panic, and what it wrote before a failure stays
  unless a storage transaction is around it: \<open>outcome\<close> has the three cases, and \<open>then_do\<close> is the
  \<^verbatim>\<open>?\<close> operator on computations over a state. Byte strings are lists of bytes; \<^verbatim>\<open>U256\<close> is a
  word whose multiplication and division panic as those of \<^verbatim>\<open>primitive_types\<close> do, and
  \<^verbatim>\<open>10u128.pow\<close> wraps, as it does in the \<^verbatim>\<open>release\<close> profile of the workspace, which leaves
  overflow checks off. The decimal
  printing and parsing of the conversion are modelled digit by digit.
\<close>

datatype ('e, 'x) outcome = Done 'x | Fail 'e | Panic

definition then_do ::
  "('e, 'x) outcome \<times> 's \<Rightarrow> ('x \<Rightarrow> 's \<Rightarrow> ('e, 'y) outcome \<times> 's) \<Rightarrow> ('e, 'y) outcome \<times> 's" where
  "then_do r f =
     (case r of
        (Done x, s) \<Rightarrow> f x s
      | (Fail e, s) \<Rightarrow> (Fail e, s)
      | (Panic, s) \<Rightarrow> (Panic, s))"

text \<open>The same operator in a dispatchable, which runs in a storage transaction: a failure carries no
  state.\<close>

definition outcome_then :: "('e, 'x) outcome \<Rightarrow> ('x \<Rightarrow> ('e, 'y) outcome) \<Rightarrow> ('e, 'y) outcome" where
  "outcome_then r f = (case r of Done x \<Rightarrow> f x | Fail e \<Rightarrow> Fail e | Panic \<Rightarrow> Panic)"

definition of_result :: "('d \<Rightarrow> 'e) \<Rightarrow> 'd + 'x \<Rightarrow> ('e, 'x) outcome" where
  "of_result g r = (case r of Inl d \<Rightarrow> Fail (g d) | Inr x \<Rightarrow> Done x)"

definition of_option :: "'e \<Rightarrow> 'x option \<Rightarrow> ('e, 'x) outcome" where
  "of_option e r = (case r of None \<Rightarrow> Fail e | Some x \<Rightarrow> Done x)"

fun map_fail :: "('d \<Rightarrow> 'e) \<Rightarrow> ('d, 'x) outcome \<Rightarrow> ('e, 'x) outcome" where
  "map_fail g (Done x) = Done x"
| "map_fail g (Fail d) = Fail (g d)"
| "map_fail g Panic = Panic"

text \<open>\<^verbatim>\<open>map_err\<close> and \<^verbatim>\<open>ok_or\<close> followed by \<^verbatim>\<open>?\<close>, with the state they leave alone.\<close>

definition try_result :: "('d \<Rightarrow> 'e) \<Rightarrow> 'd + 'x \<Rightarrow> 's \<Rightarrow> ('e, 'x) outcome \<times> 's" where
  "try_result g r s = (case r of Inl d \<Rightarrow> (Fail (g d), s) | Inr x \<Rightarrow> (Done x, s))"

definition try_option :: "'e \<Rightarrow> 'x option \<Rightarrow> 's \<Rightarrow> ('e, 'x) outcome \<times> 's" where
  "try_option e r s = (case r of None \<Rightarrow> (Fail e, s) | Some x \<Rightarrow> (Done x, s))"

subsection \<open>Types\<close>

record Message =
  msg_from :: "byte list"
  msg_to :: "byte list"
  msg_amount :: u256
  msg_data :: "byte list"

record ('k, 'm) SendParams =
  asset_id :: 'k
  destination :: 'm
  recipient :: "byte list"
  send_amount :: u128
  timeout :: u64
  relayer_fee :: u128
  call_data :: "byte list option"

record ChainConfig =
  token_contract :: "byte list"
  decimals :: u8

text \<open>A \<^verbatim>\<open>BTreeMap\<close> is the list of its entries in the order of iteration.\<close>

record ('k, 'm) TokenRegistration =
  local_id :: 'k
  native :: bool
  chains :: "('m \<times> ChainConfig) list"

record ('k, 'm) TokenUpdate =
  update_asset_id :: 'k
  add_chains :: "('m \<times> ChainConfig) list"
  remove_chains :: "'m list"

record SubstrateCalldata =
  signature :: "byte list option"
  runtime_call :: "byte list"

datatype MultiSignature = Ed25519 "byte list" | Sr25519 "byte list" | Ecdsa "byte list" | Eth "byte list"

text \<open>The error of the ISMP module; \<open>'e\<close> are the errors of the libraries it wraps.\<close>

datatype ('m, 'e) HftError =
    UnknownSourceContract 'm
  | DecodeError 'e
  | InvalidRecipientLength nat
  | DecimalsNotConfigured 'm
  | InvalidAmountConversion string
  | TransferFailed 'e
  | MintFailed 'e
  | CalldataDecodeError 'e
  | SignatureDecodeError 'e
  | SignatureVerificationFailed
  | EcdsaRecoveryFailed
  | EthSignatureUnsupported
  | RuntimeCallDecodeError 'e
  | CallDispatchError 'e
  | ResponsesNotSupported
  | UnknownContractOnTimeout
  | InvalidSenderLength nat
  | UnsupportedTimeoutType

text \<open>The conversion of an EVM address into an account: the trait's implementation for \<^verbatim>\<open>()\<close>, over
  the conversion of 32 bytes into an account.\<close>

definition evm_to_substrate :: "(byte list \<Rightarrow> 'a) \<Rightarrow> byte list \<Rightarrow> 'a" where
  "evm_to_substrate account_from addr = account_from (replicate 12 0 @ addr)"

subsection \<open>Decimal printing and parsing\<close>

fun dec_string :: "nat \<Rightarrow> string" where
  "dec_string n =
     (if n < 10 then [char_of (48 + n)] else dec_string (n div 10) @ [char_of (48 + n mod 10)])"

declare dec_string.simps [simp del]

datatype ParseIntError = Empty | InvalidDigit | PosOverflow

text \<open>Its \<^verbatim>\<open>Debug\<close> form.\<close>

fun debug_ParseIntError :: "ParseIntError \<Rightarrow> string" where
  "debug_ParseIntError Empty = ''ParseIntError { kind: Empty }''"
| "debug_ParseIntError InvalidDigit = ''ParseIntError { kind: InvalidDigit }''"
| "debug_ParseIntError PosOverflow = ''ParseIntError { kind: PosOverflow }''"

definition digit_value :: "char \<Rightarrow> nat option" where
  "digit_value c = (if 48 \<le> (of_char c :: nat) \<and> (of_char c :: nat) \<le> 57 then Some (of_char c - 48) else None)"

text \<open>The loop of \<^verbatim>\<open>u128::from_str\<close>: the multiplication is checked, then the digit, then the overflow
  of both steps is reported.\<close>

fun parse_digits :: "string \<Rightarrow> u128 \<Rightarrow> ParseIntError + u128" where
  "parse_digits [] acc = Inr acc"
| "parse_digits (c # cs) acc =
     (case digit_value c of
        None \<Rightarrow> Inl InvalidDigit
      | Some d \<Rightarrow>
          if unat acc * 10 < 2 ^ 128 \<and> unat acc * 10 + d < 2 ^ 128
          then parse_digits cs (acc * 10 + word_of_nat d)
          else Inl PosOverflow)"

definition parse_u128 :: "string \<Rightarrow> ParseIntError + u128" where
  "parse_u128 s =
     (case s of
        [] \<Rightarrow> Inl Empty
      | c # cs \<Rightarrow>
          if cs = [] \<and> (c = CHR ''+'' \<or> c = CHR ''-'') then Inl InvalidDigit
          else if c = CHR ''+'' then parse_digits cs 0
          else parse_digits s 0)"

subsection \<open>Amounts\<close>

definition scale :: "u8 \<Rightarrow> u8 \<Rightarrow> u128" where
  "scale erc_decimals local_decimals = 10 ^ unat (saturating_sub erc_decimals local_decimals)"

definition convert_to_balance :: "u256 \<Rightarrow> u8 \<Rightarrow> u8 \<Rightarrow> (ParseIntError, u128) outcome" where
  "convert_to_balance v erc_decimals local_decimals =
     (let f = (ucast (scale erc_decimals local_decimals) :: u256) in
      if f = 0 then Panic
      else case parse_u128 (dec_string (unat (v div f))) of Inl e \<Rightarrow> Fail e | Inr x \<Rightarrow> Done x)"

definition convert_to_erc20 :: "u128 \<Rightarrow> u8 \<Rightarrow> u8 \<Rightarrow> ('e, u256) outcome" where
  "convert_to_erc20 v erc_decimals local_decimals =
     (let f = (ucast (scale erc_decimals local_decimals) :: u256); x = (ucast v :: u256) in
      if unat x * unat f < 2 ^ 256 then Done (x * f) else Panic)"

subsection \<open>Facts on the combinators\<close>

lemma then_do_simps [simp]:
  "then_do (Done x, s) f = f x s" "then_do (Fail e, s) f = (Fail e, s)" "then_do (Panic, s) f = (Panic, s)"
  by (simp_all add: then_do_def)

lemma then_do_Done [result_simps]:
  "then_do r f = (Done y, s') \<longleftrightarrow> (\<exists>x s. r = (Done x, s) \<and> f x s = (Done y, s'))"
  by (cases r; cases "fst r") (auto simp: then_do_def)

lemma then_do_map_fail:
  "then_do (map_fail g r, s) f =
     (case r of Done x \<Rightarrow> f x s | Fail d \<Rightarrow> (Fail (g d), s) | Panic \<Rightarrow> (Panic, s))"
  by (cases r) simp_all

lemma outcome_then_simps [simp]:
  "outcome_then (Done x) f = f x" "outcome_then (Fail e) f = Fail e" "outcome_then Panic f = Panic"
  by (simp_all add: outcome_then_def)

lemma outcome_then_Done [result_simps]:
  "outcome_then r f = Done y \<longleftrightarrow> (\<exists>x. r = Done x \<and> f x = Done y)"
  by (cases r) auto

lemma outcome_then_Fail [result_simps]:
  "outcome_then r f = Fail e \<longleftrightarrow> r = Fail e \<or> (\<exists>x. r = Done x \<and> f x = Fail e)"
  by (cases r) auto

lemma outcome_then_Panic [result_simps]:
  "outcome_then r f = Panic \<longleftrightarrow> r = Panic \<or> (\<exists>x. r = Done x \<and> f x = Panic)"
  by (cases r) auto

lemma of_result_simps [simp]: "of_result g (Inl d) = Fail (g d)" "of_result g (Inr x) = Done x"
  by (simp_all add: of_result_def)

lemma of_result_eq [result_simps]:
  "of_result g r = Done x \<longleftrightarrow> r = Inr x" "of_result g r = Fail e \<longleftrightarrow> (\<exists>d. r = Inl d \<and> g d = e)"
  "of_result g r \<noteq> Panic"
  by (cases r; simp)+

lemma of_option_simps [simp]: "of_option e None = Fail e" "of_option e (Some x) = Done x"
  by (simp_all add: of_option_def)

lemma of_option_eq [result_simps]:
  "of_option e r = Done x \<longleftrightarrow> r = Some x" "of_option e r = Fail e' \<longleftrightarrow> r = None \<and> e = e'"
  "of_option e r \<noteq> Panic"
  by (cases r; auto)+

lemma map_fail_eq [result_simps]:
  "map_fail g r = Done x \<longleftrightarrow> r = Done x" "map_fail g r = Panic \<longleftrightarrow> r = Panic"
  by (cases r; simp)+

lemma try_result_simps [simp]:
  "try_result g (Inl d) s = (Fail (g d), s)" "try_result g (Inr x) s = (Done x, s)"
  by (simp_all add: try_result_def)

lemma try_result_Done [result_simps]: "try_result g r s = (Done x, s') \<longleftrightarrow> r = Inr x \<and> s' = s"
  by (cases r) auto

lemma try_option_simps [simp]:
  "try_option e None s = (Fail e, s)" "try_option e (Some x) s = (Done x, s)"
  by (simp_all add: try_option_def)

lemma try_option_Done [result_simps]: "try_option e r s = (Done x, s') \<longleftrightarrow> r = Some x \<and> s' = s"
  by (cases r) auto

end
