(* ===== verification/Hft_Conversion.thy ===== *)
theory Hft_Conversion
  imports Hft_Types
begin

text \<open>
  The amount conversion of \<^verbatim>\<open>src/impls.rs\<close>: printing a number in decimal and parsing it is the
  checked narrowing to 128 bits, so \<open>convert_to_balance\<close> is a division and \<open>convert_to_erc20\<close> a
  multiplication by the power of ten of the difference of the decimals, exact as long as that power
  fits in 128 bits.
\<close>

subsection \<open>Decimal digits\<close>

lemma of_char_digit: "d < 10 \<Longrightarrow> (of_char (char_of (48 + d) :: char) :: nat) = 48 + d"
  by simp

lemma digit_value_digit: "d < 10 \<Longrightarrow> digit_value (char_of (48 + d)) = Some d"
  unfolding digit_value_def by (simp add: of_char_digit)

lemma dec_string_nonempty: "dec_string n \<noteq> []"
  by (subst dec_string.simps) simp

lemma dec_string_digits: "c \<in> set (dec_string n) \<Longrightarrow> digit_value c \<noteq> None"
proof (induction n rule: dec_string.induct)
  case (1 n)
  show ?case
  proof (cases "n < 10")
    case True
    with 1(2) show ?thesis by (subst (asm) dec_string.simps) (simp add: digit_value_digit)
  next
    case False
    with 1(2) have "c \<in> set (dec_string (n div 10)) \<or> c = char_of (48 + n mod 10)"
      by (subst (asm) dec_string.simps) auto
    with 1(1) False show ?thesis by (auto simp: digit_value_digit)
  qed
qed

lemma sign_is_no_digit: "digit_value CHR ''+'' = None" "digit_value CHR ''-'' = None"
  by (simp_all add: digit_value_def)

lemma parse_digits_append:
  "parse_digits (xs @ ys) acc =
     (case parse_digits xs acc of Inl e \<Rightarrow> Inl e | Inr a \<Rightarrow> parse_digits ys a)"
  by (induction xs arbitrary: acc) (auto split: option.splits)

lemma parse_digits_dec_string:
  "parse_digits (dec_string n) 0 = (if n < 2 ^ 128 then Inr (word_of_nat n) else Inl PosOverflow)"
proof (induction n rule: dec_string.induct)
  case (1 n)
  show ?case
  proof (cases "n < 10")
    case True
    then show ?thesis by (subst dec_string.simps) (simp add: digit_value_digit)
  next
    case False
    let ?q = "n div 10" and ?d = "n mod 10"
    have n: "?q * 10 + ?d = n" by simp
    have ih: "parse_digits (dec_string ?q) 0 = (if ?q < 2 ^ 128 then Inr (word_of_nat ?q) else Inl PosOverflow)"
      using 1 False by simp
    have str: "dec_string n = dec_string ?q @ [char_of (48 + ?d)]"
      using False by (subst dec_string.simps) simp
    show ?thesis
    proof (cases "?q < 2 ^ 128")
      case True
      have u: "unat (word_of_nat ?q :: u128) = ?q" using True by (simp add: unat_of_nat)
      have "(word_of_nat ?q * 10 + word_of_nat ?d :: u128) = word_of_nat n"
        by (metis n of_nat_add of_nat_mult of_nat_numeral)
      moreover have "?q * 10 < 2 ^ 128 \<and> ?q * 10 + ?d < 2 ^ 128 \<longleftrightarrow> n < 2 ^ 128"
        using n by linarith
      ultimately show ?thesis
        unfolding str parse_digits_append ih using True u by (simp add: digit_value_digit)
    next
      case False
      then have "\<not> n < 2 ^ 128" using n by linarith
      with False show ?thesis unfolding str parse_digits_append ih by simp
    qed
  qed
qed

lemma parse_u128_dec_string:
  "parse_u128 (dec_string n) = (if n < 2 ^ 128 then Inr (word_of_nat n) else Inl PosOverflow)"
proof -
  obtain c cs where s: "dec_string n = c # cs" using dec_string_nonempty [of n] by (cases "dec_string n") auto
  have "c \<noteq> CHR ''+''" "c \<noteq> CHR ''-''"
    using dec_string_digits [of c n] s sign_is_no_digit by auto
  then have "parse_u128 (dec_string n) = parse_digits (dec_string n) 0"
    by (simp add: parse_u128_def s)
  then show ?thesis by (simp only: parse_digits_dec_string)
qed

subsection \<open>The scale\<close>

definition decimals_gap :: "u8 \<Rightarrow> u8 \<Rightarrow> nat" where
  "decimals_gap e l = unat e - unat l"

lemma unat_scale: "unat (scale e l) = 10 ^ decimals_gap e l mod 2 ^ 128"
proof -
  have "scale e l = word_of_nat (10 ^ decimals_gap e l)"
    by (simp add: scale_def decimals_gap_def unat_saturating_sub)
  then show ?thesis by (simp only: unsigned_of_nat take_bit_eq_mod) simp
qed

lemma unat_scale_exact:
  assumes "decimals_gap e l \<le> 38"
  shows "unat (scale e l) = 10 ^ decimals_gap e l"
proof -
  have "(10 :: nat) ^ decimals_gap e l \<le> 10 ^ 38" using assms by (intro power_increasing) simp_all
  then have "(10 :: nat) ^ decimals_gap e l < 2 ^ 128" by (rule le_less_trans) simp
  then show ?thesis by (simp add: unat_scale)
qed

lemma unat_ucast_u256 [simp]: "unat (ucast (x :: u128) :: u256) = unat x"
proof -
  have "unat x < 2 ^ 256" using unat_bound [of x] by simp
  then show ?thesis by (simp add: unsigned_ucast_eq take_bit_nat_eq_self)
qed

lemma unat_ucast_scale: "unat (ucast (scale e l) :: u256) = unat (scale e l)"
  by (rule unat_ucast_u256)

subsection \<open>The conversions as arithmetic\<close>

lemma convert_to_erc20_eq:
  "\<exists>x. convert_to_erc20 v e l = Done x \<and> unat x = unat v * unat (scale e l)"
proof -
  have v: "unat (ucast v :: u256) = unat v" by (rule unat_ucast_u256)
  have "unat v * unat (scale e l) \<le> (2 ^ 128 - 1) * (2 ^ 128 - 1)"
    using unat_bound [of v] unat_bound [of "scale e l"] by (intro mult_le_mono) simp_all
  also have "\<dots> < 2 ^ 256" by simp
  finally have lt: "unat v * unat (scale e l) < 2 ^ 256" .
  have "unat (ucast v * ucast (scale e l) :: u256) = unat v * unat (scale e l)"
    unfolding unat_word_ariths v unat_ucast_scale using lt by simp
  with lt show ?thesis by (simp add: convert_to_erc20_def Let_def v unat_ucast_scale)
qed

lemma convert_to_erc20_total [simp]:
  fixes f :: 'f
  shows "convert_to_erc20 v e l \<noteq> (Panic :: ('f, u256) outcome)" "convert_to_erc20 v e l \<noteq> Fail f"
  using convert_to_erc20_eq [of v e l, where ?'a = 'f] by auto

lemma convert_to_balance_eq:
  "convert_to_balance v e l =
     (if unat (scale e l) = 0 then Panic
      else if unat v div unat (scale e l) < 2 ^ 128
      then Done (word_of_nat (unat v div unat (scale e l)))
      else Fail PosOverflow)"
proof -
  have z: "(ucast (scale e l) :: u256) = 0 \<longleftrightarrow> unat (scale e l) = 0"
    unfolding word_unat_eq_iff [of _ 0] unat_ucast_scale by simp
  have d: "unat (v div ucast (scale e l)) = unat v div unat (scale e l)"
    by (simp add: unat_div unat_ucast_scale)
  show ?thesis
    unfolding convert_to_balance_def Let_def z d parse_u128_dec_string by simp
qed

subsection \<open>The range of the scale\<close>

text \<open>The wrapped power of ten is zero from \<open>10 ^ 128\<close> on, and not before.\<close>

lemma two_power_dvd_ten_power: "(2 :: nat) ^ n dvd 10 ^ g \<longleftrightarrow> n \<le> g"
proof -
  have pow: "(10 :: nat) ^ g = 2 ^ g * 5 ^ g" by (simp flip: power_mult_distrib)
  have "coprime (2 :: nat) 5" by (simp add: coprime_iff_gcd_eq_1 gcd_non_0_nat)
  then have "coprime ((2 :: nat) ^ n) (5 ^ g)" by simp
  then have "(2 :: nat) ^ n dvd 10 ^ g \<longleftrightarrow> (2 :: nat) ^ n dvd 2 ^ g"
    unfolding pow by (rule coprime_dvd_mult_left_iff)
  also have "\<dots> \<longleftrightarrow> n \<le> g" by (simp add: dvd_power_iff)
  finally show ?thesis .
qed

lemma scale_zero_iff: "unat (scale e l) = 0 \<longleftrightarrow> 128 \<le> decimals_gap e l"
  unfolding unat_scale two_power_dvd_ten_power [symmetric] by (simp only: dvd_eq_mod_eq_0)

lemma convert_round_trip:
  assumes "decimals_gap e l < 128" "convert_to_erc20 v e l = (Done x :: ('b, u256) outcome)"
  shows "convert_to_balance x e l = Done v"
proof -
  obtain y where "convert_to_erc20 v e l = (Done y :: ('b, u256) outcome)" "unat y = unat v * unat (scale e l)"
    using convert_to_erc20_eq by blast
  with assms(2) have x: "unat x = unat v * unat (scale e l)" by simp
  moreover have nz: "unat (scale e l) \<noteq> 0" using assms(1) by (simp add: scale_zero_iff)
  ultimately have "unat x div unat (scale e l) = unat v" by simp
  with nz show ?thesis using unat_bound [of v] by (simp add: convert_to_balance_eq)
qed

end
