(* ===== verification/Hft.thy ===== *)
theory Hft
  imports Hft_Conversion
begin

text \<open>
  \<^verbatim>\<open>pallet-hyper-fungible-token\<close> (\<^verbatim>\<open>src/lib.rs\<close>, \<^verbatim>\<open>src/impls.rs\<close>,
  \<^verbatim>\<open>src/module.rs\<close>): the storage, the three dispatchables and the callbacks of the ISMP module.

  The storage is the record \<open>HftStorage\<close>: a field per storage item, the events of the pallet and
  \<open>hext\<close>, the storage of every other pallet. \<^verbatim>\<open>Config\<close> is the record \<open>HftConfig\<close>: the
  associated types and the code of other crates the pallet calls, over assets \<open>'k\<close>, state
  machines \<open>'m\<close>, request commitments \<open>'h\<close>, decoded runtime calls \<open>'l\<close> and library errors
  \<open>'e\<close>. A transfer, burn or mint that fails writes nothing, and a runtime call runs in a storage
  transaction, as every FRAME dispatchable does.

  A dispatchable returns an \<open>outcome\<close> with the state of its success: its failure is rolled back. A
  callback of the module is not a dispatchable, so it returns its outcome beside the state it leaves.
\<close>

subsection \<open>Storage\<close>

datatype ('a, 'k, 'm, 'h) HftEvent =
    TokenSent 'a "byte list" u128 'm 'h
  | TokenReceived 'a u128 'm
  | TokenRefunded 'a u128 'm
  | TokenRegistered 'k bool "'m list"

datatype HftPalletError =
    UnregisteredAsset
  | TokenContractNotFound
  | PalletAddressNotFound
  | DecimalsNotFound
  | AssetTransferError
  | DispatchErrorHft

datatype 'e DispatchError = BadOrigin | Module HftPalletError | Other 'e

record ('a, 'c, 'k, 'm, 'h) HftStorage =
  hext :: 'c
  TokenContracts :: "'m \<Rightarrow> 'k \<Rightarrow> byte list option"
  ContractToAsset :: "'m \<Rightarrow> byte list \<Rightarrow> 'k option"
  NativeAssets :: "'k \<Rightarrow> bool"
  Precisions :: "'k \<Rightarrow> 'm \<Rightarrow> u8 option"
  hft_events :: "('a, 'k, 'm, 'h) HftEvent list"

text \<open>The requests of the ISMP dispatcher and host, with the fields the pallet writes or reads.\<close>

record 'm DispatchPost =
  post_dest :: 'm
  post_from :: "byte list"
  post_to :: "byte list"
  post_timeout :: u64
  post_body :: "byte list"

record 'a FeeMetadata =
  payer :: 'a
  fee :: u128

record 'm PostRequest =
  source :: 'm
  dest :: 'm
  from_module :: "byte list"
  to_module :: "byte list"
  body :: "byte list"

datatype 'm Request = Post "'m PostRequest" | Get

datatype 'm Timeout = TimeoutRequest "'m Request" | TimeoutResponse

record ('a, 'c, 'o, 'k, 'm, 'h, 'e, 'l, 'w) HftConfig =
  hft_system :: "('a, 'c, 'o) frame_system"
  create_origin :: "'o \<Rightarrow> bool"
  native_transfer :: "'a \<Rightarrow> 'a \<Rightarrow> u128 \<Rightarrow> ExistenceRequirement \<Rightarrow> 'c \<Rightarrow> 'e + 'c"
  asset_transfer :: "'k \<Rightarrow> 'a \<Rightarrow> 'a \<Rightarrow> u128 \<Rightarrow> Preservation \<Rightarrow> 'c \<Rightarrow> 'e + 'c"
  burn_from :: "'k \<Rightarrow> 'a \<Rightarrow> u128 \<Rightarrow> Preservation \<Rightarrow> Precision \<Rightarrow> Fortitude \<Rightarrow> 'c \<Rightarrow> 'e + 'c"
  mint_into :: "'k \<Rightarrow> 'a \<Rightarrow> u128 \<Rightarrow> 'c \<Rightarrow> 'e + 'c"
  asset_decimals :: "'c \<Rightarrow> 'k \<Rightarrow> u8"
  NativeAssetId :: 'k
  NativeDecimals :: u8
  EvmToSubstrate :: "byte list \<Rightarrow> 'a"
  account_from :: "byte list \<Rightarrow> 'a"
  account_bytes :: "'a \<Rightarrow> byte list"
  account_of_pallet_id :: "string \<Rightarrow> 'a"
  module_id_bytes :: "string \<Rightarrow> byte list"
  dispatch_request :: "'m DispatchPost \<Rightarrow> 'a FeeMetadata \<Rightarrow> 'c \<Rightarrow> ('h \<times> 'c) option"
  is_evm :: "'m \<Rightarrow> bool"
  abi_encode :: "Message \<Rightarrow> byte list"
  abi_decode :: "byte list \<Rightarrow> 'e + Message"
  decode_calldata :: "byte list \<Rightarrow> 'e + SubstrateCalldata"
  decode_signature :: "byte list \<Rightarrow> 'e + MultiSignature"
  decode_call :: "byte list \<Rightarrow> 'e + 'l"
  account_nonce :: "'c \<Rightarrow> 'a \<Rightarrow> u32"
  inc_account_nonce :: "'a \<Rightarrow> 'c \<Rightarrow> 'c"
  encode_payload :: "u32 \<Rightarrow> byte list \<Rightarrow> byte list"
  keccak_256 :: "byte list \<Rightarrow> byte list"
  ed25519_verify :: "byte list \<Rightarrow> byte list \<Rightarrow> byte list \<Rightarrow> bool"
  sr25519_verify :: "byte list \<Rightarrow> byte list \<Rightarrow> byte list \<Rightarrow> bool"
  ecdsa_recover :: "byte list \<Rightarrow> byte list \<Rightarrow> byte list option"
  dispatch_call :: "'l \<Rightarrow> 'a \<Rightarrow> ('a, 'c, 'k, 'm, 'h) HftStorage \<Rightarrow> 'e + ('a, 'c, 'k, 'm, 'h) HftStorage"
  hft_weights :: "'w weight_ops"

definition PALLET_ID :: string where
  "PALLET_ID = ''pall_hft''"

definition ETHEREUM_MESSAGE_PREFIX :: string where
  "ETHEREUM_MESSAGE_PREFIX = CHR 0x19 # ''Ethereum Signed Message:'' @ [CHR 0x0A]"

definition pallet_account :: "('a, 'c, 'o, 'k, 'm, 'h, 'e, 'l, 'w) HftConfig \<Rightarrow> 'a" where
  "pallet_account T = account_of_pallet_id T ''hft__acc''"

definition is_module :: "('a, 'c, 'o, 'k, 'm, 'h, 'e, 'l, 'w) HftConfig \<Rightarrow> byte list \<Rightarrow> bool" where
  "is_module T i \<longleftrightarrow> i = module_id_bytes T PALLET_ID"

definition hft_deposit_event ::
  "('a, 'k, 'm, 'h) HftEvent \<Rightarrow> ('a, 'c, 'k, 'm, 'h) HftStorage \<Rightarrow> ('a, 'c, 'k, 'm, 'h) HftStorage" where
  "hft_deposit_event ev st = st\<lparr>hft_events := hft_events st @ [ev]\<rparr>"

subsection \<open>send\<close>

text \<open>The debit of the sender, and the decimals the amount is read with.\<close>

definition local_decimals :: "('a, 'c, 'o, 'k, 'm, 'h, 'e, 'l, 'w) HftConfig \<Rightarrow> 'k \<Rightarrow> 'c \<Rightarrow> u8" where
  "local_decimals T k c = (if k = NativeAssetId T then NativeDecimals T else asset_decimals T c k)"

definition take_in ::
  "('a, 'c, 'o, 'k, 'm, 'h, 'e, 'l, 'w) HftConfig \<Rightarrow> 'k \<Rightarrow> 'a \<Rightarrow> u128 \<Rightarrow>
   ('a, 'c, 'k, 'm, 'h) HftStorage \<Rightarrow> 'e + 'c" where
  "take_in T k who amt st =
     (if k = NativeAssetId T then native_transfer T who (pallet_account T) amt AllowDeath (hext st)
      else if NativeAssets st k
      then asset_transfer T k who (pallet_account T) amt Expendable (hext st)
      else burn_from T k who amt Expendable Exact Polite (hext st))"

definition send_message ::
  "('a, 'c, 'o, 'k, 'm, 'h, 'e, 'l, 'w) HftConfig \<Rightarrow> 'a \<Rightarrow> ('k, 'm) SendParams \<Rightarrow> u256 \<Rightarrow> Message" where
  "send_message T who params erc20_amount =
     \<lparr>msg_from = account_bytes T who, msg_to = recipient params, msg_amount = erc20_amount,
      msg_data = (case call_data params of None \<Rightarrow> [] | Some d \<Rightarrow> d)\<rparr>"

definition send_post ::
  "('a, 'c, 'o, 'k, 'm, 'h, 'e, 'l, 'w) HftConfig \<Rightarrow> ('k, 'm) SendParams \<Rightarrow> byte list \<Rightarrow> Message \<Rightarrow>
   'm DispatchPost" where
  "send_post T params contract message =
     \<lparr>post_dest = destination params, post_from = module_id_bytes T PALLET_ID, post_to = contract,
      post_timeout = timeout params, post_body = abi_encode T message\<rparr>"

definition send ::
  "('a, 'c, 'o, 'k, 'm, 'h, 'e, 'l, 'w) HftConfig \<Rightarrow> 'o \<Rightarrow> ('k, 'm) SendParams \<Rightarrow>
   ('a, 'c, 'k, 'm, 'h) HftStorage \<Rightarrow> ('e DispatchError, ('a, 'c, 'k, 'm, 'h) HftStorage) outcome" where
  "send T og params st =
     outcome_then (of_option BadOrigin (ensure_signed (hft_system T) og)) (\<lambda>who.
     outcome_then (of_option (Module TokenContractNotFound)
       (TokenContracts st (destination params) (asset_id params))) (\<lambda>contract.
     outcome_then (of_option (Module DecimalsNotFound)
       (Precisions st (asset_id params) (destination params))) (\<lambda>erc_decimals.
     outcome_then (of_result Other (take_in T (asset_id params) who (send_amount params) st)) (\<lambda>c.
     outcome_then (convert_to_erc20 (send_amount params) erc_decimals (local_decimals T (asset_id params) c)) (\<lambda>erc20_amount.
     outcome_then (of_option (Module DispatchErrorHft)
       (dispatch_request T
          (send_post T params contract (send_message T who params erc20_amount))
          \<lparr>payer = who, fee = relayer_fee params\<rparr> c)) (\<lambda>(commitment, c').
     Done (hft_deposit_event
       (TokenSent who (recipient params) (send_amount params) (destination params) commitment)
       (st\<lparr>hext := c'\<rparr>))))))))"

subsection \<open>register_token and update_token\<close>

definition insert_chain ::
  "'k \<Rightarrow> 'm \<times> ChainConfig \<Rightarrow> ('a, 'c, 'k, 'm, 'h) HftStorage \<Rightarrow> ('a, 'c, 'k, 'm, 'h) HftStorage" where
  "insert_chain k = (\<lambda>(chain, config) st.
     st\<lparr>TokenContracts := (TokenContracts st)(chain := (TokenContracts st chain)(k \<mapsto> token_contract config)),
        ContractToAsset := (ContractToAsset st)(chain := (ContractToAsset st chain)(token_contract config \<mapsto> k)),
        Precisions := (Precisions st)(k := (Precisions st k)(chain \<mapsto> decimals config))\<rparr>)"

definition register_token ::
  "('a, 'c, 'o, 'k, 'm, 'h, 'e, 'l, 'w) HftConfig \<Rightarrow> 'o \<Rightarrow> ('k, 'm) TokenRegistration \<Rightarrow>
   ('a, 'c, 'k, 'm, 'h) HftStorage \<Rightarrow> ('e DispatchError, ('a, 'c, 'k, 'm, 'h) HftStorage) outcome" where
  "register_token T og registration st =
     (if \<not> create_origin T og then Fail BadOrigin
      else
        let st1 = st\<lparr>NativeAssets := (NativeAssets st)(local_id registration := native registration)\<rparr>;
            st2 = fold (insert_chain (local_id registration)) (chains registration) st1 in
        Done (hft_deposit_event
          (TokenRegistered (local_id registration) (native registration) (map fst (chains registration))) st2))"

definition forget_contract ::
  "'k \<Rightarrow> 'm \<Rightarrow> ('a, 'c, 'k, 'm, 'h) HftStorage \<Rightarrow> ('a, 'c, 'k, 'm, 'h) HftStorage" where
  "forget_contract k chain st =
     (case TokenContracts st chain k of
        None \<Rightarrow> st
      | Some old_contract \<Rightarrow>
          st\<lparr>ContractToAsset := (ContractToAsset st)(chain := (ContractToAsset st chain)(old_contract := None))\<rparr>)"

definition update_chain ::
  "'k \<Rightarrow> 'm \<times> ChainConfig \<Rightarrow> ('a, 'c, 'k, 'm, 'h) HftStorage \<Rightarrow> ('a, 'c, 'k, 'm, 'h) HftStorage" where
  "update_chain k e st = insert_chain k e (forget_contract k (fst e) st)"

definition remove_chain ::
  "'k \<Rightarrow> 'm \<Rightarrow> ('a, 'c, 'k, 'm, 'h) HftStorage \<Rightarrow> ('a, 'c, 'k, 'm, 'h) HftStorage" where
  "remove_chain k chain st =
     (let st1 = forget_contract k chain st in
      st1\<lparr>TokenContracts := (TokenContracts st1)(chain := (TokenContracts st1 chain)(k := None)),
          Precisions := (Precisions st1)(k := (Precisions st1 k)(chain := None))\<rparr>)"

definition update_token ::
  "('a, 'c, 'o, 'k, 'm, 'h, 'e, 'l, 'w) HftConfig \<Rightarrow> 'o \<Rightarrow> ('k, 'm) TokenUpdate \<Rightarrow>
   ('a, 'c, 'k, 'm, 'h) HftStorage \<Rightarrow> ('e DispatchError, ('a, 'c, 'k, 'm, 'h) HftStorage) outcome" where
  "update_token T og upd st =
     (if \<not> create_origin T og then Fail BadOrigin
      else
        let st1 = fold (update_chain (update_asset_id upd)) (add_chains upd) st in
        Done (fold (remove_chain (update_asset_id upd)) (remove_chains upd) st1))"

subsection \<open>The payment of a message\<close>

text \<open>32 bytes as they are, an EVM address padded on the left.\<close>

definition address_bytes :: "byte list \<Rightarrow> byte list option" where
  "address_bytes bs =
     (if length bs = 32 then Some bs else if length bs = 20 then Some (replicate 12 0 @ bs) else None)"

definition local_amount ::
  "('a, 'c, 'o, 'k, 'm, 'h, 'e, 'l, 'w) HftConfig \<Rightarrow> 'k \<Rightarrow> u256 \<Rightarrow> u8 \<Rightarrow>
   ('a, 'c, 'k, 'm, 'h) HftStorage \<Rightarrow> (('m, 'e) HftError, u128) outcome \<times> ('a, 'c, 'k, 'm, 'h) HftStorage" where
  "local_amount T k v erc_decimals st =
     (map_fail (\<lambda>e. InvalidAmountConversion (debug_ParseIntError e))
        (convert_to_balance v erc_decimals (local_decimals T k (hext st))), st)"

definition pay_out ::
  "('a, 'c, 'o, 'k, 'm, 'h, 'e, 'l, 'w) HftConfig \<Rightarrow> 'k \<Rightarrow> 'a \<Rightarrow> u128 \<Rightarrow>
   ('a, 'c, 'k, 'm, 'h) HftStorage \<Rightarrow> (('m, 'e) HftError, unit) outcome \<times> ('a, 'c, 'k, 'm, 'h) HftStorage" where
  "pay_out T k who amt st =
     then_do
       (if k = NativeAssetId T
        then try_result TransferFailed (native_transfer T (pallet_account T) who amt AllowDeath (hext st)) st
        else if NativeAssets st k
        then try_result TransferFailed (asset_transfer T k (pallet_account T) who amt Expendable (hext st)) st
        else try_result MintFailed (mint_into T k who amt (hext st)) st)
       (\<lambda>c st1. (Done (), st1\<lparr>hext := c\<rparr>))"

subsection \<open>Calldata\<close>

definition ethereum_preimage :: "byte list \<Rightarrow> byte list" where
  "ethereum_preimage payload =
     map of_char (ETHEREUM_MESSAGE_PREFIX @ dec_string (length payload)) @ payload"

text \<open>The check of a signature over the nonce of the beneficiary and the call.\<close>

fun verify_signature ::
  "('a, 'c, 'o, 'k, 'm, 'h, 'e, 'l, 'w) HftConfig \<Rightarrow> 'a \<Rightarrow> byte list \<Rightarrow> byte list \<Rightarrow> MultiSignature \<Rightarrow>
   ('m, 'e) HftError + unit" where
  "verify_signature T beneficiary beneficiary_bytes payload (Ed25519 sig) =
     ensure (ed25519_verify T sig (keccak_256 T payload) beneficiary_bytes) SignatureVerificationFailed"
| "verify_signature T beneficiary beneficiary_bytes payload (Sr25519 sig) =
     ensure (sr25519_verify T sig (keccak_256 T payload) beneficiary_bytes) SignatureVerificationFailed"
| "verify_signature T beneficiary beneficiary_bytes payload (Ecdsa sig) =
     and_then (ok_or EcdsaRecoveryFailed (ecdsa_recover T sig (keccak_256 T (ethereum_preimage payload))))
       (\<lambda>pub_key. ensure (EvmToSubstrate T (drop 12 (keccak_256 T pub_key)) = beneficiary)
          SignatureVerificationFailed)"
| "verify_signature T beneficiary beneficiary_bytes payload (Eth sig) = Inl EthSignatureUnsupported"

text \<open>The origin of a call without a signature is the sender of the message. The slice of the last 20
  bytes and the copy into 32 bytes panic on other lengths.\<close>

definition sender_origin ::
  "('a, 'c, 'o, 'k, 'm, 'h, 'e, 'l, 'w) HftConfig \<Rightarrow> 'm \<Rightarrow> byte list \<Rightarrow> (('m, 'e) HftError, 'a) outcome" where
  "sender_origin T src from_bytes =
     (if is_evm T src then
        (if length from_bytes < 20 then Panic
         else Done (EvmToSubstrate T (drop (length from_bytes - 20) from_bytes)))
      else if length from_bytes = 32 then Done (account_from T from_bytes) else Panic)"

definition call_origin ::
  "('a, 'c, 'o, 'k, 'm, 'h, 'e, 'l, 'w) HftConfig \<Rightarrow> 'm \<Rightarrow> byte list \<Rightarrow> byte list \<Rightarrow> SubstrateCalldata \<Rightarrow>
   ('a, 'c, 'k, 'm, 'h) HftStorage \<Rightarrow> (('m, 'e) HftError, 'a) outcome" where
  "call_origin T src from_bytes beneficiary_bytes data st =
     (case signature data of
        Some sig \<Rightarrow>
          (let beneficiary = account_from T beneficiary_bytes;
               payload = encode_payload T (account_nonce T (hext st) beneficiary) (runtime_call data) in
           outcome_then (of_result SignatureDecodeError (decode_signature T sig)) (\<lambda>multi_signature.
           outcome_then (of_result id (verify_signature T beneficiary beneficiary_bytes payload multi_signature))
             (\<lambda>_. Done beneficiary)))
      | None \<Rightarrow> sender_origin T src from_bytes)"

definition execute_calldata ::
  "('a, 'c, 'o, 'k, 'm, 'h, 'e, 'l, 'w) HftConfig \<Rightarrow> 'm \<Rightarrow> Message \<Rightarrow> byte list \<Rightarrow>
   ('a, 'c, 'k, 'm, 'h) HftStorage \<Rightarrow> (('m, 'e) HftError, unit) outcome \<times> ('a, 'c, 'k, 'm, 'h) HftStorage" where
  "execute_calldata T src message beneficiary_bytes st =
     (if msg_data message = [] then (Done (), st)
      else
        then_do (try_result CalldataDecodeError (decode_calldata T (msg_data message)) st) (\<lambda>data st.
        then_do (call_origin T src (msg_from message) beneficiary_bytes data st, st) (\<lambda>origin st.
        then_do (try_result RuntimeCallDecodeError (decode_call T (runtime_call data)) st) (\<lambda>call st.
        then_do (try_result CallDispatchError (dispatch_call T call origin st) st) (\<lambda>st1 _.
        (Done (), st1\<lparr>hext := inc_account_nonce T origin (hext st1)\<rparr>))))))"

subsection \<open>The ISMP module\<close>

definition on_accept ::
  "('a, 'c, 'o, 'k, 'm, 'h, 'e, 'l, 'w) HftConfig \<Rightarrow> 'm PostRequest \<Rightarrow>
   ('a, 'c, 'k, 'm, 'h) HftStorage \<Rightarrow> (('m, 'e) HftError, 'w) outcome \<times> ('a, 'c, 'k, 'm, 'h) HftStorage" where
  "on_accept T req st =
     then_do (try_option (UnknownSourceContract (source req))
       (ContractToAsset st (source req) (from_module req)) st) (\<lambda>k st.
     then_do (try_result DecodeError (abi_decode T (body req)) st) (\<lambda>message st.
     then_do (try_option (InvalidRecipientLength (length (msg_to message)))
       (address_bytes (msg_to message)) st) (\<lambda>beneficiary_bytes st.
     let beneficiary = account_from T beneficiary_bytes in
     then_do (try_option (DecimalsNotConfigured (source req)) (Precisions st k (source req)) st) (\<lambda>erc_decimals st.
     then_do (local_amount T k (msg_amount message) erc_decimals st) (\<lambda>amount st.
     then_do (pay_out T k beneficiary amount st) (\<lambda>_ st.
     then_do (execute_calldata T (source req) message beneficiary_bytes st) (\<lambda>_ st.
     (Done (db_reads_writes (hft_weights T) 5 2),
      hft_deposit_event (TokenReceived beneficiary amount (source req)) st))))))))"

definition on_response ::
  "'r \<Rightarrow> ('a, 'c, 'k, 'm, 'h) HftStorage \<Rightarrow>
   (('m, 'e) HftError, 'w) outcome \<times> ('a, 'c, 'k, 'm, 'h) HftStorage" where
  "on_response response st = (Fail ResponsesNotSupported, st)"

fun on_timeout ::
  "('a, 'c, 'o, 'k, 'm, 'h, 'e, 'l, 'w) HftConfig \<Rightarrow> 'm Timeout \<Rightarrow>
   ('a, 'c, 'k, 'm, 'h) HftStorage \<Rightarrow> (('m, 'e) HftError, 'w) outcome \<times> ('a, 'c, 'k, 'm, 'h) HftStorage" where
  "on_timeout T (TimeoutRequest (Post req)) st =
     then_do (try_result DecodeError (abi_decode T (body req)) st) (\<lambda>message st.
     then_do (try_option (InvalidSenderLength (length (msg_from message)))
       (address_bytes (msg_from message)) st) (\<lambda>sender_bytes st.
     let beneficiary = account_from T sender_bytes in
     then_do (try_option UnknownContractOnTimeout (ContractToAsset st (dest req) (to_module req)) st) (\<lambda>k st.
     then_do (try_option (DecimalsNotConfigured (dest req)) (Precisions st k (dest req)) st) (\<lambda>erc_decimals st.
     then_do (local_amount T k (msg_amount message) erc_decimals st) (\<lambda>amount st.
     then_do (pay_out T k beneficiary amount st) (\<lambda>_ st.
     (Done (db_reads_writes (hft_weights T) 5 2),
      hft_deposit_event (TokenRefunded beneficiary amount (dest req)) st)))))))"
| "on_timeout T (TimeoutRequest Get) st = (Fail UnsupportedTimeoutType, st)"
| "on_timeout T TimeoutResponse st = (Fail UnsupportedTimeoutType, st)"

end
