(* ===== verification/Hft_Registry.thy ===== *)
theory Hft_Registry
  imports Hft
begin

text \<open>
  The registry of \<^verbatim>\<open>pallet-hyper-fungible-token\<close>. Its abstract content is, per asset, a map
  from chains to \<^verbatim>\<open>ChainConfig\<close> (\<open>routes\<close>), kept in the two storage maps \<^verbatim>\<open>TokenContracts\<close>
  and \<^verbatim>\<open>Precisions\<close>; \<open>routes_ok\<close> says that both have the same entries. The loops of
  \<^verbatim>\<open>register_token\<close> and \<^verbatim>\<open>update_token\<close> refine map update and restriction, and the locale
  \<open>registry_invariant\<close> carries a property of the registry through every step of the pallet.
\<close>

subsection \<open>The abstract registry\<close>

definition routes :: "('a, 'c, 'k, 'm, 'h) HftStorage \<Rightarrow> 'k \<Rightarrow> 'm \<rightharpoonup> ChainConfig" where
  "routes st k m =
     (case (TokenContracts st m k, Precisions st k m) of
        (Some contract, Some d) \<Rightarrow> Some \<lparr>token_contract = contract, decimals = d\<rparr>
      | _ \<Rightarrow> None)"

definition routes_ok :: "('a, 'c, 'k, 'm, 'h) HftStorage \<Rightarrow> bool" where
  "routes_ok st \<longleftrightarrow> (\<forall>k m. TokenContracts st m k = None \<longleftrightarrow> Precisions st k m = None)"

lemma routes_eqI:
  assumes "\<And>m k. TokenContracts st m k = TokenContracts st' m k" "\<And>m k. Precisions st k m = Precisions st' k m"
  shows "routes st = routes st'"
  by (intro ext) (simp add: routes_def assms)

lemma hft_deposit_event_simps [simp]:
  "hext (hft_deposit_event ev st) = hext st" "TokenContracts (hft_deposit_event ev st) = TokenContracts st"
  "ContractToAsset (hft_deposit_event ev st) = ContractToAsset st"
  "NativeAssets (hft_deposit_event ev st) = NativeAssets st"
  "Precisions (hft_deposit_event ev st) = Precisions st"
  "hft_events (hft_deposit_event ev st) = hft_events st @ [ev]"
  "routes (hft_deposit_event ev st) = routes st" "routes_ok (hft_deposit_event ev st) = routes_ok st"
  by (simp_all add: hft_deposit_event_def routes_ok_def) (rule routes_eqI; simp)

lemma routes_other [simp]:
  "routes (st\<lparr>hext := c\<rparr>) = routes st" "routes_ok (st\<lparr>hext := c\<rparr>) = routes_ok st"
  "routes (st\<lparr>NativeAssets := n\<rparr>) = routes st" "routes_ok (st\<lparr>NativeAssets := n\<rparr>) = routes_ok st"
  by (simp_all add: routes_ok_def) (rule routes_eqI; simp)+

lemma forget_contract_simps [simp]:
  "hext (forget_contract k m st) = hext st" "TokenContracts (forget_contract k m st) = TokenContracts st"
  "NativeAssets (forget_contract k m st) = NativeAssets st"
  "Precisions (forget_contract k m st) = Precisions st" "hft_events (forget_contract k m st) = hft_events st"
  "routes (forget_contract k m st) = routes st" "routes_ok (forget_contract k m st) = routes_ok st"
  by (simp_all add: forget_contract_def routes_ok_def split: option.splits) (auto intro!: routes_eqI)

subsection \<open>One chain\<close>

lemma insert_chain_simps [simp]:
  "hext (insert_chain k e st) = hext st" "NativeAssets (insert_chain k e st) = NativeAssets st"
  "hft_events (insert_chain k e st) = hft_events st"
  by (simp_all add: insert_chain_def split: prod.splits)

lemma routes_insert_chain:
  "routes (insert_chain k (m, cfg) st) = (routes st)(k := (routes st k)(m \<mapsto> cfg))"
  by (intro ext) (simp add: routes_def insert_chain_def split: option.splits)

lemma routes_update_chain:
  "routes (update_chain k (m, cfg) st) = (routes st)(k := (routes st k)(m \<mapsto> cfg))"
  by (simp add: update_chain_def routes_insert_chain)

lemma routes_remove_chain:
  "routes (remove_chain k m st) = (routes st)(k := (routes st k)(m := None))"
  by (intro ext) (simp add: remove_chain_def Let_def routes_def split: option.splits)

lemma routes_ok_insert_chain: "routes_ok st \<Longrightarrow> routes_ok (insert_chain k e st)"
  by (cases e) (simp add: routes_ok_def insert_chain_def)

lemma routes_ok_remove_chain: "routes_ok st \<Longrightarrow> routes_ok (remove_chain k m st)"
  by (simp add: routes_ok_def remove_chain_def Let_def)

lemma reverse_insert_chain:
  "ContractToAsset (insert_chain k (m, cfg) st) m' c =
     (if m' = m \<and> c = token_contract cfg then Some k else ContractToAsset st m' c)"
  by (simp add: insert_chain_def)

lemma reverse_forget_contract:
  "ContractToAsset (forget_contract k m st) m' c =
     (if m' = m \<and> TokenContracts st m k = Some c then None else ContractToAsset st m' c)"
  by (auto simp: forget_contract_def split: option.splits)

lemma remove_chain_other [simp]:
  "hext (remove_chain k m st) = hext st" "NativeAssets (remove_chain k m st) = NativeAssets st"
  "hft_events (remove_chain k m st) = hft_events st"
  "ContractToAsset (remove_chain k m st) = ContractToAsset (forget_contract k m st)"
  by (simp_all add: remove_chain_def Let_def)

subsection \<open>The loops\<close>

lemma routes_fold:
  assumes f: "\<And>m cfg st. routes (f (m, cfg) st) = (routes st)(k := (routes st k)(m \<mapsto> cfg))"
    and "distinct (map fst es)"
  shows "routes (fold f es st) = (routes st)(k := routes st k ++ map_of es)"
  using assms(2)
proof (induction es arbitrary: st)
  case (Cons e es)
  obtain m cfg where e: "e = (m, cfg)" by (cases e)
  have "m \<notin> fst ` set es" using Cons.prems e by simp
  then have upd: "(routes st k)(m \<mapsto> cfg) ++ map_of es = routes st k ++ map_of (e # es)"
    by (simp add: map_add_upd_left dom_map_of_conv_image_fst e)
  have "routes (fold f (e # es) st) = (routes (f e st))(k := routes (f e st) k ++ map_of es)"
    using Cons.IH [of "f e st"] Cons.prems by (simp only: fold_simps list.map distinct.simps)
  then show ?case by (simp only: e f fun_upd_same fun_upd_upd upd [unfolded e])
qed simp

lemmas routes_fold_insert = routes_fold [OF routes_insert_chain]
lemmas routes_fold_update = routes_fold [OF routes_update_chain]

lemma routes_fold_remove:
  "routes (fold (remove_chain k) ms st) = (routes st)(k := (routes st k) |` (- set ms))"
proof (induction ms arbitrary: st)
  case (Cons m ms)
  have "((routes st k)(m := None)) |` (- set ms) = (routes st k) |` (- set (m # ms))"
    by (rule ext) (simp add: restrict_map_def)
  moreover have "routes (fold (remove_chain k) (m # ms) st) =
      (routes (remove_chain k m st))(k := (routes (remove_chain k m st) k) |` (- set ms))"
    using Cons.IH [of "remove_chain k m st"] by (simp only: fold_simps)
  ultimately show ?case by (simp only: routes_remove_chain fun_upd_same fun_upd_upd)
qed (simp add: restrict_map_def)

text \<open>The chains of a registration all find their way back.\<close>

lemma reverse_fold_insert_other:
  "m \<notin> fst ` set es \<Longrightarrow> ContractToAsset (fold (insert_chain k) es st) m c = ContractToAsset st m c"
  by (induction es arbitrary: st) (auto simp: reverse_insert_chain)

lemma reverse_fold_insert:
  assumes "distinct (map fst es)" "(m, cfg) \<in> set es"
  shows "ContractToAsset (fold (insert_chain k) es st) m (token_contract cfg) = Some k"
  using assms
proof (induction es arbitrary: st)
  case (Cons e es)
  show ?case
  proof (cases "e = (m, cfg)")
    case True
    with Cons.prems have "m \<notin> fst ` set es" by simp
    with True show ?thesis by (simp add: reverse_fold_insert_other reverse_insert_chain)
  next
    case False
    with Cons show ?thesis by simp
  qed
qed simp

text \<open>A loop over the chains keeps what each turn keeps.\<close>

lemma fold_keeps:
  assumes "\<And>x st. x \<in> set xs \<Longrightarrow> I st \<Longrightarrow> I (f x st)" and "I st"
  shows "I (fold f xs st)"
  using assms by (induction xs arbitrary: st) auto

lemma fold_insert_field [simp]:
  "hext (fold (insert_chain k) es st) = hext st"
  "NativeAssets (fold (insert_chain k) es st) = NativeAssets st"
  "hft_events (fold (insert_chain k) es st) = hft_events st"
  by (induction es arbitrary: st) simp_all

text \<open>The registry has no business with the state of other pallets.\<close>

lemma fold_hext: "(\<And>x st. hext (f x st) = hext st) \<Longrightarrow> hext (fold f xs st) = hext st"
  by (induction xs arbitrary: st) simp_all

lemma registry_call_hext:
  "register_token T og reg st = Done st' \<Longrightarrow> hext st' = hext st"
  "update_token T og upd st = Done st' \<Longrightarrow> hext st' = hext st"
  by (auto simp: register_token_def update_token_def Let_def fold_hext update_chain_def split: if_splits)

subsection \<open>The steps of the pallet\<close>

text \<open>Dispatchables of the pallet, and the work of other pallets.\<close>

inductive call_step ::
  "('a, 'c, 'o, 'k, 'm, 'h, 'e, 'l, 'w) HftConfig \<Rightarrow>
   ('a, 'c, 'k, 'm, 'h) HftStorage \<Rightarrow> ('a, 'c, 'k, 'm, 'h) HftStorage \<Rightarrow> bool" for T where
  send: "send T og params st = Done st' \<Longrightarrow> call_step T st st'"
| register: "distinct (map fst (chains r)) \<Longrightarrow> register_token T og r st = Done st' \<Longrightarrow> call_step T st st'"
| update: "distinct (map fst (add_chains u)) \<Longrightarrow> update_token T og u st = Done st' \<Longrightarrow> call_step T st st'"
| elsewhere: "call_step T st (st\<lparr>hext := c\<rparr>)"

text \<open>What a runtime call does to the storage of this pallet it does through the pallet's dispatchables.\<close>

definition calls_law :: "('a, 'c, 'o, 'k, 'm, 'h, 'e, 'l, 'w) HftConfig \<Rightarrow> bool" where
  "calls_law T \<longleftrightarrow> (\<forall>l a st st'. dispatch_call T l a st = Inr st' \<longrightarrow> (call_step T)\<^sup>*\<^sup>* st st')"

text \<open>A callback that panics aborts the block, so it leaves no state.\<close>

inductive hft_step ::
  "('a, 'c, 'o, 'k, 'm, 'h, 'e, 'l, 'w) HftConfig \<Rightarrow>
   ('a, 'c, 'k, 'm, 'h) HftStorage \<Rightarrow> ('a, 'c, 'k, 'm, 'h) HftStorage \<Rightarrow> bool" for T where
  call: "call_step T st st' \<Longrightarrow> hft_step T st st'"
| accept: "on_accept T req st = (r, st') \<Longrightarrow> r \<noteq> Panic \<Longrightarrow> hft_step T st st'"
| timeout: "on_timeout T req st = (r, st') \<Longrightarrow> r \<noteq> Panic \<Longrightarrow> hft_step T st st'"

definition hft_genesis :: "'c \<Rightarrow> ('a, 'c, 'k, 'm, 'h) HftStorage" where
  "hft_genesis c =
     \<lparr>hext = c, TokenContracts = \<lambda>_ _. None, ContractToAsset = \<lambda>_ _. None, NativeAssets = \<lambda>_. False,
      Precisions = \<lambda>_ _. None, hft_events = []\<rparr>"

inductive hft_reachable ::
  "('a, 'c, 'o, 'k, 'm, 'h, 'e, 'l, 'w) HftConfig \<Rightarrow> ('a, 'c, 'k, 'm, 'h) HftStorage \<Rightarrow> bool" for T where
  genesis: "hft_reachable T (hft_genesis c)"
| step: "hft_reachable T st \<Longrightarrow> hft_step T st st' \<Longrightarrow> hft_reachable T st'"

lemma send_Done:
  fixes T :: "('a, 'c, 'o, 'k, 'm, 'h, 'e, 'l, 'w) HftConfig"
  assumes "send T og params st = Done st'"
  obtains who contract d c x h c' where
    "ensure_signed (hft_system T) og = Some who"
    "TokenContracts st (destination params) (asset_id params) = Some contract"
    "Precisions st (asset_id params) (destination params) = Some d"
    "take_in T (asset_id params) who (send_amount params) st = Inr c"
    "convert_to_erc20 (send_amount params) d (local_decimals T (asset_id params) c) =
       (Done x :: ('b, u256) outcome)"
    "dispatch_request T (send_post T params contract (send_message T who params x))
       \<lparr>payer = who, fee = relayer_fee params\<rparr> c = Some (h, c')"
    "st' = hft_deposit_event (TokenSent who (recipient params) (send_amount params) (destination params) h)
       (st\<lparr>hext := c'\<rparr>)"
proof -
  from assms obtain who contract d c x h c' where s:
    "ensure_signed (hft_system T) og = Some who"
    "TokenContracts st (destination params) (asset_id params) = Some contract"
    "Precisions st (asset_id params) (destination params) = Some d"
    "take_in T (asset_id params) who (send_amount params) st = Inr c"
    "convert_to_erc20 (send_amount params) d (local_decimals T (asset_id params) c) =
       (Done x :: ('e DispatchError, u256) outcome)"
    "dispatch_request T (send_post T params contract (send_message T who params x))
       \<lparr>payer = who, fee = relayer_fee params\<rparr> c = Some (h, c')"
    "st' = hft_deposit_event (TokenSent who (recipient params) (send_amount params) (destination params) h)
       (st\<lparr>hext := c'\<rparr>)"
    by (auto simp: send_def result_simps split: prod.splits)
  moreover have "convert_to_erc20 (send_amount params) d (local_decimals T (asset_id params) c) =
      (Done x :: ('b, u256) outcome)"
    using s(5) by (simp add: convert_to_erc20_def Let_def split: if_splits)
  ultimately show thesis by (intro that)
qed

text \<open>The same when the lookups are known.\<close>

lemma send_run:
  fixes T :: "('a, 'c, 'o, 'k, 'm, 'h, 'e, 'l, 'w) HftConfig"
  assumes "send T og params st = Done st'" and "ensure_signed (hft_system T) og = Some who"
    and "TokenContracts st (destination params) (asset_id params) = Some contract"
    and "Precisions st (asset_id params) (destination params) = Some d"
  shows "\<exists>c x h c'. take_in T (asset_id params) who (send_amount params) st = Inr c \<and>
    convert_to_erc20 (send_amount params) d (local_decimals T (asset_id params) c) =
      (Done x :: ('b, u256) outcome) \<and>
    dispatch_request T (send_post T params contract (send_message T who params x))
       \<lparr>payer = who, fee = relayer_fee params\<rparr> c = Some (h, c') \<and>
    st' = hft_deposit_event (TokenSent who (recipient params) (send_amount params) (destination params) h)
       (st\<lparr>hext := c'\<rparr>)"
proof (rule send_Done [OF assms(1), where ?'b = 'b])
qed (use assms in auto)

locale registry_invariant =
  fixes I :: "('a, 'c, 'k, 'm, 'h) HftStorage \<Rightarrow> bool"
  assumes fresh: "I (hft_genesis c)"
    and elsewhere: "I st \<Longrightarrow> I (st\<lparr>hext := c\<rparr>)"
    and event: "I st \<Longrightarrow> I (hft_deposit_event ev st)"
    and nativity: "I st \<Longrightarrow> I (st\<lparr>NativeAssets := n\<rparr>)"
    and insert_one: "I st \<Longrightarrow> I (insert_chain k e st)"
    and update_one: "I st \<Longrightarrow> I (update_chain k e st)"
    and remove_one: "I st \<Longrightarrow> I (remove_chain k m st)"
begin

lemma send_keeps: "send T og params st = Done st' \<Longrightarrow> I st \<Longrightarrow> I st'"
  by (erule send_Done) (auto intro: elsewhere event)

lemma register_keeps: "register_token T og r st = Done st' \<Longrightarrow> I st \<Longrightarrow> I st'"
  by (auto simp: register_token_def Let_def split: if_splits
      intro!: event fold_keeps [of _ I] insert_one nativity)

lemma update_keeps: "update_token T og u st = Done st' \<Longrightarrow> I st \<Longrightarrow> I st'"
  by (auto simp: update_token_def Let_def split: if_splits
      intro!: fold_keeps [of _ I] update_one remove_one)

lemma call_step_keeps: "call_step T st st' \<Longrightarrow> I st \<Longrightarrow> I st'"
  by (induction rule: call_step.induct) (auto intro: send_keeps register_keeps update_keeps elsewhere)

lemma calls_keep: "(call_step T)\<^sup>*\<^sup>* st st' \<Longrightarrow> I st \<Longrightarrow> I st'"
  by (induction rule: rtranclp_induct) (auto intro: call_step_keeps)

lemma pay_out_keeps: "pay_out T k who amt st = (r, st') \<Longrightarrow> I st \<Longrightarrow> I st'"
  by (auto simp: pay_out_def then_do_def try_result_def split: if_splits sum.splits intro: elsewhere)

lemma execute_calldata_keeps:
  assumes "calls_law T" "execute_calldata T m msg bs st = (r, st')" "I st"
  shows "I st'"
proof -
  have "I st2" if "dispatch_call T l a st1 = Inr st2" "I st1" for l a st1 st2
    using that assms(1) calls_keep unfolding calls_law_def by blast
  with assms(2,3) show ?thesis
    by (auto simp: execute_calldata_def then_do_def try_result_def
        split: if_splits sum.splits outcome.splits intro!: elsewhere)
qed

lemma on_accept_keeps:
  assumes "calls_law T" "on_accept T req st = (r, st')" "I st"
  shows "I st'"
  using assms(2,3) pay_out_keeps execute_calldata_keeps [OF assms(1)]
  by (simp add: on_accept_def then_do_def try_result_def try_option_def local_amount_def Let_def
      split: if_splits sum.splits outcome.splits option.splits prod.splits)
    (blast intro: event)+

lemma on_timeout_keeps: "on_timeout T req st = (r, st') \<Longrightarrow> I st \<Longrightarrow> I st'"
  using pay_out_keeps
  by (cases "(T, req, st)" rule: on_timeout.cases)
    (simp_all add: then_do_def try_result_def try_option_def local_amount_def Let_def
      split: if_splits sum.splits outcome.splits option.splits prod.splits, (blast intro: event)+)

theorem reachable_keeps:
  assumes "calls_law T" and "hft_reachable T st"
  shows "I st"
  using assms(2)
proof (induction rule: hft_reachable.induct)
  case (step st st')
  from step.hyps(2) show ?case
    using step.IH call_step_keeps on_accept_keeps [OF assms(1)] on_timeout_keeps
    by cases blast+
qed (rule fresh)

end

interpretation routes: registry_invariant routes_ok
  by unfold_locales
    (simp_all add: routes_ok_insert_chain routes_ok_remove_chain update_chain_def,
     simp add: routes_ok_def hft_genesis_def)

end
