(* ===== verification/Hft_Ledger.thy ===== *)
theory Hft_Ledger
  imports Hft_Registry
begin

text \<open>
  What the calls of \<^verbatim>\<open>pallet-hyper-fungible-token\<close> do to the holdings of accounts, over a reading
  \<open>holding c k a\<close> of the state of the asset pallets. \<open>asset_laws\<close> states what the documentation of
  \<^verbatim>\<open>Currency\<close> and \<^verbatim>\<open>fungibles::Mutate\<close> promises of a call that succeeds, \<open>codec_laws\<close> that an
  encoded message decodes to itself and that an account is its 32 bytes. \<open>custody\<close> is where an amount
  in transit is kept: the account of the pallet for an asset of this chain, nowhere for one that is
  burnt here and minted again on its return.
\<close>

text \<open>An amount moves from an account (or from nowhere) to another. The source may be left with less than
  the minimum balance of the asset, which is then burnt; \<open>floor\<close> bounds these minimum balances.\<close>

definition moves ::
  "('c \<Rightarrow> 'k \<Rightarrow> 'a \<Rightarrow> nat) \<Rightarrow> ('k \<Rightarrow> nat) \<Rightarrow> 'k \<Rightarrow> 'a option \<Rightarrow> 'a option \<Rightarrow> nat \<Rightarrow> 'c \<Rightarrow> 'c \<Rightarrow> bool" where
  "moves holding floor k src dst amt c c' \<longleftrightarrow>
     (\<forall>k' a. holding c' k' a + (if k' = k \<and> src = Some a then amt else 0) =
          holding c k' a + (if k' = k \<and> dst = Some a then amt else 0) \<or>
        k' = k \<and> src = Some a \<and> dst \<noteq> Some a \<and> holding c' k a = 0 \<and> amt \<le> holding c k a \<and>
          holding c k a < amt + floor k)"

definition asset_laws ::
  "('a, 'c, 'o, 'k, 'm, 'h, 'e, 'l, 'w) HftConfig \<Rightarrow> ('c \<Rightarrow> 'k \<Rightarrow> 'a \<Rightarrow> nat) \<Rightarrow> ('k \<Rightarrow> nat) \<Rightarrow> bool" where
  "asset_laws T holding floor \<longleftrightarrow>
     (\<forall>src dst amt r c c'. native_transfer T src dst amt r c = Inr c' \<longrightarrow>
        moves holding floor (NativeAssetId T) (Some src) (Some dst) (unat amt) c c' \<and>
        asset_decimals T c' = asset_decimals T c) \<and>
     (\<forall>k src dst amt p c c'. k \<noteq> NativeAssetId T \<longrightarrow> asset_transfer T k src dst amt p c = Inr c' \<longrightarrow>
        moves holding floor k (Some src) (Some dst) (unat amt) c c' \<and> asset_decimals T c' = asset_decimals T c) \<and>
     (\<forall>k who amt p f c c'. k \<noteq> NativeAssetId T \<longrightarrow> burn_from T k who amt p Exact f c = Inr c' \<longrightarrow>
        moves holding floor k (Some who) None (unat amt) c c' \<and> asset_decimals T c' = asset_decimals T c) \<and>
     (\<forall>k who amt c c'. k \<noteq> NativeAssetId T \<longrightarrow> mint_into T k who amt c = Inr c' \<longrightarrow>
        moves holding floor k None (Some who) (unat amt) c c' \<and> asset_decimals T c' = asset_decimals T c)"

text \<open>The dispatcher takes the \<open>cost\<close> of a request from the payer in the native currency, for the account \<open>F\<close>
  that collects it.\<close>

definition dispatcher_law ::
  "('a, 'c, 'o, 'k, 'm, 'h, 'e, 'l, 'w) HftConfig \<Rightarrow> ('c \<Rightarrow> 'k \<Rightarrow> 'a \<Rightarrow> nat) \<Rightarrow> ('k \<Rightarrow> nat) \<Rightarrow> 'a \<Rightarrow>
   ('m DispatchPost \<Rightarrow> 'a FeeMetadata \<Rightarrow> nat) \<Rightarrow> bool" where
  "dispatcher_law T holding floor F cost \<longleftrightarrow>
     (\<forall>p f c h c'. dispatch_request T p f c = Some (h, c') \<longrightarrow>
        asset_decimals T c' = asset_decimals T c \<and>
        moves holding floor (NativeAssetId T) (Some (payer f)) (Some F) (cost p f) c c')"

definition codec_laws :: "('a, 'c, 'o, 'k, 'm, 'h, 'e, 'l, 'w) HftConfig \<Rightarrow> bool" where
  "codec_laws T \<longleftrightarrow>
     (\<forall>m. abi_decode T (abi_encode T m) = Inr m) \<and>
     (\<forall>a. length (account_bytes T a) = 32 \<and> account_from T (account_bytes T a) = a)"

definition custody ::
  "('a, 'c, 'o, 'k, 'm, 'h, 'e, 'l, 'w) HftConfig \<Rightarrow> 'k \<Rightarrow> ('a, 'c, 'k, 'm, 'h) HftStorage \<Rightarrow> 'a option" where
  "custody T k st = (if k = NativeAssetId T \<or> NativeAssets st k then Some (pallet_account T) else None)"

lemma take_in_moves:
  assumes "asset_laws T holding floor" "take_in T k who amt st = Inr c"
  shows "moves holding floor k (Some who) (custody T k st) (unat amt) (hext st) c \<and>
    asset_decimals T c = asset_decimals T (hext st)"
proof (cases "k = NativeAssetId T")
  case True
  with assms show ?thesis unfolding take_in_def custody_def asset_laws_def by simp
next
  case False
  with assms show ?thesis
    unfolding take_in_def custody_def asset_laws_def by (cases "NativeAssets st k") simp_all
qed

lemma pay_out_result:
  "pay_out T k who amt st = (r, st') \<Longrightarrow>
   r = Done () \<and> (\<exists>c. st' = st\<lparr>hext := c\<rparr>) \<or>
   (\<exists>e. r = Fail (TransferFailed e) \<or> r = Fail (MintFailed e)) \<and> st' = st"
  by (auto simp: pay_out_def then_do_def try_result_def split: if_splits sum.splits)

lemma pay_out_moves:
  assumes "asset_laws T holding floor" "pay_out T k who amt st = (Done (), st')"
  shows "moves holding floor k (custody T k st) (Some who) (unat amt) (hext st) (hext st')"
proof (cases "k = NativeAssetId T")
  case True
  then obtain c where c: "native_transfer T (pallet_account T) who amt AllowDeath (hext st) = Inr c" "st' = st\<lparr>hext := c\<rparr>"
    using assms(2) by (auto simp: pay_out_def result_simps)
  then show ?thesis using assms(1) True unfolding asset_laws_def custody_def by simp
next
  case False
  show ?thesis
  proof (cases "NativeAssets st k")
    case True
    with False obtain c where c: "asset_transfer T k (pallet_account T) who amt Expendable (hext st) = Inr c"
      "st' = st\<lparr>hext := c\<rparr>"
      using assms(2) by (auto simp: pay_out_def result_simps)
    then show ?thesis using assms(1) True False unfolding asset_laws_def custody_def by simp
  next
    case nat: False
    with False obtain c where c: "mint_into T k who amt (hext st) = Inr c" "st' = st\<lparr>hext := c\<rparr>"
      using assms(2) by (auto simp: pay_out_def result_simps)
    then show ?thesis using assms(1) nat False unfolding asset_laws_def custody_def by simp
  qed
qed

text \<open>An amount that moves there and back, with \<open>z\<close> of another asset moved on by the same account in between,
  leaves everything but that as it was, up to dust of the accounts that paid.\<close>

lemma moves_back:
  assumes "moves holding floor k (Some x) y n c c1" "moves holding floor j (Some x) (Some w) z c1 c2"
    and "moves holding floor k y (Some x) n c2 c3"
  shows "holding c3 k' a + (if k' = j \<and> a = x then z else 0) = holding c k' a + (if k' = j \<and> a = w then z else 0) \<or>
    k' \<in> {k, j} \<and> (a = x \<or> y = Some a) \<and>
    holding c3 k' a + (if k' = j \<and> a = x then z else 0) < holding c k' a + (if k' = j \<and> a = w then z else 0) \<and>
    holding c k' a + (if k' = j \<and> a = w then z else 0) <
      holding c3 k' a + (if k' = j \<and> a = x then z else 0) + floor k'"
  using assms(1) [unfolded moves_def, rule_format, of k' a] assms(2) [unfolded moves_def, rule_format, of k' a]
    assms(3) [unfolded moves_def, rule_format, of k' a]
  by (cases "a = x"; cases "a = w"; cases "y = Some a"; cases "k' = k"; cases "k' = j"; simp; linarith?)

subsection \<open>The refund\<close>

lemma address_bytes_32 [simp]: "length bs = 32 \<Longrightarrow> address_bytes bs = Some bs"
  by (simp add: address_bytes_def)

text \<open>The request the host keeps for a post that was dispatched from state machine \<open>src\<close>.\<close>

definition request_of :: "'m \<Rightarrow> 'm DispatchPost \<Rightarrow> 'm PostRequest" where
  "request_of src p =
     \<lparr>source = src, dest = post_dest p, from_module = post_from p, to_module = post_to p, body = post_body p\<rparr>"

text \<open>The callback for the timeout of a message that \<^verbatim>\<open>send\<close> dispatched, in any state that still
  knows the contract and its decimals: it pays the sender the amount that was sent.\<close>

lemma on_timeout_of_send:
  fixes T :: "('a, 'c, 'o, 'k, 'm, 'h, 'e, 'l, 'w) HftConfig"
  assumes "codec_laws T"
    and "convert_to_erc20 (send_amount params) d l = (Done x :: ('b, u256) outcome)"
    and "decimals_gap d l < 128"
    and "p = send_post T params contract (send_message T who params x)"
    and "ContractToAsset st (destination params) contract = Some k"
    and "Precisions st k (destination params) = Some d" "local_decimals T k (hext st) = l"
  shows "on_timeout T (TimeoutRequest (Post (request_of src p))) st =
    then_do (pay_out T k who (send_amount params) st) (\<lambda>_ st'.
      (Done (db_reads_writes (hft_weights T) 5 2),
       hft_deposit_event (TokenRefunded who (send_amount params) (destination params)) st'))"
proof -
  have "convert_to_balance x d l = Done (send_amount params)"
    using convert_round_trip assms(2,3) by blast
  with assms show ?thesis
    by (simp add: codec_laws_def send_post_def send_message_def request_of_def local_amount_def Let_def)
qed

subsection \<open>Calldata\<close>

text \<open>The errors of the part of \<^verbatim>\<open>on_accept\<close> that runs after the payment.\<close>

fun is_call_error :: "('m, 'e) HftError \<Rightarrow> bool" where
  "is_call_error (CalldataDecodeError e) = True"
| "is_call_error (SignatureDecodeError e) = True"
| "is_call_error SignatureVerificationFailed = True"
| "is_call_error EcdsaRecoveryFailed = True"
| "is_call_error EthSignatureUnsupported = True"
| "is_call_error (RuntimeCallDecodeError e) = True"
| "is_call_error (CallDispatchError e) = True"
| "is_call_error _ = False"

lemma verify_signature_error: "verify_signature T b bs p s = Inl e \<Longrightarrow> is_call_error e"
  by (cases s) (auto simp: result_simps)

lemma call_origin_error: "call_origin T src f bs data st = Fail e \<Longrightarrow> is_call_error e"
  by (auto simp: call_origin_def sender_origin_def Let_def result_simps
      split: option.splits if_splits dest: verify_signature_error)

lemma execute_calldata_error:
  "execute_calldata T src msg bs st = (Fail e, st') \<Longrightarrow> st' = st \<and> is_call_error e"
  by (auto simp: execute_calldata_def then_do_def try_result_def
      split: if_splits sum.splits outcome.splits dest: call_origin_error)

text \<open>The payment \<^verbatim>\<open>on_accept\<close> makes for a message, before the calldata.\<close>

definition accept_payment ::
  "('a, 'c, 'o, 'k, 'm, 'h, 'e, 'l, 'w) HftConfig \<Rightarrow> 'm PostRequest \<Rightarrow> ('a, 'c, 'k, 'm, 'h) HftStorage \<Rightarrow>
   Message \<Rightarrow> 'k \<Rightarrow> byte list \<Rightarrow> u128 \<Rightarrow> bool" where
  "accept_payment T req st message k bs amount \<longleftrightarrow>
     ContractToAsset st (source req) (from_module req) = Some k \<and>
     abi_decode T (body req) = Inr message \<and> address_bytes (msg_to message) = Some bs \<and>
     (\<exists>d. Precisions st k (source req) = Some d \<and>
        convert_to_balance (msg_amount message) d (local_decimals T k (hext st)) = Done amount)"

lemma on_accept_cases:
  assumes "on_accept T req st = (r, st')"
  obtains (early) "st' = st" "\<forall>w. r \<noteq> Done w" "\<forall>e. r = Fail e \<longrightarrow> \<not> is_call_error e"
  | (paid) message k bs amount st1 where
      "accept_payment T req st message k bs amount"
      "pay_out T k (account_from T bs) amount st = (Done (), st1)"
      "(r, st') = then_do (execute_calldata T (source req) message bs st1) (\<lambda>_ st2.
         (Done (db_reads_writes (hft_weights T) 5 2),
          hft_deposit_event (TokenReceived (account_from T bs) amount (source req)) st2))"
proof (cases "\<exists>message k bs amount. accept_payment T req st message k bs amount")
  case False
  have "st' = st \<and> (\<forall>w. r \<noteq> Done w) \<and> (\<forall>e. r = Fail e \<longrightarrow> \<not> is_call_error e)"
    using assms False unfolding accept_payment_def on_accept_def local_amount_def
    by (auto simp: try_option_def try_result_def Let_def then_do_map_fail
        split: option.splits sum.splits outcome.splits)
  then show thesis using early by blast
next
  case True
  then obtain message k bs amount where a: "accept_payment T req st message k bs amount" by blast
  then have eq: "on_accept T req st =
      then_do (pay_out T k (account_from T bs) amount st) (\<lambda>_ st.
      then_do (execute_calldata T (source req) message bs st) (\<lambda>_ st2.
        (Done (db_reads_writes (hft_weights T) 5 2),
         hft_deposit_event (TokenReceived (account_from T bs) amount (source req)) st2)))"
    by (auto simp: accept_payment_def on_accept_def local_amount_def Let_def)
  obtain r1 st1 where p: "pay_out T k (account_from T bs) amount st = (r1, st1)" by fastforce
  from pay_out_result [OF this] show thesis
  proof
    assume "r1 = Done () \<and> (\<exists>c. st1 = st\<lparr>hext := c\<rparr>)"
    with p eq assms a show thesis by (intro paid [OF a]) auto
  next
    assume "(\<exists>e. r1 = Fail (TransferFailed e) \<or> r1 = Fail (MintFailed e)) \<and> st1 = st"
    with p eq assms show thesis by (intro early) auto
  qed
qed

end
