(* ===== verification/Hft_Custody.thy ===== *)
theory Hft_Custody
  imports Hft_Ledger
begin

text \<open>
  The custody of \<^verbatim>\<open>pallet-hyper-fungible-token\<close>: an asset of this chain that is sent away stays in the
  account of the pallet and is paid from there when it comes back, by a message or by a timeout.
  \<open>custody_run\<close> is a history of the bridge in which \<open>i\<close> counts what the senders paid into custody of one
  asset, \<open>e\<close> what the callbacks paid out of it and \<open>n\<close> how often a payment emptied the account. The result
  is an inequality between these counts and the holding of the account, kept by every step.
\<close>

text \<open>The dispatcher takes its fee from the payer it is given and from nobody else.\<close>

definition fee_law ::
  "('a, 'c, 'o, 'k, 'm, 'h, 'e, 'l, 'w) HftConfig \<Rightarrow> ('c \<Rightarrow> 'k \<Rightarrow> 'a \<Rightarrow> nat) \<Rightarrow> bool" where
  "fee_law T holding \<longleftrightarrow>
     (\<forall>p f c h c' k a. dispatch_request T p f c = Some (h, c') \<longrightarrow> a \<noteq> payer f \<longrightarrow> holding c k a \<le> holding c' k a)"

text \<open>What \<^verbatim>\<open>on_timeout\<close> pays for a request, the counterpart of \<open>accept_payment\<close>.\<close>

definition refund_payment ::
  "('a, 'c, 'o, 'k, 'm, 'h, 'e, 'l, 'w) HftConfig \<Rightarrow> 'm PostRequest \<Rightarrow> ('a, 'c, 'k, 'm, 'h) HftStorage \<Rightarrow>
   Message \<Rightarrow> 'k \<Rightarrow> byte list \<Rightarrow> u128 \<Rightarrow> bool" where
  "refund_payment T req st message k bs amount \<longleftrightarrow>
     ContractToAsset st (dest req) (to_module req) = Some k \<and>
     abi_decode T (body req) = Inr message \<and> address_bytes (msg_from message) = Some bs \<and>
     (\<exists>d. Precisions st k (dest req) = Some d \<and>
        convert_to_balance (msg_amount message) d (local_decimals T k (hext st)) = Done amount)"

text \<open>The part of an amount of asset \<open>k'\<close> that the custody of \<open>k\<close> takes or gives: all of it for the same
  asset, as long as it is one of this chain, else nothing.\<close>

definition backing ::
  "('a, 'c, 'o, 'k, 'm, 'h, 'e, 'l, 'w) HftConfig \<Rightarrow> 'k \<Rightarrow> ('a, 'c, 'k, 'm, 'h) HftStorage \<Rightarrow> 'k \<Rightarrow> u128 \<Rightarrow> nat" where
  "backing T k st k' amt = (if k' = k \<and> custody T k st = Some (pallet_account T) then unat amt else 0)"

definition emptied :: "('c \<Rightarrow> 'k \<Rightarrow> 'a \<Rightarrow> nat) \<Rightarrow> 'k \<Rightarrow> 'a \<Rightarrow> 'c \<Rightarrow> 'c \<Rightarrow> nat" where
  "emptied holding k a c c' = (if holding c k a \<noteq> 0 \<and> holding c' k a = 0 then 1 else 0)"

inductive custody_run ::
  "('a, 'c, 'o, 'k, 'm, 'h, 'e, 'l, 'w) HftConfig \<Rightarrow> ('c \<Rightarrow> 'k \<Rightarrow> 'a \<Rightarrow> nat) \<Rightarrow> 'k \<Rightarrow>
   ('a, 'c, 'k, 'm, 'h) HftStorage \<Rightarrow> nat \<Rightarrow> nat \<Rightarrow> nat \<Rightarrow> ('a, 'c, 'k, 'm, 'h) HftStorage \<Rightarrow> bool"
  for T holding k st0 where
  start: "custody_run T holding k st0 0 0 0 st0"
| sent: "custody_run T holding k st0 i e n st \<Longrightarrow> send T og params st = Done st' \<Longrightarrow>
    ensure_signed (hft_system T) og = Some who \<Longrightarrow> who \<noteq> pallet_account T \<Longrightarrow>
    custody_run T holding k st0 (i + backing T k st (asset_id params) (send_amount params)) e n st'"
| accepted: "custody_run T holding k st0 i e n st \<Longrightarrow> on_accept T req st = (Done w, st') \<Longrightarrow>
    accept_payment T req st message k' bs amount \<Longrightarrow> msg_data message = [] \<Longrightarrow>
    custody_run T holding k st0 i (e + backing T k st k' amount)
      (n + emptied holding k (pallet_account T) (hext st) (hext st')) st'"
| timed_out: "custody_run T holding k st0 i e n st \<Longrightarrow> on_timeout T (TimeoutRequest (Post req)) st = (Done w, st') \<Longrightarrow>
    refund_payment T req st message k' bs amount \<Longrightarrow>
    custody_run T holding k st0 i (e + backing T k st k' amount)
      (n + emptied holding k (pallet_account T) (hext st) (hext st')) st'"
| registered: "custody_run T holding k st0 i e n st \<Longrightarrow> register_token T og r st = Done st' \<Longrightarrow>
    custody_run T holding k st0 i e n st'"
| updated: "custody_run T holding k st0 i e n st \<Longrightarrow> update_token T og u st = Done st' \<Longrightarrow>
    custody_run T holding k st0 i e n st'"
| elsewhere: "custody_run T holding k st0 i e n st \<Longrightarrow>
    holding (hext st) k (pallet_account T) \<le> holding c k (pallet_account T) \<Longrightarrow>
    custody_run T holding k st0 i e n (st\<lparr>hext := c\<rparr>)"

subsection \<open>One operation\<close>

lemma take_in_backing:
  assumes "asset_laws T holding floor" "take_in T k' who amt st = Inr c" "who \<noteq> pallet_account T"
  shows "holding (hext st) k (pallet_account T) + backing T k st k' amt = holding c k (pallet_account T)"
  using take_in_moves [OF assms(1,2)] assms(3) unfolding moves_def backing_def
  by (auto simp: custody_def dest!: spec [of _ k] spec [of _ "pallet_account T"] split: if_splits)

lemma pay_out_backing:
  assumes "asset_laws T holding floor" "pay_out T k' who amt st = (Done (), st')"
  shows "holding (hext st) k (pallet_account T) \<le> holding (hext st') k (pallet_account T) +
    backing T k st k' amt + emptied holding k (pallet_account T) (hext st) (hext st') * floor k"
  using pay_out_moves [OF assms, unfolded moves_def, rule_format, of k "pallet_account T"]
  unfolding backing_def emptied_def by (auto split: if_splits)

lemma send_backing:
  assumes "asset_laws T holding floor" "fee_law T holding" "send T og params st = Done st'"
    and "ensure_signed (hft_system T) og = Some who" "who \<noteq> pallet_account T"
  shows "holding (hext st) k (pallet_account T) + backing T k st (asset_id params) (send_amount params) \<le>
    holding (hext st') k (pallet_account T)"
proof (rule send_Done [OF assms(3), where ?'b = unit])
  fix who' contract d c x h c'
  assume s: "ensure_signed (hft_system T) og = Some who'"
    "take_in T (asset_id params) who' (send_amount params) st = Inr c"
    "dispatch_request T (send_post T params contract (send_message T who' params x))
       \<lparr>payer = who', fee = relayer_fee params\<rparr> c = Some (h, c')"
    "st' = hft_deposit_event (TokenSent who' (recipient params) (send_amount params) (destination params) h)
       (st\<lparr>hext := c'\<rparr>)"
  have "holding c k (pallet_account T) \<le> holding c' k (pallet_account T)"
    using assms(2,4,5) s(1,3) unfolding fee_law_def by fastforce
  moreover have "holding (hext st) k (pallet_account T) + backing T k st (asset_id params) (send_amount params) =
      holding c k (pallet_account T)"
    using take_in_backing [OF assms(1) s(2)] s(1) assms(4,5) by simp
  ultimately show ?thesis by (simp add: s(4))
qed

text \<open>A callback that succeeds leaves the state of its payment.\<close>

lemma on_accept_pays:
  assumes "on_accept T req st = (Done w, st')" "accept_payment T req st message k bs amount" "msg_data message = []"
  obtains st1 where "pay_out T k (account_from T bs) amount st = (Done (), st1)" "hext st' = hext st1"
  using assms(1)
proof (cases rule: on_accept_cases)
  case (paid message' k' bs' amount' st1)
  with assms(2) have "message' = message" "k' = k" "bs' = bs" "amount' = amount"
    by (auto simp: accept_payment_def)
  with paid assms(3) show thesis by (intro that [of st1]) (simp_all add: execute_calldata_def)
qed simp

lemma on_timeout_pays:
  assumes "on_timeout T (TimeoutRequest (Post req)) st = (Done w, st')" "refund_payment T req st message k bs amount"
  obtains st1 where "pay_out T k (account_from T bs) amount st = (Done (), st1)" "hext st' = hext st1"
proof -
  have "then_do (pay_out T k (account_from T bs) amount st) (\<lambda>_ st.
      (Done (db_reads_writes (hft_weights T) 5 2),
       hft_deposit_event (TokenRefunded (account_from T bs) amount (dest req)) st)) = (Done w, st')"
    using assms by (auto simp: refund_payment_def local_amount_def Let_def)
  then show thesis using that by (auto simp: result_simps)
qed

subsection \<open>A history of the bridge\<close>

lemma custody_run_backed:
  assumes "custody_run T holding k st0 i e n st" "asset_laws T holding floor" "fee_law T holding"
  shows "holding (hext st0) k (pallet_account T) + i \<le> holding (hext st) k (pallet_account T) + e + n * floor k"
  using assms(1)
proof (induction rule: custody_run.induct)
  case (sent i e n st og params st' who)
  from send_backing [OF assms(2,3) sent.hyps(2-4), of k] sent.IH show ?case by simp
next
  case (accepted i e n st req w st' message k' bs amount)
  from accepted.hyps(2-4) obtain st1 where "pay_out T k' (account_from T bs) amount st = (Done (), st1)"
    "hext st' = hext st1" by (rule on_accept_pays)
  with pay_out_backing [OF assms(2) this(1), of k] accepted.IH show ?case by (simp add: algebra_simps)
next
  case (timed_out i e n st req w st' message k' bs amount)
  from timed_out.hyps(2,3) obtain st1 where "pay_out T k' (account_from T bs) amount st = (Done (), st1)"
    "hext st' = hext st1" by (rule on_timeout_pays)
  with pay_out_backing [OF assms(2) this(1), of k] timed_out.IH show ?case by (simp add: algebra_simps)
qed (simp_all add: registry_call_hext)

end
