(* ===== verification/Sample_Bridge.thy ===== *)
theory Sample_Bridge
  imports Hft_Custody
begin

text \<open>
  A concrete configuration of the bridge that computes and meets the laws of \<open>Hft_Ledger\<close> and \<open>Hft_Custody\<close>: accounts
  are bytes, assets numbers (0 is the native one), a chain is a number (2 is an EVM chain) and the state
  of the asset pallets is a table of balances. Messages are encoded with a marker before every byte.
\<close>

type_synonym book = "u32 \<Rightarrow> byte \<Rightarrow> u128"

definition take_from :: "u32 \<Rightarrow> byte \<Rightarrow> u128 \<Rightarrow> book \<Rightarrow> string + book" where
  "take_from k a amt c = (if amt \<le> c k a then Inr (c(k := (c k)(a := c k a - amt))) else Inl ''funds'')"

definition give_to :: "u32 \<Rightarrow> byte \<Rightarrow> u128 \<Rightarrow> book \<Rightarrow> string + book" where
  "give_to k a amt c =
     (if unat (c k a) + unat amt < 2 ^ 128 then Inr (c(k := (c k)(a := c k a + amt))) else Inl ''overflow'')"

definition transfer_between :: "u32 \<Rightarrow> byte \<Rightarrow> byte \<Rightarrow> u128 \<Rightarrow> book \<Rightarrow> string + book" where
  "transfer_between k a b amt c = and_then (take_from k a amt c) (give_to k b amt)"

fun put_bytes :: "byte list \<Rightarrow> byte list" where
  "put_bytes [] = [0]"
| "put_bytes (b # bs) = 1 # b # put_bytes bs"

fun get_bytes :: "byte list \<Rightarrow> (byte list \<times> byte list) option" where
  "get_bytes (x # y) =
     (if x = 0 then Some ([], y)
      else case y of [] \<Rightarrow> None | b # r \<Rightarrow> map_option (\<lambda>(bs, s). (b # bs, s)) (get_bytes r))"
| "get_bytes [] = None"

definition sample_encode :: "Message \<Rightarrow> byte list" where
  "sample_encode m =
     put_bytes (msg_from m) @ put_bytes (msg_to m) @ put_bytes (msg_data m) @
     replicate (unat (msg_amount m)) 1"

definition sample_decode :: "byte list \<Rightarrow> string + Message" where
  "sample_decode bs =
     (case get_bytes bs of
        None \<Rightarrow> Inl ''abi''
      | Some (f, r) \<Rightarrow> (case get_bytes r of
          None \<Rightarrow> Inl ''abi''
        | Some (t, r') \<Rightarrow> (case get_bytes r' of
            None \<Rightarrow> Inl ''abi''
          | Some (d, n) \<Rightarrow>
              Inr \<lparr>msg_from = f, msg_to = t, msg_amount = word_of_nat (length n), msg_data = d\<rparr>)))"

lemma get_put_bytes [simp]: "get_bytes (put_bytes bs @ r) = Some (bs, r)"
  by (induction bs) simp_all

lemma sample_round_trip [simp]: "sample_decode (sample_encode m) = Inr m"
  by (cases m) (simp add: sample_decode_def sample_encode_def)

definition sample_hft_system :: "(byte, book, nat) frame_system" where
  "sample_hft_system =
     \<lparr>block_number = (\<lambda>_. 0), ensure_signed = (\<lambda>og. if og = 0 then None else Some (word_of_nat og)),
      inc_providers = (\<lambda>_ c. c), dec_providers = (\<lambda>_ c. (True, c)), account_exists = (\<lambda>_ _. True)\<rparr>"

text \<open>Asset decimals are 6, native ones 12; account 99 is the account of the pallet; a signature is
  valid when it is the payload.\<close>

definition sample_hft :: "(byte, book, nat, u32, nat, nat, string, unit, u64 \<times> u64) HftConfig" where
  "sample_hft =
     \<lparr>hft_system = sample_hft_system, create_origin = (\<lambda>og. og = 0),
      native_transfer = (\<lambda>a b amt _. transfer_between 0 a b amt),
      asset_transfer = (\<lambda>k a b amt _. transfer_between k a b amt),
      burn_from = (\<lambda>k a amt _ _ _. take_from k a amt), mint_into = give_to,
      asset_decimals = (\<lambda>_ _. 6), NativeAssetId = 0, NativeDecimals = 12,
      EvmToSubstrate = last, account_from = last, account_bytes = (\<lambda>a. replicate 31 0 @ [a]),
      account_of_pallet_id = (\<lambda>_. 99), module_id_bytes = map of_char,
      dispatch_request = (\<lambda>_ _ c. Some (7, c)), is_evm = (\<lambda>m. m = 2),
      abi_encode = sample_encode, abi_decode = sample_decode,
      decode_calldata = (\<lambda>bs. case bs of [] \<Rightarrow> Inl ''calldata''
        | b # r \<Rightarrow> if b = 0 then Inr \<lparr>signature = None, runtime_call = r\<rparr>
                   else if b = 1 then Inr \<lparr>signature = Some r, runtime_call = r\<rparr> else Inl ''calldata''),
      decode_signature = (\<lambda>s. Inr (Ed25519 s)), decode_call = (\<lambda>_. Inr ()),
      account_nonce = (\<lambda>_ _. 0), inc_account_nonce = (\<lambda>_ c. c), encode_payload = (\<lambda>_ bs. bs),
      keccak_256 = id, ed25519_verify = (\<lambda>s m _. s = m), sr25519_verify = (\<lambda>s m _. s = m),
      ecdsa_recover = (\<lambda>_ _. None), dispatch_call = (\<lambda>_ _ st. Inr st),
      hft_weights = \<lparr>from_parts = Pair, weight_add = (\<lambda>x y. (fst x + fst y, snd x + snd y)),
        weight_mul = (\<lambda>x n. (fst x * n, snd x * n)), db_reads = (\<lambda>n. (n, 0)), db_writes = (\<lambda>n. (n, 0)),
        db_reads_writes = (\<lambda>r w. (r + w, 0))\<rparr>\<rparr>"

lemma sample_hft_simps [simp]:
  "ensure_signed (hft_system sample_hft) og = (if og = 0 then None else Some (word_of_nat og))"
  "create_origin sample_hft og = (og = 0)"
  "native_transfer sample_hft a b amt er = transfer_between 0 a b amt"
  "asset_transfer sample_hft k a b amt pr = transfer_between k a b amt"
  "burn_from sample_hft k a amt pr prec f = take_from k a amt" "mint_into sample_hft = give_to"
  "asset_decimals sample_hft c k = 6" "NativeAssetId sample_hft = 0" "NativeDecimals sample_hft = 12"
  "EvmToSubstrate sample_hft = last" "account_from sample_hft = last"
  "account_bytes sample_hft x = replicate 31 0 @ [x]" "pallet_account sample_hft = 99"
  "dispatch_request sample_hft p fm c = Some (7, c)" "is_evm sample_hft m = (m = 2)"
  "abi_encode sample_hft = sample_encode" "abi_decode sample_hft = sample_decode"
  "decode_signature sample_hft s = Inr (Ed25519 s)" "decode_call sample_hft s = Inr ()"
  "encode_payload sample_hft n s = s" "keccak_256 sample_hft s = s"
  "ed25519_verify sample_hft s s' q = (s = s')" "dispatch_call sample_hft u x st = Inr st"
  "inc_account_nonce sample_hft x c = c"
  by (simp_all add: sample_hft_def sample_hft_system_def pallet_account_def)

lemma sample_decode_calldata [simp]:
  "decode_calldata sample_hft [] = Inl ''calldata''"
  "decode_calldata sample_hft (0 # r) = Inr \<lparr>signature = None, runtime_call = r\<rparr>"
  "decode_calldata sample_hft (1 # r) = Inr \<lparr>signature = Some r, runtime_call = r\<rparr>"
  "decode_calldata sample_hft (2 # r) = Inl ''calldata''"
  by (simp_all add: sample_hft_def)

definition sample_holding :: "book \<Rightarrow> u32 \<Rightarrow> byte \<Rightarrow> nat" where
  "sample_holding c k a = unat (c k a)"

text \<open>Nothing of the sample book is ever lost as dust.\<close>

lemma take_from_exact:
  "take_from k a amt c = Inr c' \<Longrightarrow>
   sample_holding c' k' b + (if k' = k \<and> b = a then unat amt else 0) = sample_holding c k' b"
  by (auto simp: take_from_def sample_holding_def unat_sub word_le_nat_alt split: if_splits)

lemma give_to_exact:
  "give_to k a amt c = Inr c' \<Longrightarrow>
   sample_holding c' k' b = sample_holding c k' b + (if k' = k \<and> b = a then unat amt else 0)"
  by (auto simp: give_to_def sample_holding_def unat_word_ariths split: if_splits)

lemma take_from_moves: "take_from k a amt c = Inr c' \<Longrightarrow> moves sample_holding fl k (Some a) None (unat amt) c c'"
  unfolding moves_def by (intro allI disjI1) (simp add: take_from_exact eq_commute [of a])

lemma give_to_moves: "give_to k a amt c = Inr c' \<Longrightarrow> moves sample_holding fl k None (Some a) (unat amt) c c'"
  unfolding moves_def by (intro allI disjI1) (simp add: give_to_exact eq_commute [of a])

lemma transfer_between_moves:
  assumes "transfer_between k a b amt c = Inr c'"
  shows "moves sample_holding fl k (Some a) (Some b) (unat amt) c c'"
proof -
  obtain c1 where c1: "take_from k a amt c = Inr c1" "give_to k b amt c1 = Inr c'"
    using assms by (auto simp: transfer_between_def result_simps)
  have "sample_holding c' k' x + (if k' = k \<and> Some a = Some x then unat amt else 0) =
      sample_holding c k' x + (if k' = k \<and> Some b = Some x then unat amt else 0)" for k' x
    using take_from_exact [OF c1(1), of k' x] give_to_exact [OF c1(2), of k' x] by auto
  then show ?thesis unfolding moves_def by blast
qed

lemma sample_asset_laws: "asset_laws sample_hft sample_holding fl"
  unfolding asset_laws_def sample_hft_simps
  by (intro conjI allI impI ext) (auto dest: transfer_between_moves take_from_moves give_to_moves)

lemma sample_codec_laws: "codec_laws sample_hft"
  by (simp add: codec_laws_def)

text \<open>The same with a dispatcher that takes the relayer fee, for account 98.\<close>

definition charging_hft :: "(byte, book, nat, u32, nat, nat, string, unit, u64 \<times> u64) HftConfig" where
  "charging_hft = sample_hft\<lparr>dispatch_request := \<lambda>p f c.
     case transfer_between 0 (payer f) 98 (fee f) c of Inl _ \<Rightarrow> None | Inr c' \<Rightarrow> Some (7, c')\<rparr>"

lemma charging_hft_simps [simp]:
  "ensure_signed (hft_system charging_hft) og = (if og = 0 then None else Some (word_of_nat og))"
  "native_transfer charging_hft a b amt er = transfer_between 0 a b amt"
  "NativeAssetId charging_hft = 0" "local_decimals charging_hft k c = (if k = 0 then 12 else 6)"
  "pallet_account charging_hft = 99"
  "dispatch_request charging_hft p f c =
     (case transfer_between 0 (payer f) 98 (fee f) c of Inl _ \<Rightarrow> None | Inr c' \<Rightarrow> Some (7, c'))"
  by (simp_all add: charging_hft_def local_decimals_def sample_hft_def sample_hft_system_def pallet_account_def)

lemma charging_laws:
  "asset_laws charging_hft sample_holding fl" "codec_laws charging_hft"
  "dispatcher_law charging_hft sample_holding fl 98 (\<lambda>p f. unat (fee f))"
proof -
  show "asset_laws charging_hft sample_holding fl"
    using sample_asset_laws [of fl] by (simp add: charging_hft_def asset_laws_def)
  show "codec_laws charging_hft"
    by (simp add: charging_hft_def codec_laws_def)
  show "dispatcher_law charging_hft sample_holding fl 98 (\<lambda>p f. unat (fee f))"
    unfolding dispatcher_law_def
    by (auto simp: charging_hft_def split: sum.splits dest: transfer_between_moves)
qed

lemma sample_fee: "fee_law sample_hft sample_holding"
  by (simp add: fee_law_def)

lemma sample_calls: "calls_law sample_hft"
  by (simp add: calls_law_def)

end
