(* ===== verification/Hft_Properties.thy ===== *)
theory Hft_Properties
  imports Sample_Bridge
begin

text \<open>
  The properties of \<^verbatim>\<open>pallet-hyper-fungible-token\<close>, each followed by a witness on the sample
  bridge where it has hypotheses.
\<close>

subsection \<open>Amounts\<close>

text \<open>With decimals that differ by at most 38, the local amount of an ERC-20 amount is the largest
  one whose ERC-20 value does not exceed it: the remainder below one local unit is dropped. The
  conversion fails, with the overflow error of the parser, exactly when that amount does not fit in
  128 bits.\<close>

lemma convert_to_balance_truncates:
  assumes "decimals_gap e l \<le> 38"
  shows "(\<exists>b. convert_to_balance v e l = Done b \<and> unat b * 10 ^ decimals_gap e l \<le> unat v \<and>
       unat v < (unat b + 1) * 10 ^ decimals_gap e l) \<or>
     convert_to_balance v e l = Fail PosOverflow \<and> 2 ^ 128 * 10 ^ decimals_gap e l \<le> unat v"
proof (cases "unat v div 10 ^ decimals_gap e l < 2 ^ 128")
  case True
  let ?q = "unat v div 10 ^ decimals_gap e l"
  have "unat (word_of_nat ?q :: u128) = ?q" using True by (simp add: unat_of_nat)
  moreover have "?q * 10 ^ decimals_gap e l \<le> unat v" "unat v < (?q + 1) * 10 ^ decimals_gap e l"
    using dividend_less_times_div [of "10 ^ decimals_gap e l" "unat v"] by (simp_all add: mult.commute)
  ultimately show ?thesis
    using True by (intro disjI1 exI [of _ "word_of_nat ?q"]) (simp add: convert_to_balance_eq unat_scale_exact assms)
next
  case False
  then have "2 ^ 128 * 10 ^ decimals_gap e l \<le> unat v"
    by (simp add: less_eq_div_iff_mult_less_eq not_less)
  with False show ?thesis by (simp add: convert_to_balance_eq unat_scale_exact assms)
qed

text \<open>An amount \<open>x\<close> with \<open>d\<close> decimals is worth \<open>x / 10 ^ d\<close>. The same facts in terms of worth, which does not
  mention the difference of the decimals.\<close>

lemma worth_scaled:
  assumes "unat l \<le> unat e"
  shows "(10 :: nat) ^ unat e = 10 ^ decimals_gap e l * 10 ^ unat l"
  using assms by (simp add: decimals_gap_def flip: power_add)

lemma convert_to_balance_worth:
  assumes "l \<le> e" "unat e \<le> unat l + 38"
  shows "(\<exists>b. convert_to_balance y e l = Done b \<and> unat b * 10 ^ unat e \<le> unat y * 10 ^ unat l \<and>
       unat y * 10 ^ unat l < (unat b + 1) * 10 ^ unat e) \<or>
     convert_to_balance y e l = Fail PosOverflow \<and> 2 ^ 128 * 10 ^ unat e \<le> unat y * 10 ^ unat l"
proof -
  have le: "unat l \<le> unat e" using assms(1) by (simp add: word_le_nat_alt)
  have "decimals_gap e l \<le> 38" using assms(2) by (simp add: decimals_gap_def)
  from convert_to_balance_truncates [OF this, of y] show ?thesis
    unfolding worth_scaled [OF le] mult.assoc [symmetric]
    by (auto simp del: mult_Suc simp flip: Suc_eq_plus1)
qed

lemma scale_below: "e < l \<Longrightarrow> unat (scale e l) = 1"
  using unat_scale_exact [of e l] by (simp add: decimals_gap_def word_less_nat_alt)

text \<open>C21. Converting a local amount to the ERC-20 amount never overflows, and if the ERC-20 decimals exceed the
  local ones by less than 128, or not at all, converting it back gives the amount again, whatever the amount. If
  they exceed them by at most 38, or are equal, the conversions are right: the ERC-20 amount is worth exactly the local
  one, and the local amount of any ERC-20 amount is the largest one that is worth no more, or the parser's
  overflow error, exactly when that does not fit in 128 bits. If the ERC-20 decimals are below the local ones
  nothing is scaled in either direction: the number of units is kept, so what arrives on the other
  chain is worth more than what was sent, by a factor of ten for each decimal.\<close>

theorem conversion_round_trip:
  assumes "unat e < unat l + 128"
  shows "(\<exists>x. convert_to_erc20 v e l = (Done x :: (unit, u256) outcome) \<and> convert_to_balance x e l = Done v \<and>
      (l \<le> e \<and> unat e \<le> unat l + 38 \<longrightarrow> unat x * 10 ^ unat l = unat v * 10 ^ unat e) \<and>
      (e < l \<longrightarrow> unat x = unat v \<and> (v \<noteq> 0 \<longrightarrow> unat v * 10 ^ unat e < unat x * 10 ^ unat l))) \<and>
    (l \<le> e \<and> unat e \<le> unat l + 38 \<longrightarrow>
       (\<exists>b. convert_to_balance y e l = Done b \<and> unat b * 10 ^ unat e \<le> unat y * 10 ^ unat l \<and>
          unat y * 10 ^ unat l < (unat b + 1) * 10 ^ unat e) \<or>
       convert_to_balance y e l = Fail PosOverflow \<and> 2 ^ 128 * 10 ^ unat e \<le> unat y * 10 ^ unat l) \<and>
    (e < l \<longrightarrow> convert_to_balance y e l =
       (if unat y < 2 ^ 128 then Done (word_of_nat (unat y)) else Fail PosOverflow))"
proof -
  obtain x where x: "convert_to_erc20 v e l = (Done x :: (unit, u256) outcome)" "unat x = unat v * unat (scale e l)"
    using convert_to_erc20_eq by blast
  have "decimals_gap e l < 128" using assms by (auto simp: decimals_gap_def)
  from convert_round_trip [OF this x(1)] have again: "convert_to_balance x e l = Done v" .
  have worth: "unat x * 10 ^ unat l = unat v * 10 ^ unat e" if "l \<le> e" "unat e \<le> unat l + 38"
    using that x(2) unat_scale_exact [of e l] worth_scaled [of l e] by (simp add: decimals_gap_def word_le_nat_alt)
  have more: "unat v * 10 ^ unat e < unat x * 10 ^ unat l" if "e < l" "v \<noteq> 0"
    using that x(2) scale_below [OF that(1)] by (simp add: word_less_nat_alt unat_gt_0)
  show ?thesis
    using x scale_below [of e l] again worth more convert_to_balance_worth [of l e y] convert_to_balance_eq [of y e l]
    by (intro conjI exI [of _ x] impI) simp_all
qed

theorem conversion_round_trip_witness:
  "(\<exists>x. convert_to_erc20 (5 :: u128) 18 12 = (Done x :: (unit, u256) outcome) \<and> convert_to_balance x 18 12 = Done 5 \<and>
     unat x * 10 ^ 12 = 5 * 10 ^ 18) \<and>
   ((\<exists>b. convert_to_balance 2500000 18 12 = Done b \<and> unat b * 10 ^ 18 \<le> (2500000 :: nat) * 10 ^ 12 \<and>
      (2500000 :: nat) * 10 ^ 12 < (unat b + 1) * 10 ^ 18) \<or>
    convert_to_balance 2500000 18 12 = Fail PosOverflow \<and> (2 :: nat) ^ 128 * 10 ^ 18 \<le> 2500000 * 10 ^ 12) \<and>
   (\<exists>x. convert_to_erc20 (5 :: u128) 6 12 = (Done x :: (unit, u256) outcome) \<and> (5 :: nat) * 10 ^ 6 < unat x * 10 ^ 12)"
proof (intro conjI)
  show "\<exists>x. convert_to_erc20 (5 :: u128) 18 12 = (Done x :: (unit, u256) outcome) \<and> convert_to_balance x 18 12 = Done 5 \<and>
     unat x * 10 ^ 12 = 5 * 10 ^ 18"
    using conversion_round_trip [of 18 12 5] by auto
  show "(\<exists>b. convert_to_balance 2500000 18 12 = Done b \<and> unat b * 10 ^ 18 \<le> (2500000 :: nat) * 10 ^ 12 \<and>
      (2500000 :: nat) * 10 ^ 12 < (unat b + 1) * 10 ^ 18) \<or>
    convert_to_balance 2500000 18 12 = Fail PosOverflow \<and> (2 :: nat) ^ 128 * 10 ^ 18 \<le> 2500000 * 10 ^ 12"
    using conversion_round_trip [of 18 12 5 2500000] by simp
  show "\<exists>x. convert_to_erc20 (5 :: u128) 6 12 = (Done x :: (unit, u256) outcome) \<and> (5 :: nat) * 10 ^ 6 < unat x * 10 ^ 12"
    using conversion_round_trip [of 6 12 5] by auto
qed

text \<open>When the decimals differ by 128 or more, \<^verbatim>\<open>10u128.pow\<close> has wrapped to zero: every amount
  is sent as zero, and receiving or refunding any amount panics on a division by zero.\<close>

theorem wide_decimals_lose_everything:
  assumes "128 \<le> decimals_gap e l"
  shows "convert_to_erc20 v e l = (Done 0 :: (unit, u256) outcome) \<and> convert_to_balance x e l = Panic"
proof -
  have z: "unat (scale e l) = 0" using assms by (simp add: scale_zero_iff)
  then obtain y where "convert_to_erc20 v e l = (Done y :: (unit, u256) outcome)" "unat y = 0"
    using convert_to_erc20_eq [of v e l, where ?'a = unit] by auto
  then show ?thesis using z by (simp add: convert_to_balance_eq word_unat_eq_iff [of y])
qed

theorem wide_decimals_lose_everything_witness:
  "convert_to_erc20 5 200 12 = (Done 0 :: (unit, u256) outcome) \<and> convert_to_balance 7 200 12 = Panic"
  using wide_decimals_lose_everything [of 200 12 5 7] by (simp add: decimals_gap_def)

subsection \<open>Refunds\<close>

text \<open>C24. The message a successful \<^verbatim>\<open>send\<close> dispatches can be refunded: in every later state that
  still maps the contract to the asset with the same decimals, less than 128 apart, \<^verbatim>\<open>on_timeout\<close> of
  that request is the payment of exactly the amount sent to exactly the account that sent it, followed
  by the \<^verbatim>\<open>TokenRefunded\<close> event. It cannot fail in any other way than in the payment itself.\<close>

theorem send_can_be_refunded:
  assumes "codec_laws T" and "send T og params st = Done st1"
    and "ensure_signed (hft_system T) og = Some who"
    and "TokenContracts st (destination params) (asset_id params) = Some contract"
    and "Precisions st (asset_id params) (destination params) = Some d"
  shows "\<exists>c x h p. take_in T (asset_id params) who (send_amount params) st = Inr c \<and>
    convert_to_erc20 (send_amount params) d (local_decimals T (asset_id params) c) =
      (Done x :: (unit, u256) outcome) \<and>
    p = send_post T params contract (send_message T who params x) \<and>
    dispatch_request T p \<lparr>payer = who, fee = relayer_fee params\<rparr> c = Some (h, hext st1) \<and>
    (\<forall>src st2. Precisions st2 (asset_id params) (destination params) = Some d \<longrightarrow>
       ContractToAsset st2 (destination params) contract = Some (asset_id params) \<longrightarrow>
       local_decimals T (asset_id params) (hext st2) = local_decimals T (asset_id params) c \<longrightarrow>
       decimals_gap d (local_decimals T (asset_id params) c) < 128 \<longrightarrow>
       on_timeout T (TimeoutRequest (Post (request_of src p))) st2 =
       then_do (pay_out T (asset_id params) who (send_amount params) st2) (\<lambda>_ st3.
         (Done (db_reads_writes (hft_weights T) 5 2),
          hft_deposit_event (TokenRefunded who (send_amount params) (destination params)) st3)))"
proof -
  obtain c x h c' where s:
    "take_in T (asset_id params) who (send_amount params) st = Inr c"
    "convert_to_erc20 (send_amount params) d (local_decimals T (asset_id params) c) =
       (Done x :: (unit, u256) outcome)"
    "dispatch_request T (send_post T params contract (send_message T who params x))
       \<lparr>payer = who, fee = relayer_fee params\<rparr> c = Some (h, c')"
    "st1 = hft_deposit_event (TokenSent who (recipient params) (send_amount params) (destination params) h)
       (st\<lparr>hext := c'\<rparr>)"
    using send_run [OF assms(2-5), where ?'b = unit] by blast
  let ?p = "send_post T params contract (send_message T who params x)"
  have "on_timeout T (TimeoutRequest (Post (request_of src ?p))) st2 =
      then_do (pay_out T (asset_id params) who (send_amount params) st2) (\<lambda>_ st3.
        (Done (db_reads_writes (hft_weights T) 5 2),
         hft_deposit_event (TokenRefunded who (send_amount params) (destination params)) st3))"
    if "Precisions st2 (asset_id params) (destination params) = Some d"
      "ContractToAsset st2 (destination params) contract = Some (asset_id params)"
      "local_decimals T (asset_id params) (hext st2) = local_decimals T (asset_id params) c"
      "decimals_gap d (local_decimals T (asset_id params) c) < 128" for src st2
    using that by (intro on_timeout_of_send [OF assms(1) s(2) _ refl]) simp_all
  with s show ?thesis by (intro exI [of _ c] exI [of _ x] exI [of _ h] exI [of _ ?p]) simp
qed

definition sample_send :: "(u32, nat) SendParams" where
  "sample_send =
     \<lparr>asset_id = 4, destination = 2, recipient = [1, 2], send_amount = 30, timeout = 0, relayer_fee = 0,
      call_data = None\<rparr>"

definition sample_bridge :: "(byte, book, u32, nat, nat) HftStorage" where
  "sample_bridge =
     \<lparr>hext = (\<lambda>_ _. 0)(4 := (\<lambda>_. 0)(11 := 100)),
      TokenContracts = (\<lambda>_ _. None)(2 := (\<lambda>_. None)(4 \<mapsto> [5, 5])),
      ContractToAsset = (\<lambda>_ _. None)(2 := (\<lambda>_. None)([5, 5] \<mapsto> 4)),
      NativeAssets = (\<lambda>_. False), Precisions = (\<lambda>_ _. None)(4 := (\<lambda>_. None)(2 \<mapsto> 18)), hft_events = []\<rparr>"

lemma sample_send_simps [simp]:
  "asset_id sample_send = 4" "destination sample_send = 2" "send_amount sample_send = 30"
  "recipient sample_send = [1, 2]" "relayer_fee sample_send = 0"
  by (simp_all add: sample_send_def)

lemma sample_bridge_simps [simp]:
  "Precisions sample_bridge 4 2 = Some 18" "TokenContracts sample_bridge 2 4 = Some [5, 5]"
  "ContractToAsset sample_bridge 2 [5, 5] = Some 4" "\<not> NativeAssets sample_bridge 4"
  "hext sample_bridge 4 11 = 100"
  by (simp_all add: sample_bridge_def)

lemma sample_send_ok: "\<exists>st1. send sample_hft 11 sample_send sample_bridge = Done st1"
proof -
  obtain x where "convert_to_erc20 30 18 6 = (Done x :: (string DispatchError, u256) outcome)"
    using convert_to_erc20_eq by blast
  then show ?thesis by (simp add: send_def take_in_def take_from_def local_decimals_def)
qed

lemma sample_refund_state:
  assumes "send sample_hft 11 sample_send sample_bridge = Done st1"
  shows "st1 = hft_deposit_event (TokenSent 11 [1, 2] 30 2 7)
    (sample_bridge\<lparr>hext := (hext sample_bridge)(4 := (hext sample_bridge 4)(11 := 70))\<rparr>)"
  using send_run [OF assms, of 11 "[5, 5]" 18, where ?'b = unit]
  by (auto simp: take_in_def take_from_def sample_send_def)

lemma sample_pay_back:
  assumes "send sample_hft 11 sample_send sample_bridge = Done st1"
  shows "pay_out sample_hft 4 11 30 st1 = (Done (), st1\<lparr>hext := (hext st1)(4 := (hext st1 4)(11 := 100))\<rparr>)"
  unfolding sample_refund_state [OF assms] by (simp add: pay_out_def give_to_def)

theorem send_can_be_refunded_witness:
  "\<exists>st1 x w st2. send sample_hft 11 sample_send sample_bridge = Done st1 \<and>
    convert_to_erc20 30 18 6 = (Done x :: (unit, u256) outcome) \<and>
    on_timeout sample_hft (TimeoutRequest (Post (request_of 3
      (send_post sample_hft sample_send [5, 5] (send_message sample_hft 11 sample_send x))))) st1 = (Done w, st2) \<and>
    hft_events st2 = [TokenSent 11 [1, 2] 30 2 7, TokenRefunded 11 30 2]"
proof -
  obtain st1 where ok: "send sample_hft 11 sample_send sample_bridge = Done st1" using sample_send_ok by blast
  from send_can_be_refunded [OF sample_codec_laws ok, of 11 "[5, 5]" 18]
  obtain c x where x: "convert_to_erc20 30 18 6 = (Done x :: (unit, u256) outcome)"
    and t: "on_timeout sample_hft (TimeoutRequest (Post (request_of 3
      (send_post sample_hft sample_send [5, 5] (send_message sample_hft 11 sample_send x))))) st1 =
       then_do (pay_out sample_hft 4 11 30 st1) (\<lambda>_ st3.
         (Done (db_reads_writes (hft_weights sample_hft) 5 2), hft_deposit_event (TokenRefunded 11 30 2) st3))"
    by (auto simp: local_decimals_def decimals_gap_def sample_refund_state [OF ok] simp del: on_timeout.simps)
  show ?thesis using ok x t [unfolded sample_pay_back [OF ok]]
    by (intro exI [of _ st1] exI [of _ x]) (simp add: sample_refund_state [OF ok] sample_bridge_def del: on_timeout.simps)
qed






subsection \<open>The registry\<close>

text \<open>C26. Registering a token refines a map update: the routes of the token are the ones it had,
  overridden by the chains of the registration (a map, so no chain occurs twice), every chain of the
  registration finds the token back from its contract, the custody flag is set, and no route of another
  token changes. Only the privileged origin may register.\<close>

theorem register_token_refines:
  assumes "distinct (map fst (chains r))" and "create_origin T og"
  shows "\<exists>st'. register_token T og r st = Done st' \<and>
    routes st' = (routes st)(local_id r := routes st (local_id r) ++ map_of (chains r)) \<and>
    NativeAssets st' = (NativeAssets st)(local_id r := native r) \<and>
    (\<forall>(m, cfg) \<in> set (chains r). ContractToAsset st' m (token_contract cfg) = Some (local_id r)) \<and>
    (\<forall>m c. m \<notin> fst ` set (chains r) \<longrightarrow> ContractToAsset st' m c = ContractToAsset st m c)"
  using assms
  by (auto simp: register_token_def Let_def routes_fold_insert reverse_fold_insert reverse_fold_insert_other)

definition sample_registration :: "(u32, nat) TokenRegistration" where
  "sample_registration =
     \<lparr>local_id = 8, native = True, chains = [(2, \<lparr>token_contract = [6], decimals = 18\<rparr>)]\<rparr>"

theorem register_token_refines_witness:
  "\<exists>st'. register_token sample_hft 0 sample_registration sample_bridge = Done st' \<and>
    routes st' = (routes sample_bridge)(8 := routes sample_bridge 8 ++ map_of (chains sample_registration)) \<and>
    NativeAssets st' = (NativeAssets sample_bridge)(8 := True) \<and>
    (\<forall>(m, cfg) \<in> set (chains sample_registration). ContractToAsset st' m (token_contract cfg) = Some 8) \<and>
    (\<forall>m c. m \<notin> fst ` set (chains sample_registration) \<longrightarrow>
       ContractToAsset st' m c = ContractToAsset sample_bridge m c)"
proof -
  have r: "local_id sample_registration = 8" "native sample_registration"
    "distinct (map fst (chains sample_registration))"
    by (simp_all add: sample_registration_def)
  from register_token_refines [OF r(3), of sample_hft 0 sample_bridge] show ?thesis
    unfolding r(1) by (simp add: r(2))
qed

text \<open>C27. Updating a token refines a map update followed by a restriction: chains that are both added
  and removed end up removed. A removed chain can no longer be sent to: every \<^verbatim>\<open>send\<close> of the token
  to it fails with \<^verbatim>\<open>TokenContractNotFound\<close>, provided the registry was consistent.\<close>

theorem update_token_refines:
  assumes "distinct (map fst (add_chains u))" and "create_origin T og" and "routes_ok st"
  shows "\<exists>st'. update_token T og u st = Done st' \<and> routes_ok st' \<and>
    routes st' = (routes st)(update_asset_id u :=
      (routes st (update_asset_id u) ++ map_of (add_chains u)) |` (- set (remove_chains u))) \<and>
    (\<forall>og' who params. ensure_signed (hft_system T) og' = Some who \<longrightarrow> asset_id params = update_asset_id u \<longrightarrow>
       destination params \<in> set (remove_chains u) \<longrightarrow>
       send T og' params st' = Fail (Module TokenContractNotFound))"
proof -
  let ?k = "update_asset_id u"
  define st' where "st' = fold (remove_chain ?k) (remove_chains u) (fold (update_chain ?k) (add_chains u) st)"
  have upd: "update_token T og u st = Done st'"
    using assms(2) by (simp add: update_token_def st'_def Let_def)
  have ok: "routes_ok st'" using routes.update_keeps [OF upd assms(3)] .
  have r: "routes st' = (routes st)(?k := (routes st ?k ++ map_of (add_chains u)) |` (- set (remove_chains u)))"
    unfolding st'_def routes_fold_remove routes_fold_update [OF assms(1)] by simp
  have gone: "TokenContracts st' m ?k = None" if "m \<in> set (remove_chains u)" for m
  proof -
    have "routes st' ?k m = None" using that by (simp add: r)
    then show ?thesis using ok by (auto simp: routes_def routes_ok_def split: option.splits)
  qed
  show ?thesis using upd ok r by (auto simp: send_def gone)
qed

definition sample_update :: "(u32, nat) TokenUpdate" where
  "sample_update = \<lparr>update_asset_id = 4, add_chains = [(3, \<lparr>token_contract = [6], decimals = 18\<rparr>)], remove_chains = [2]\<rparr>"

lemma sample_bridge_ok: "routes_ok sample_bridge"
  by (simp add: routes_ok_def sample_bridge_def)

theorem update_token_refines_witness:
  "\<exists>st'. update_token sample_hft 0 sample_update sample_bridge = Done st' \<and> routes_ok st' \<and>
    routes st' = (routes sample_bridge)(update_asset_id sample_update :=
      (routes sample_bridge (update_asset_id sample_update) ++ map_of (add_chains sample_update)) |`
        (- set (remove_chains sample_update))) \<and>
    (\<forall>og' who params. ensure_signed (hft_system sample_hft) og' = Some who \<longrightarrow>
       asset_id params = update_asset_id sample_update \<longrightarrow> destination params \<in> set (remove_chains sample_update) \<longrightarrow>
       send sample_hft og' params st' = Fail (Module TokenContractNotFound))"
  by (rule update_token_refines [OF _ _ sample_bridge_ok]) (simp_all add: sample_update_def)

text \<open>C40. The two ways of replacing the contract of a token on a chain differ: registering the token again
  with another contract leaves the old contract mapped to the token, so its messages are still
  accepted, while updating it with the same chain forgets the old contract.\<close>

theorem reregistration_keeps_old_contract:
  assumes "create_origin T og" and "TokenContracts st m k = Some old" and "ContractToAsset st m old = Some k"
    and "token_contract cfg \<noteq> old"
  shows "\<exists>st1 st2.
    register_token T og \<lparr>local_id = k, native = n, chains = [(m, cfg)]\<rparr> st = Done st1 \<and>
    update_token T og \<lparr>update_asset_id = k, add_chains = [(m, cfg)], remove_chains = []\<rparr> st = Done st2 \<and>
    routes st1 = routes st2 \<and>
    ContractToAsset st1 m old = Some k \<and> ContractToAsset st2 m old = None"
  using assms
  by (simp add: register_token_def update_token_def update_chain_def Let_def routes_insert_chain
      reverse_insert_chain reverse_forget_contract)

theorem reregistration_keeps_old_contract_witness:
  "\<exists>st1 st2.
    register_token sample_hft 0 \<lparr>local_id = 4, native = False, chains = [(2, \<lparr>token_contract = [6], decimals = 18\<rparr>)]\<rparr>
      sample_bridge = Done st1 \<and>
    update_token sample_hft 0
      \<lparr>update_asset_id = 4, add_chains = [(2, \<lparr>token_contract = [6], decimals = 18\<rparr>)], remove_chains = []\<rparr>
      sample_bridge = Done st2 \<and>
    routes st1 = routes st2 \<and>
    ContractToAsset st1 2 [5, 5] = Some 4 \<and> ContractToAsset st2 2 [5, 5] = None"
  by (rule reregistration_keeps_old_contract) simp_all

text \<open>C28. In every reachable state a token has a contract on a chain exactly when it has decimals
  there, so \<^verbatim>\<open>send\<close> never reports \<^verbatim>\<open>DecimalsNotFound\<close>; and it never panics. Runtime calls carried
  by messages are covered: they reach the pallet through its own dispatchables.\<close>

theorem reachable_registry_consistent:
  assumes "calls_law T" and "hft_reachable T st"
  shows "routes_ok st \<and> send T og params st \<noteq> Fail (Module DecimalsNotFound) \<and> send T og params st \<noteq> Panic"
proof (intro conjI)
  show ok: "routes_ok st" by (rule routes.reachable_keeps [OF assms])
  show "send T og params st \<noteq> Panic"
    by (auto simp: send_def result_simps split: prod.splits)
  show "send T og params st \<noteq> Fail (Module DecimalsNotFound)"
  proof
    assume "send T og params st = Fail (Module DecimalsNotFound)"
    then obtain contract where "TokenContracts st (destination params) (asset_id params) = Some contract"
      "Precisions st (asset_id params) (destination params) = None"
      by (auto simp: send_def result_simps split: prod.splits)
    with ok show False unfolding routes_ok_def by (metis option.distinct(1))
  qed
qed

theorem reachable_registry_consistent_witness:
  "\<exists>st. register_token sample_hft 0 sample_registration (hft_genesis (\<lambda>_ _. 0)) = Done st \<and> routes_ok st \<and>
    send sample_hft 11 sample_send st \<noteq> Fail (Module DecimalsNotFound) \<and> send sample_hft 11 sample_send st \<noteq> Panic"
proof -
  obtain st where st: "register_token sample_hft 0 sample_registration (hft_genesis (\<lambda>_ _. 0)) = Done st"
    by (simp add: register_token_def Let_def)
  have "distinct (map fst (chains sample_registration))" by (simp add: sample_registration_def)
  then have "hft_reachable sample_hft st"
    using st by (blast intro: hft_reachable.intros hft_step.call call_step.register)
  with reachable_registry_consistent [OF sample_calls this] st show ?thesis by blast
qed

subsection \<open>Receiving\<close>

text \<open>C30. A message that is accepted and carries no calldata does exactly one thing: it moves the local
  amount of the message, out of the custody of the pallet or newly minted, to the account its recipient
  bytes name (of the custody less than the minimum balance may be left, and burnt), and reports it. Who may send it is decided by the registry: the contract is registered
  for the chain it came from.\<close>

theorem accepted_message_pays_exactly:
  assumes "asset_laws T holding floor" and "on_accept T req st = (Done w, st')"
    and "abi_decode T (body req) = Inr message" and "msg_data message = []"
  shows "\<exists>k bs amount d c. ContractToAsset st (source req) (from_module req) = Some k \<and>
    address_bytes (msg_to message) = Some bs \<and> Precisions st k (source req) = Some d \<and>
    convert_to_balance (msg_amount message) d (local_decimals T k (hext st)) = Done amount \<and>
    moves holding floor k (custody T k st) (Some (account_from T bs)) (unat amount) (hext st) c \<and>
    st' = hft_deposit_event (TokenReceived (account_from T bs) amount (source req)) (st\<lparr>hext := c\<rparr>)"
  using assms(2)
proof (cases rule: on_accept_cases)
  case (paid message' k bs amount st1)
  then have m: "message' = message" using assms(3) by (simp add: accept_payment_def)
  from pay_out_result [OF paid(2)] obtain c where c: "st1 = st\<lparr>hext := c\<rparr>" by auto
  have "st' = hft_deposit_event (TokenReceived (account_from T bs) amount (source req)) st1"
    using paid(3) assms(4) by (simp add: m execute_calldata_def)
  with paid(1) pay_out_moves [OF assms(1) paid(2)] show ?thesis
    unfolding accept_payment_def m by (auto simp: c)
qed simp

definition message_to :: "byte \<Rightarrow> byte list \<Rightarrow> byte list \<Rightarrow> Message" where
  "message_to b f d =
     \<lparr>msg_from = f, msg_to = replicate 31 0 @ [b], msg_amount = 7 * 10 ^ 12 + 5, msg_data = d\<rparr>"

definition request_with :: "Message \<Rightarrow> nat PostRequest" where
  "request_with m =
     \<lparr>source = 2, dest = 0, from_module = [5, 5], to_module = [], body = sample_encode m\<rparr>"

lemma sample_amount: "convert_to_balance (7 * 10 ^ 12 + 5) 18 6 = Done 7"
proof -
  have "unat (scale 18 6) = 10 ^ 12" using unat_scale_exact [of 18 6] by (simp add: decimals_gap_def)
  then show ?thesis unfolding convert_to_balance_eq by simp
qed

lemma sample_accept:
  "on_accept sample_hft (request_with (message_to b f d)) sample_bridge =
   then_do (execute_calldata sample_hft 2 (message_to b f d) (replicate 31 0 @ [b])
       (sample_bridge\<lparr>hext := (hext sample_bridge)(4 := (hext sample_bridge 4)(b := hext sample_bridge 4 b + 7))\<rparr>))
     (\<lambda>_ st. (Done (db_reads_writes (hft_weights sample_hft) 5 2), hft_deposit_event (TokenReceived b 7 2) st))"
proof -
  have "unat (hext sample_bridge 4 b) + 7 < 2 ^ 128" by (simp add: sample_bridge_def)
  then show ?thesis
    by (simp add: on_accept_def request_with_def message_to_def local_amount_def local_decimals_def
        sample_amount [simplified] pay_out_def give_to_def Let_def)
qed

theorem accepted_message_pays_exactly_witness:
  "\<exists>k bs amount d c. ContractToAsset sample_bridge 2 [5, 5] = Some k \<and>
    address_bytes (msg_to (message_to 11 [] [])) = Some bs \<and> Precisions sample_bridge k 2 = Some d \<and>
    convert_to_balance (msg_amount (message_to 11 [] [])) d (local_decimals sample_hft k (hext sample_bridge)) = Done amount \<and>
    moves sample_holding (\<lambda>_. 1) k (custody sample_hft k sample_bridge) (Some (account_from sample_hft bs)) (unat amount)
      (hext sample_bridge) c \<and>
    snd (on_accept sample_hft (request_with (message_to 11 [] [])) sample_bridge) =
      hft_deposit_event (TokenReceived (account_from sample_hft bs) amount 2) (sample_bridge\<lparr>hext := c\<rparr>)"
proof -
  let ?r = "request_with (message_to 11 [] [])"
  obtain st' w where ok: "on_accept sample_hft ?r sample_bridge = (Done w, st')"
    unfolding sample_accept by (simp add: execute_calldata_def message_to_def)
  have r: "source ?r = 2" "from_module ?r = [5, 5]" "abi_decode sample_hft (body ?r) = Inr (message_to 11 [] [])"
    by (simp_all add: request_with_def)
  show ?thesis
    unfolding ok snd_conv
    using accepted_message_pays_exactly [OF sample_asset_laws ok r(3), unfolded r(1,2)]
    by (simp only: message_to_def Message.simps simp_thms)
qed

subsection \<open>Custody\<close>

text \<open>C22. The bridge is solvent: over any history of the pallet, with whatever other pallets do that does not
  spend from its account, what senders put into the custody of an asset of this chain is still held by the
  account of the pallet, except for what messages and refunds paid out of it. Only a payment that empties
  the account can lose anything, and then less than the minimum balance of the asset: what is outstanding on other
  chains is backed up to that dust. The account of the pallet itself never sends, and a message that
  carries a call counts as the message without it followed by the call.\<close>

theorem custody_backs_outstanding:
  assumes "asset_laws T holding floor" and "fee_law T holding" and "custody_run T holding k st0 i e n st"
  shows "holding (hext st0) k (pallet_account T) + i \<le> holding (hext st) k (pallet_account T) + e + n * floor k"
  by (rule custody_run_backed [OF assms(3,1,2)])

text \<open>Account 11 sends 30 of an asset of this chain, and a message pays account 12 back 7 of them.\<close>

definition custody_bridge :: "(byte, book, u32, nat, nat) HftStorage" where
  "custody_bridge = sample_bridge\<lparr>NativeAssets := (\<lambda>k. k = 4)\<rparr>"

lemma custody_bridge_send:
  "\<exists>st1. send sample_hft 11 sample_send custody_bridge = Done st1 \<and> NativeAssets st1 4 \<and>
     ContractToAsset st1 = ContractToAsset sample_bridge \<and> Precisions st1 = Precisions sample_bridge \<and>
     hext st1 = (\<lambda>_ _. 0)(4 := (\<lambda>_. 0)(11 := 70, 99 := 30))"
proof -
  obtain x where "convert_to_erc20 30 18 6 = (Done x :: (string DispatchError, u256) outcome)"
    using convert_to_erc20_eq by blast
  then show ?thesis
    by (simp add: send_def take_in_def transfer_between_def take_from_def give_to_def local_decimals_def
        custody_bridge_def sample_bridge_def hft_deposit_event_def fun_upd_twist)
qed

theorem custody_backs_outstanding_witness:
  "\<exists>st. custody_run sample_hft sample_holding 4 custody_bridge 30 7 0 st \<and>
     sample_holding (hext custody_bridge) 4 99 + 30 \<le> sample_holding (hext st) 4 99 + 7"
proof -
  let ?r = "request_with (message_to 12 [] [])"
  obtain st1 where st1: "send sample_hft 11 sample_send custody_bridge = Done st1" "NativeAssets st1 4"
    "ContractToAsset st1 = ContractToAsset sample_bridge" "Precisions st1 = Precisions sample_bridge"
    "hext st1 = (\<lambda>_ _. 0)(4 := (\<lambda>_. 0)(11 := 70, 99 := 30))"
    using custody_bridge_send by blast
  have "custody_run sample_hft sample_holding 4 custody_bridge 30 0 0 st1"
    using custody_run.sent [OF custody_run.start st1(1), of 11 sample_holding 4]
    by (simp add: backing_def custody_def custody_bridge_def)
  moreover obtain w st2 where st2: "on_accept sample_hft ?r st1 = (Done w, st2)" "hext st2 4 99 = 23"
    using st1(2-5)
    by (simp add: on_accept_def request_with_def message_to_def local_amount_def local_decimals_def
        sample_amount [simplified] pay_out_def transfer_between_def take_from_def give_to_def execute_calldata_def Let_def)
  moreover have "accept_payment sample_hft ?r st1 (message_to 12 [] []) 4 (replicate 31 0 @ [12]) 7"
    using st1(3,4) sample_amount by (simp add: accept_payment_def request_with_def message_to_def local_decimals_def)
  ultimately have "custody_run sample_hft sample_holding 4 custody_bridge 30 7 0 st2"
    using custody_run.accepted [of sample_hft sample_holding 4 custody_bridge 30 0 0 st1] st1(2)
    by (fastforce simp: backing_def custody_def emptied_def sample_holding_def message_to_def)
  with custody_backs_outstanding [OF sample_asset_laws [where fl = "\<lambda>_. 1"] sample_fee this]
  show ?thesis by auto
qed

subsection \<open>Calls\<close>

text \<open>C31. A runtime call is only executed on behalf of an account that authorised it. When a message
  with calldata is accepted, its call was dispatched from an origin that is either the beneficiary, with
  a signature that verifies for the beneficiary over its current nonce and exactly that call, or the
  sender the message names; and the nonce of that origin was incremented afterwards.\<close>

theorem executed_call_is_authorised:
  assumes "on_accept T req st = (Done w, st')" and "abi_decode T (body req) = Inr message"
    and "msg_data message \<noteq> []"
  shows "\<exists>bs data call origin st1 st2.
    address_bytes (msg_to message) = Some bs \<and> decode_calldata T (msg_data message) = Inr data \<and>
    decode_call T (runtime_call data) = Inr call \<and> dispatch_call T call origin st1 = Inr st2 \<and>
    hext st' = inc_account_nonce T origin (hext st2) \<and>
    (case signature data of
       Some sig \<Rightarrow> origin = account_from T bs \<and> (\<exists>ms. decode_signature T sig = Inr ms \<and>
         verify_signature T origin bs
           (encode_payload T (account_nonce T (hext st1) origin) (runtime_call data)) ms =
           (Inr () :: ('m, 'e) HftError + unit))
     | None \<Rightarrow> sender_origin T (source req) (msg_from message) = Done origin)"
  using assms(1)
proof (cases rule: on_accept_cases)
  case (paid message' k bs amount st1)
  then have m: "message' = message" using assms(2) by (simp add: accept_payment_def)
  obtain st3 where e: "execute_calldata T (source req) message bs st1 = (Done (), st3)" "hext st' = hext st3"
    using paid(3) m by (auto simp: result_simps dest!: sym [of "(_, _)"])
  then obtain data call origin st2 where
    "decode_calldata T (msg_data message) = Inr data" "decode_call T (runtime_call data) = Inr call"
    "dispatch_call T call origin st1 = Inr st2" "hext st3 = inc_account_nonce T origin (hext st2)"
    "call_origin T (source req) (msg_from message) bs data st1 = Done origin"
    using assms(3) by (auto simp: execute_calldata_def result_simps)
  moreover from this(5) have "case signature data of
       Some sig \<Rightarrow> origin = account_from T bs \<and> (\<exists>ms. decode_signature T sig = Inr ms \<and>
         verify_signature T origin bs
           (encode_payload T (account_nonce T (hext st1) origin) (runtime_call data)) ms = Inr ())
     | None \<Rightarrow> sender_origin T (source req) (msg_from message) = Done origin"
    by (auto simp: call_origin_def Let_def result_simps split: option.splits)
  ultimately show ?thesis using paid(1) e(2) unfolding accept_payment_def m
    by (intro exI [of _ bs] exI [of _ data] exI [of _ call] exI [of _ origin] exI [of _ st1] exI [of _ st2]) simp
qed simp

theorem executed_call_is_authorised_witness:
  "\<exists>bs data call origin st1 st2.
    address_bytes (msg_to (message_to 11 [] [1, 9])) = Some bs \<and>
    decode_calldata sample_hft (msg_data (message_to 11 [] [1, 9])) = Inr data \<and>
    decode_call sample_hft (runtime_call data) = Inr call \<and> dispatch_call sample_hft call origin st1 = Inr st2 \<and>
    hext (snd (on_accept sample_hft (request_with (message_to 11 [] [1, 9])) sample_bridge)) =
      inc_account_nonce sample_hft origin (hext st2) \<and>
    (case signature data of
       Some sig \<Rightarrow> origin = account_from sample_hft bs \<and> (\<exists>ms. decode_signature sample_hft sig = Inr ms \<and>
         verify_signature sample_hft origin bs
           (encode_payload sample_hft (account_nonce sample_hft (hext st1) origin) (runtime_call data)) ms = Inr ())
     | None \<Rightarrow> sender_origin sample_hft 2 (msg_from (message_to 11 [] [1, 9])) = Done origin)"
proof -
  let ?m = "message_to 11 [] [1, 9]"
  obtain w st' where ok: "on_accept sample_hft (request_with ?m) sample_bridge = (Done w, st')"
    unfolding sample_accept by (simp add: execute_calldata_def message_to_def call_origin_def)
  have r: "source (request_with ?m) = 2" "abi_decode sample_hft (body (request_with ?m)) = Inr ?m" "msg_data ?m \<noteq> []"
    by (simp_all add: request_with_def message_to_def)
  show ?thesis unfolding ok snd_conv by (rule executed_call_is_authorised [OF ok r(2,3), unfolded r(1)])
qed

text \<open>C29. A message that fails changes nothing but a payment it has earned. When \<^verbatim>\<open>on_accept\<close> fails with
  an error of the calldata (it does not decode, its signature is refused, or the call itself fails) the
  storage it leaves is exactly the one after the payment, without the \<^verbatim>\<open>TokenReceived\<close> event; with any
  other error, among them a message from a contract that is not registered for its chain, the storage is
  left exactly as it was. A timeout that fails never changes anything.\<close>

theorem failed_message_effect:
  "(on_accept T req st = (Fail e, st') \<longrightarrow>
      (if is_call_error e
       then \<exists>message k bs amount. accept_payment T req st message k bs amount \<and>
         pay_out T k (account_from T bs) amount st = (Done (), st') \<and> hft_events st' = hft_events st
       else st' = st)) \<and>
   (ContractToAsset st (source req) (from_module req) = None \<longrightarrow>
      on_accept T req st = (Fail (UnknownSourceContract (source req)), st)) \<and>
   (on_timeout T t st = (Fail e', st'') \<longrightarrow> st'' = st)"
proof (intro conjI impI)
  assume "on_accept T req st = (Fail e, st')"
  then show "if is_call_error e
       then \<exists>message k bs amount. accept_payment T req st message k bs amount \<and>
         pay_out T k (account_from T bs) amount st = (Done (), st') \<and> hft_events st' = hft_events st
       else st' = st"
  proof (cases rule: on_accept_cases)
    case (paid message k bs amount st1)
    from paid(3) obtain st2 where e: "execute_calldata T (source req) message bs st1 = (Fail e, st2)" "st' = st2"
      by (auto simp: then_do_def split: prod.splits outcome.splits)
    from execute_calldata_error [OF e(1)] e(2) have "st' = st1" "is_call_error e" by simp_all
    moreover have "hft_events st1 = hft_events st" using pay_out_result [OF paid(2)] by auto
    ultimately show ?thesis using paid(1,2) by auto
  qed simp
next
  assume "on_timeout T t st = (Fail e', st'')"
  then show "st'' = st"
    by (cases "(T, t, st)" rule: on_timeout.cases)
      (auto simp: then_do_def try_result_def try_option_def local_amount_def Let_def
        split: sum.splits option.splits outcome.splits prod.splits dest!: pay_out_result)
qed (simp add: on_accept_def)

definition unknown_request :: "nat PostRequest" where
  "unknown_request = \<lparr>source = 2, dest = 0, from_module = [1], to_module = [], body = []\<rparr>"

theorem failed_message_effect_witness:
  "on_accept sample_hft unknown_request sample_bridge = (Fail (UnknownSourceContract 2), sample_bridge) \<and>
   (\<exists>st' message k bs amount.
      on_accept sample_hft (request_with (message_to 11 [] [2])) sample_bridge =
        (Fail (CalldataDecodeError ''calldata''), st') \<and>
      pay_out sample_hft k (account_from sample_hft bs) amount sample_bridge = (Done (), st'))"
proof -
  obtain st' where st': "on_accept sample_hft (request_with (message_to 11 [] [2])) sample_bridge =
      (Fail (CalldataDecodeError ''calldata''), st')"
    unfolding sample_accept by (simp add: execute_calldata_def message_to_def)
  from failed_message_effect [THEN conjunct1, rule_format, OF st']
  have "\<exists>k bs amount. pay_out sample_hft k (account_from sample_hft bs) amount sample_bridge = (Done (), st')"
    by auto
  moreover have "on_accept sample_hft unknown_request sample_bridge = (Fail (UnknownSourceContract 2), sample_bridge)"
    using failed_message_effect [of sample_hft unknown_request sample_bridge]
    by (simp add: unknown_request_def sample_bridge_def)
  ultimately show ?thesis using st' by blast
qed

text \<open>C33. A message without a signature whose sender bytes do not have the length the code expects (at
  least 20 bytes from an EVM chain, exactly 32 from any other) does not fail: it panics, after the
  payment.\<close>

theorem malformed_sender_panics:
  assumes "accept_payment T req st message k bs amount"
    and "pay_out T k (account_from T bs) amount st = (Done (), st1)"
    and "decode_calldata T (msg_data message) = Inr data" "msg_data message \<noteq> []" "signature data = None"
    and "if is_evm T (source req) then length (msg_from message) < 20 else length (msg_from message) \<noteq> 32"
  shows "fst (on_accept T req st) = Panic"
proof -
  have "execute_calldata T (source req) message bs st1 = (Panic, st1)"
    using assms(3-6) by (auto simp: execute_calldata_def call_origin_def sender_origin_def split: if_splits)
  with assms(1,2) show ?thesis
    by (auto simp: accept_payment_def on_accept_def local_amount_def Let_def)
qed

theorem malformed_sender_panics_witness:
  "fst (on_accept sample_hft (request_with (message_to 11 [1, 2, 3] [0, 9])) sample_bridge) = Panic"
proof (rule malformed_sender_panics [where message = "message_to 11 [1, 2, 3] [0, 9]" and k = 4
      and bs = "replicate 31 0 @ [11]" and amount = 7 and data = "\<lparr>signature = None, runtime_call = [9]\<rparr>"])
  show "accept_payment sample_hft (request_with (message_to 11 [1, 2, 3] [0, 9])) sample_bridge
      (message_to 11 [1, 2, 3] [0, 9]) 4 (replicate 31 0 @ [11]) 7"
    by (simp add: accept_payment_def request_with_def message_to_def local_decimals_def sample_amount [simplified])
  show "pay_out sample_hft 4 (account_from sample_hft (replicate 31 0 @ [11])) 7 sample_bridge =
      (Done (), sample_bridge\<lparr>hext := (hext sample_bridge)(4 := (hext sample_bridge 4)(11 := 107))\<rparr>)"
    by (simp add: pay_out_def give_to_def)
qed (simp_all add: message_to_def request_with_def)

end
