(* ===== verification/Weights.thy ===== *)
theory Weights
  imports Sponsorship
begin

text \<open>
  The weight functions: the \<^verbatim>\<open>weights.rs\<close> of the pallets and of the runtime, and
  \<^verbatim>\<open>IsmpParachainWeightInfo\<close> of the runtime. \<^verbatim>\<open>Weight\<close> and its saturating arithmetic belong to
  the SDK and are the parameter \<open>weight_ops\<close>; what an upper bound on a weight relies on is
  \<open>part_laws\<close>, over a reading of one of the two parts of a weight: the computation time
  (\<open>ref_time_laws\<close>), to which the database adds, and the size of the storage proof
  (\<open>proof_size_laws\<close>), to which it does not. The constants that
  the SDK gives in units of time are functions of the number of units in a nanosecond or a second.
\<close>

definition part_laws :: "'w weight_ops \<Rightarrow> ('w \<Rightarrow> nat) \<Rightarrow> (u64 \<Rightarrow> u64 \<Rightarrow> u64) \<Rightarrow> nat \<Rightarrow> nat \<Rightarrow> bool" where
  "part_laws W f part read write \<longleftrightarrow>
     (\<forall>a b. f (from_parts W a b) = unat (part a b)) \<and>
     (\<forall>x y. f (weight_add W x y) \<le> f x + f y) \<and>
     (\<forall>x n. f (weight_mul W x n) \<le> f x * unat n) \<and>
     (\<forall>r w. f (db_reads_writes W r w) \<le> unat r * read + unat w * write)"

abbreviation ref_time_laws :: "'w weight_ops \<Rightarrow> ('w \<Rightarrow> nat) \<Rightarrow> nat \<Rightarrow> nat \<Rightarrow> bool" where
  "ref_time_laws W rt read write \<equiv> part_laws W rt (\<lambda>time size. time) read write"

abbreviation proof_size_laws :: "'w weight_ops \<Rightarrow> ('w \<Rightarrow> nat) \<Rightarrow> bool" where
  "proof_size_laws W ps \<equiv> part_laws W ps (\<lambda>time size. size) 0 0"

subsection \<open>pallet-existential-sponsorship\<close>

record 'w SponsorshipWeightInfo =
  sponsor_weight :: 'w
  sponsor_minimum_weight :: 'w
  unlock_weight :: 'w
  set_policy_weight :: 'w
  force_unlock_weight :: 'w
  refresh_weight :: 'w
  process_auto_unlock_weight :: "u32 \<Rightarrow> 'w"
  process_expiries_weight :: "u32 \<Rightarrow> 'w"

definition SubstrateWeight :: "'w weight_ops \<Rightarrow> 'w SponsorshipWeightInfo" where
  "SubstrateWeight W =
     (let sponsor = weight_add W (weight_add W (from_parts W 45000000 4000) (db_reads W 5)) (db_writes W 6);
          unlock = weight_add W (weight_add W (from_parts W 35000000 3500) (db_reads W 4)) (db_writes W 6) in
      \<lparr>sponsor_weight = sponsor,
       sponsor_minimum_weight = sponsor,
       unlock_weight = unlock,
       set_policy_weight =
         weight_add W (weight_add W (from_parts W 20000000 2000) (db_reads W 2)) (db_writes W 4),
       force_unlock_weight = unlock,
       refresh_weight =
         weight_add W (weight_add W (from_parts W 18000000 2000) (db_reads W 2)) (db_writes W 3),
       process_auto_unlock_weight = (\<lambda>items.
         weight_add W (weight_mul W (from_parts W 7000000 1000) (ucast items))
           (db_reads_writes W (ucast items) (ucast items))),
       process_expiries_weight = (\<lambda>items.
         weight_add W (weight_mul W (from_parts W 6000000 1000) (ucast items))
           (db_reads_writes W (ucast items) (ucast items)))\<rparr>)"

subsection \<open>The other pallets\<close>

definition charge_transaction_payment :: "'w weight_ops \<Rightarrow> 'w" where
  "charge_transaction_payment W = weight_add W (from_parts W 5000000 0) (db_reads W 1)"

definition purchase_weight :: "'w weight_ops \<Rightarrow> 'w" where
  "purchase_weight W =
     weight_add W (weight_add W (from_parts W 25000000 3500) (db_reads W 2)) (db_writes W 2)"

definition send_weight :: "'w weight_ops \<Rightarrow> 'w" where
  "send_weight W = from_parts W 100000000 0"

definition register_token_weight :: "'w weight_ops \<Rightarrow> u32 \<Rightarrow> 'w" where
  "register_token_weight W c = from_parts W 100000000 0"

definition update_token_weight :: "'w weight_ops \<Rightarrow> u32 \<Rightarrow> 'w" where
  "update_token_weight W c = from_parts W 100000000 0"

subsection \<open>The runtime\<close>

definition BlockExecutionWeight :: "'w weight_ops \<Rightarrow> u64 \<Rightarrow> 'w" where
  "BlockExecutionWeight W per_nanos = from_parts W (saturating_mul per_nanos 5000000) 0"

definition ExtrinsicBaseWeight_ref_time :: "u64 \<Rightarrow> u64" where
  "ExtrinsicBaseWeight_ref_time per_nanos = saturating_mul per_nanos 125000"

record RuntimeDbWeight =
  db_read :: u64
  db_write :: u64

definition RocksDbWeight :: "u64 \<Rightarrow> RuntimeDbWeight" where
  "RocksDbWeight per_nanos = \<lparr>db_read = 25000 * per_nanos, db_write = 100000 * per_nanos\<rparr>"

definition ParityDbWeight :: "u64 \<Rightarrow> RuntimeDbWeight" where
  "ParityDbWeight per_nanos = \<lparr>db_read = 8000 * per_nanos, db_write = 50000 * per_nanos\<rparr>"

definition add_parachain_weight :: "'w weight_ops \<Rightarrow> u32 \<Rightarrow> 'w" where
  "add_parachain_weight W n =
     weight_add W
       (weight_add W (from_parts W 25000000 0) (weight_mul W (from_parts W 15000000 0) (ucast n)))
       (db_reads_writes W (2 + 2 * ucast n) (2 + 2 * ucast n))"

definition remove_parachain_weight :: "'w weight_ops \<Rightarrow> u32 \<Rightarrow> 'w" where
  "remove_parachain_weight W n =
     weight_add W
       (weight_add W (from_parts W 15000000 0) (weight_mul W (from_parts W 5000000 0) (ucast n)))
       (db_reads_writes W 1 (ucast n))"

definition update_parachain_consensus_weight :: "'w weight_ops \<Rightarrow> 'w" where
  "update_parachain_consensus_weight W = weight_add W (from_parts W 25000000 0) (db_reads_writes W 2 2)"

subsection \<open>Bounds\<close>

lemma unat_ucast_u64 [simp]: "unat (ucast (x :: u32) :: u64) = unat x"
proof -
  have "unat x < 2 ^ 64" using unat_bound [of x] by simp
  then show ?thesis by (simp add: unsigned_ucast_eq take_bit_nat_eq_self)
qed

text \<open>A weight per item, with one read and one write for each.\<close>

lemma per_item_weight:
  assumes "part_laws W f part read write"
  shows "f (weight_add W (weight_mul W (from_parts W a b) (ucast (n :: u32))) (db_reads_writes W (ucast n) (ucast n)))
    \<le> unat n * (unat (part a b) + read + write)"
proof -
  have "f (weight_add W (weight_mul W (from_parts W a b) (ucast n)) (db_reads_writes W (ucast n) (ucast n)))
      \<le> f (weight_mul W (from_parts W a b) (ucast n)) + f (db_reads_writes W (ucast n) (ucast n))"
    using assms unfolding part_laws_def by blast
  also have "\<dots> \<le> unat (part a b) * unat n + (unat n * read + unat n * write)"
    using assms unfolding part_laws_def by (metis add_mono unat_ucast_u64)
  finally show ?thesis by (simp add: algebra_simps)
qed

end
