(* ===== verification/Runtime.thy ===== *)
theory Runtime
  imports Weights Sponsorship_Hook PrepaidGas Hft_Ledger
begin

unbundle bit_operations_syntax

text \<open>
  The runtime that composes the pallets: its constants (\<^verbatim>\<open>runtime/src/lib.rs\<close>), the configuration it
  gives each pallet and the ISMP router (\<^verbatim>\<open>runtime/src/configs/mod.rs\<close>), and the genesis presets
  (\<^verbatim>\<open>runtime/src/genesis_config_presets.rs\<close>).

  A configuration is a function of the SDK pallets behind it: \<open>runtime_sponsorship\<close>,
  \<open>runtime_prepaid\<close>, \<open>runtime_adapter\<close> and \<open>runtime_hft\<close> give the records the pallets are
  parametrised by. The key ring, the JSON writer and the names of the presets are parameters.
\<close>

subsection \<open>Constants\<close>

definition MILLI_SECS_PER_BLOCK :: u64 where "MILLI_SECS_PER_BLOCK = 6000"

definition SLOT_DURATION :: u64 where "SLOT_DURATION = MILLI_SECS_PER_BLOCK"

definition MINUTES :: BlockNumber where "MINUTES = 60000 div ucast MILLI_SECS_PER_BLOCK"

definition HOURS :: BlockNumber where "HOURS = MINUTES * 60"

definition DAYS :: BlockNumber where "DAYS = HOURS * 24"

definition UNIT :: Balance where "UNIT = 1000000000000"

definition CENTS :: Balance where "CENTS = UNIT div 100"

definition MILLI_UNIT :: Balance where "MILLI_UNIT = 1000000000"

definition MICRO_UNIT :: Balance where "MICRO_UNIT = 1000000"

definition EXISTENTIAL_DEPOSIT :: Balance where "EXISTENTIAL_DEPOSIT = MILLI_UNIT"

text \<open>Ratios in percent.\<close>

definition AVERAGE_ON_INITIALIZE_RATIO :: nat where "AVERAGE_ON_INITIALIZE_RATIO = 5"

definition NORMAL_DISPATCH_RATIO :: nat where "NORMAL_DISPATCH_RATIO = 75"

definition MAXIMUM_BLOCK_WEIGHT :: "'w weight_ops \<Rightarrow> u64 \<Rightarrow> u64 \<Rightarrow> 'w" where
  "MAXIMUM_BLOCK_WEIGHT W per_second max_pov_size = from_parts W (saturating_mul per_second 2) max_pov_size"

definition UNINCLUDED_SEGMENT_CAPACITY :: u32 where "UNINCLUDED_SEGMENT_CAPACITY = 3"

definition BLOCK_PROCESSING_VELOCITY :: u32 where "BLOCK_PROCESSING_VELOCITY = 1"

definition RELAY_CHAIN_SLOT_DURATION_MILLIS :: u32 where "RELAY_CHAIN_SLOT_DURATION_MILLIS = 6000"

definition SS58Prefix :: u16 where "SS58Prefix = 42"

subsection \<open>Fees\<close>

text \<open>A coefficient of the fee polynomial; its fraction is the rational that
  \<^verbatim>\<open>Perbill::from_rational\<close> is given.\<close>

record WeightToFeeCoefficient =
  degree :: u8
  negative :: bool
  coeff_frac :: "Balance \<times> Balance"
  coeff_integer :: Balance

definition WeightToFee :: "u64 \<Rightarrow> WeightToFeeCoefficient list" where
  "WeightToFee per_nanos =
     (let p = MILLI_UNIT div 10;
          q = 100 * (ucast (ExtrinsicBaseWeight_ref_time per_nanos) :: Balance) in
      [\<lparr>degree = 1, negative = False, coeff_frac = (p mod q, q), coeff_integer = p div q\<rparr>])"

definition TransactionByteFee :: Balance where "TransactionByteFee = 10 * MICRO_UNIT"

subsection \<open>Existential sponsorship\<close>

definition SponsorshipMinAmount :: Balance where "SponsorshipMinAmount = EXISTENTIAL_DEPOSIT"

definition SponsorshipMinRemaining :: Balance where "SponsorshipMinRemaining = 5 * EXISTENTIAL_DEPOSIT"

definition MaxTotalSponsoredBySponsor :: Balance where
  "MaxTotalSponsoredBySponsor = 1000 * EXISTENTIAL_DEPOSIT"

definition MaxSponsoredAccountsBySponsor :: u32 where "MaxSponsoredAccountsBySponsor = 64"

definition MaxSponsoredAmountCreatedPerBlock :: Balance where
  "MaxSponsoredAmountCreatedPerBlock = 100 * EXISTENTIAL_DEPOSIT"

definition MaxNewSponsorshipsCreatedPerBlock :: u32 where "MaxNewSponsorshipsCreatedPerBlock = 16"

definition MaxSponsorshipLeaseDuration :: BlockNumber where "MaxSponsorshipLeaseDuration = 7 * DAYS"

definition MaxSponsorshipQueueProcessingPerBlock :: u32 where "MaxSponsorshipQueueProcessingPerBlock = 64"

definition RuntimeStorageDeposit :: Balance where "RuntimeStorageDeposit = EXISTENTIAL_DEPOSIT"

lemmas sponsorship_constants =
  SponsorshipMinAmount_def SponsorshipMinRemaining_def MaxTotalSponsoredBySponsor_def
  MaxSponsoredAccountsBySponsor_def MaxSponsoredAmountCreatedPerBlock_def
  MaxNewSponsorshipsCreatedPerBlock_def MaxSponsorshipLeaseDuration_def
  MaxSponsorshipQueueProcessingPerBlock_def RuntimeStorageDeposit_def EXISTENTIAL_DEPOSIT_def
  MILLI_UNIT_def DAYS_def HOURS_def MINUTES_def MILLI_SECS_PER_BLOCK_def

definition runtime_sponsorship ::
  "('a, 'c, 'o) frame_system \<Rightarrow> ('a, 'c, HoldReason) hold_fungible \<Rightarrow> 'w weight_ops \<Rightarrow> ('o \<Rightarrow> bool) \<Rightarrow>
   ('a, 'c, 'o, 'w) Config" where
  "runtime_sponsorship sys balances W ensure_root =
     \<lparr>System = sys, Currency = balances,
      WeightInfo =
        \<lparr>on_initialize_process_auto_unlock = process_auto_unlock_weight (SubstrateWeight W),
         on_initialize_process_expiries = process_expiries_weight (SubstrateWeight W),
         weight_saturating_add = weight_add W\<rparr>,
      MinSponsorship = SponsorshipMinAmount,
      SponsorMinRemaining = SponsorshipMinRemaining,
      MaxTotalSponsoredPerSponsor = MaxTotalSponsoredBySponsor,
      MaxSponsoredAccountsPerSponsor = MaxSponsoredAccountsBySponsor,
      MaxSponsoredAmountPerBlock = MaxSponsoredAmountCreatedPerBlock,
      MaxNewSponsorshipsPerBlock = MaxNewSponsorshipsCreatedPerBlock,
      MaxLeaseDuration = MaxSponsorshipLeaseDuration,
      MaxQueueProcessingPerBlock = MaxSponsorshipQueueProcessingPerBlock,
      SponsorshipStorageDeposit = RuntimeStorageDeposit,
      ForceOrigin = ensure_root\<rparr>"

lemma runtime_sponsorship_simps [simp]:
  "System (runtime_sponsorship sys cur W root) = sys" "Currency (runtime_sponsorship sys cur W root) = cur"
  "MaxTotalSponsoredPerSponsor (runtime_sponsorship sys cur W root) = 1000000000000"
  "MaxSponsoredAccountsPerSponsor (runtime_sponsorship sys cur W root) = 64"
  "MaxSponsoredAmountPerBlock (runtime_sponsorship sys cur W root) = 100000000000"
  "MaxNewSponsorshipsPerBlock (runtime_sponsorship sys cur W root) = 16"
  "MaxLeaseDuration (runtime_sponsorship sys cur W root) = 100800"
  "MaxQueueProcessingPerBlock (runtime_sponsorship sys cur W root) = 64"
  by (simp_all add: runtime_sponsorship_def sponsorship_constants)

lemma runtime_exact_caps: "exact_caps (runtime_sponsorship sys cur W root)"
  by (simp add: exact_caps_def)

subsection \<open>Prepaid gas\<close>

definition PrepaidGasPalletId :: string where "PrepaidGasPalletId = ''prpgas!!''"

definition MinPrepaidGasPurchase :: Balance where "MinPrepaidGasPurchase = 1"

definition runtime_prepaid ::
  "('a, 'c, 'o) frame_system \<Rightarrow> ('a, 'c, 'cr) balanced \<Rightarrow> (string \<Rightarrow> 'a) \<Rightarrow> ('a, 'c, 'o, string) PrepaidConfig" where
  "runtime_prepaid sys balances into_account =
     \<lparr>PSystem = sys, PCurrency = fungible.truncate balances, PalletId = PrepaidGasPalletId,
      into_account_truncating = into_account, MinPurchase = MinPrepaidGasPurchase\<rparr>"

text \<open>\<^verbatim>\<open>OnChargeTransaction = PrepaidFeeAdapter<Balances, PrepaidGas, ()>\<close>.\<close>

definition runtime_adapter ::
  "('a, 'c, 'o) frame_system \<Rightarrow> ('a, 'c, 'cr) balanced \<Rightarrow> (string \<Rightarrow> 'a) \<Rightarrow>
   ('a, 'c, 'a PrepaidStorage, 'cr, 'o) Adapter" where
  "runtime_adapter sys balances into_account =
     \<lparr>Sys = sys, Fung = balances, Prep = prepaid_gas (runtime_prepaid sys balances into_account)\<rparr>"

subsection \<open>Hyper fungible tokens\<close>

definition RuntimeNativeAssetId :: u32 where "RuntimeNativeAssetId = 0"

definition TokenGatewayDecimals :: u8 where "TokenGatewayDecimals = 12"

text \<open>The choices of the runtime on top of the SDK behind the pallet.\<close>

definition runtime_hft ::
  "('o \<Rightarrow> bool) \<Rightarrow> ('a, 'c, 'o, u32, 'm, 'h, 'e, 'l, 'w) HftConfig \<Rightarrow>
   ('a, 'c, 'o, u32, 'm, 'h, 'e, 'l, 'w) HftConfig" where
  "runtime_hft ensure_root sdk =
     sdk\<lparr>create_origin := ensure_root, NativeAssetId := RuntimeNativeAssetId,
         NativeDecimals := TokenGatewayDecimals, EvmToSubstrate := evm_to_substrate (account_from sdk)\<rparr>"

datatype IsmpModule = Hyperbridge | HyperFungibleToken | TokenGateway

datatype RouterError = ModuleNotFound "byte list"

definition module_for_id ::
  "byte list \<Rightarrow> (byte list \<Rightarrow> bool) \<Rightarrow> ('a, 'c, 'o, 'k, 'm, 'h, 'e, 'l, 'w) HftConfig \<Rightarrow> byte list \<Rightarrow>
   RouterError + IsmpModule" where
  "module_for_id PALLET_HYPERBRIDGE_ID is_token_gateway T bytes =
     (if bytes = PALLET_HYPERBRIDGE_ID then Inr Hyperbridge
      else if is_module T bytes then Inr HyperFungibleToken
      else if is_token_gateway bytes then Inr TokenGateway
      else Inl (ModuleNotFound bytes))"

subsection \<open>Genesis presets\<close>

definition PARACHAIN_ID :: u32 where "PARACHAIN_ID = 5153"

record 'k SessionKeys =
  aura :: 'k

definition template_session_keys :: "'k \<Rightarrow> 'k SessionKeys" where
  "template_session_keys keys = \<lparr>aura = keys\<rparr>"

record ('a, 'k) GenesisPatch =
  gen_balances :: "('a \<times> Balance) list"
  gen_parachain_id :: u32
  gen_invulnerables :: "'a list"
  gen_candidacy_bond :: Balance
  gen_keys :: "('a \<times> 'a \<times> 'k SessionKeys) list"
  gen_safe_xcm_version :: "u32 option"
  gen_sudo_key :: "'a option"

definition testnet_genesis ::
  "u32 \<Rightarrow> ('a \<times> 'k) list \<Rightarrow> 'a list \<Rightarrow> 'a \<Rightarrow> u32 \<Rightarrow> ('a, 'k) GenesisPatch" where
  "testnet_genesis SAFE_XCM_VERSION invulnerables endowed_accounts root i =
     \<lparr>gen_balances = map (\<lambda>k. (k, push_bit 60 1)) endowed_accounts,
      gen_parachain_id = i,
      gen_invulnerables = map fst invulnerables,
      gen_candidacy_bond = EXISTENTIAL_DEPOSIT * 16,
      gen_keys = map (\<lambda>(acc, aura). (acc, acc, template_session_keys aura)) invulnerables,
      gen_safe_xcm_version = Some SAFE_XCM_VERSION,
      gen_sudo_key = Some root\<rparr>"

text \<open>The key ring: two collators with their session keys, and the well-known accounts.\<close>

record ('a, 'k) Keyring =
  Alice :: "'a \<times> 'k"
  Bob :: "'a \<times> 'k"
  well_known :: "'a list"

definition local_testnet_genesis :: "u32 \<Rightarrow> ('a, 'k) Keyring \<Rightarrow> ('a, 'k) GenesisPatch" where
  "local_testnet_genesis xcm_version K =
     testnet_genesis xcm_version [Alice K, Bob K] (well_known K) (fst (Alice K)) PARACHAIN_ID"

definition development_config_genesis :: "u32 \<Rightarrow> ('a, 'k) Keyring \<Rightarrow> ('a, 'k) GenesisPatch" where
  "development_config_genesis xcm_version K =
     testnet_genesis xcm_version [Alice K, Bob K] (well_known K) (fst (Alice K)) PARACHAIN_ID"

record ('a, 'k) PresetEnv =
  SAFE_XCM_VERSION :: u32
  keyring :: "('a, 'k) Keyring"
  LOCAL_TESTNET_RUNTIME_PRESET :: string
  DEV_RUNTIME_PRESET :: string
  to_json :: "('a, 'k) GenesisPatch \<Rightarrow> byte list"

definition get_preset :: "('a, 'k) PresetEnv \<Rightarrow> string \<Rightarrow> byte list option" where
  "get_preset E i =
     (if i = LOCAL_TESTNET_RUNTIME_PRESET E
      then Some (to_json E (local_testnet_genesis (SAFE_XCM_VERSION E) (keyring E)))
      else if i = DEV_RUNTIME_PRESET E
      then Some (to_json E (development_config_genesis (SAFE_XCM_VERSION E) (keyring E)))
      else None)"

definition preset_names :: "('a, 'k) PresetEnv \<Rightarrow> string list" where
  "preset_names E = [DEV_RUNTIME_PRESET E, LOCAL_TESTNET_RUNTIME_PRESET E]"

end
