(* ===== verification/Runtime_Composition.thy ===== *)
theory Runtime_Composition
  imports Runtime Gas_Properties Sponsorship_Liveness
begin

text \<open>
  The pallets of the runtime on one currency. \<open>Chain\<close> puts the storage of the sponsorship pallet, of the
  two gas pallets and of the token pallet side by side over the same \<^verbatim>\<open>Balances\<close>; \<open>chain_step\<close>
  interleaves their calls, the block hook and the activity of other pallets. Each pallet is an environment
  of the others: a gas call (\<open>currency_invariant\<close>) or a call of the token pallet (\<open>bridge_call_elsewhere\<close>)
  leaves the clock and every hold alone, so the sponsorship pallet sees it as a step of
  somebody else, and a call of the sponsorship pallet or the token pallet leaves the pool of the
  prepaid credit its balance, unless that is below the minimum balance (\<open>pool_kept\<close>). So the
  invariants of each pallet hold in the composition.
\<close>

subsection \<open>What gas calls do to the currency\<close>

text \<open>A property of the currency that its operations keep is kept by the calls of the gas pallets.\<close>

locale currency_invariant =
  fixes A :: "('a, 'c, 'a PrepaidStorage, 'cr, 'o) Adapter"
    and P :: "('a, 'c, 'o, 'i) PrepaidConfig"
    and Q :: "'c \<Rightarrow> bool"
  assumes withdraw: "Q c \<Longrightarrow> withdraw (Fung A) who amt p k f c = Some (cr, c') \<Longrightarrow> Q c'"
    and resolve: "Q c \<Longrightarrow> resolve (Fung A) who cr c = Inr c' \<Longrightarrow> Q c'"
    and drop: "Q c \<Longrightarrow> Q (drop_credit (Fung A) cr c)"
    and transfer: "Q c \<Longrightarrow> transfer (PCurrency P) src dst amt k c = Some c' \<Longrightarrow> Q c'"
    and provider: "Q c \<Longrightarrow> Q (inc_providers (PSystem P) who c)"
begin

lemma drop_value: "Q (currency st) \<Longrightarrow> Q (currency (drop_value A cr st))"
  by (simp add: drop_value_def drop)

lemma native_credit: "Q (currency st) \<Longrightarrow> native_credit A who amt st = (r, st') \<Longrightarrow> Q (currency st')"
  by (auto simp: native_credit_def split: if_splits option.splits dest: withdraw)

lemma withdraw_fee: "Q (currency st) \<Longrightarrow> withdraw_fee A who fee_with_tip tip st = (r, st') \<Longrightarrow> Q (currency st')"
  unfolding withdraw_fee_def Let_def
  by (auto split: if_splits option.splits sum.splits prod.splits
      dest!: native_credit [rotated] dest: withdraw intro: drop_value)

lemma refund_native_fee:
  "Q (currency st) \<Longrightarrow> refund_native_fee A who paid refund st = (paid', st') \<Longrightarrow> Q (currency st')"
  by (auto simp: refund_native_fee_def split: if_splits sum.splits dest: resolve intro: drop_value)

lemma settle_native_fee: "Q (currency st) \<Longrightarrow> Q (currency (settle_native_fee A who fc corrected tc st))"
  by (auto simp: settle_native_fee_def split: option.splits prod.splits dest: refund_native_fee)

lemma settle_prepaid_fee:
  "Q (currency st) \<Longrightarrow> settle_prepaid_fee A who fc paid corrected st = (r, st') \<Longrightarrow> Q (currency st')"
  by (auto simp: settle_prepaid_fee_def Let_def split: if_splits sum.splits prod.splits
      dest: resolve intro!: drop_value)

lemma correct_and_deposit_fee:
  "Q (currency st) \<Longrightarrow> correct_and_deposit_fee A corrected tip li st = (r, st') \<Longrightarrow> Q (currency st')"
  unfolding correct_and_deposit_fee_def Let_def
  by (auto split: LiquidityInfo.splits prod.splits sum.splits option.splits
      dest: settle_prepaid_fee intro: settle_native_fee drop_value)

lemma purchase: "Q c \<Longrightarrow> purchase P og b amt (p, c) = Inr (p', c') \<Longrightarrow> Q c'"
  by (auto simp: purchase_def purchase_for_def ensure_pallet_account_def result_simps Let_def
      split: if_splits dest: transfer transfer [OF provider])

lemma gas_call: "gas_call P A st st' \<Longrightarrow> Q (currency st) \<Longrightarrow> Q (currency st')"
  by (induction rule: gas_call.induct) (auto dest: purchase withdraw_fee correct_and_deposit_fee)

end

subsection \<open>One currency\<close>

definition untouched ::
  "('a, 'c, 'o) frame_system \<Rightarrow> ('a, 'c, 'r) hold_fungible \<Rightarrow> 'c \<Rightarrow> 'c \<Rightarrow> bool" where
  "untouched sys cur c c' \<longleftrightarrow>
     balance_on_hold cur c' = balance_on_hold cur c \<and> block_number sys c' = block_number sys c"

definition leaves_holds ::
  "('a, 'c, 'o) frame_system \<Rightarrow> ('a, 'c, 'r) hold_fungible \<Rightarrow> ('a, 'c, 'cr) balanced \<Rightarrow>
   ('a \<Rightarrow> 'a \<Rightarrow> u128 \<Rightarrow> Preservation \<Rightarrow> 'c \<Rightarrow> 'c option) \<Rightarrow> bool" where
  "leaves_holds sys cur F move \<longleftrightarrow>
     (\<forall>who amt p k f c cr c'. withdraw F who amt p k f c = Some (cr, c') \<longrightarrow> untouched sys cur c c') \<and>
     (\<forall>who cr c c'. resolve F who cr c = Inr c' \<longrightarrow> untouched sys cur c c') \<and>
     (\<forall>cr c. untouched sys cur c (drop_credit F cr c)) \<and>
     (\<forall>src dst amt k c c'. move src dst amt k c = Some c' \<longrightarrow> untouched sys cur c c')"

text \<open>The two sides of \<^verbatim>\<open>Balances\<close>, the holds and the credits, are views of one currency: they agree on
  the balances, and what the gas pallets call (withdrawals, deposits of credits and transfers) leaves the
  holds and the clock alone.\<close>

definition one_currency ::
  "('a, 'c, 'o, 'w) Config \<Rightarrow> ('a, 'c, 'o, 'i) PrepaidConfig \<Rightarrow>
   ('a, 'c, 'a PrepaidStorage, 'cr, 'o) Adapter \<Rightarrow> bool" where
  "one_currency S P A \<longleftrightarrow>
     PSystem P = System S \<and> balance (Currency S) = balance (Fung A) \<and>
     minimum_balance (Currency S) = minimum_balance (Fung A) \<and>
     leaves_holds (System S) (Currency S) (Fung A) (transfer (PCurrency P))"

lemma one_currencyD:
  assumes "one_currency S P A"
  shows "PSystem P = System S" "balance (Currency S) = balance (Fung A)"
    "minimum_balance (Currency S) = minimum_balance (Fung A)"
    and "withdraw (Fung A) who amt p k f c = Some (cr, c') \<Longrightarrow> untouched (System S) (Currency S) c c'"
    and "resolve (Fung A) who cr c = Inr c' \<Longrightarrow> untouched (System S) (Currency S) c c'"
    and "untouched (System S) (Currency S) c (drop_credit (Fung A) cr c)"
    and "transfer (PCurrency P) src dst amt k c = Some c' \<Longrightarrow> untouched (System S) (Currency S) c c'"
  using assms unfolding one_currency_def leaves_holds_def by blast+

lemma untouched_trans: "untouched (System S) (Currency S) c c1 \<Longrightarrow> untouched (System S) (Currency S) c1 c2 \<Longrightarrow> untouched (System S) (Currency S) c c2"
  by (simp add: untouched_def same_holds_def)

lemma untouched_provider: "lawful S \<Longrightarrow> untouched (System S) (Currency S) c (inc_providers (System S) who c)"
  by (simp add: untouched_def same_holds_def hold_currency_laws_def providers_law_def clock_law_def)

interpretation holds_untouched: currency_invariant A P "\<lambda>c. lawful S \<and> one_currency S P A \<longrightarrow> untouched (System S) (Currency S) c0 c"
  for S :: "('a, 'c, 'o, 'w) Config" and P :: "('a, 'c, 'o, 'i) PrepaidConfig"
    and A :: "('a, 'c, 'a PrepaidStorage, 'cr, 'o) Adapter" and c0 :: 'c
proof unfold_locales
  fix c c' :: 'c
  show "lawful S \<and> one_currency S P A \<longrightarrow> untouched (System S) (Currency S) c0 (inc_providers (PSystem P) who c)"
    if "lawful S \<and> one_currency S P A \<longrightarrow> untouched (System S) (Currency S) c0 c" for who
    using that untouched_provider untouched_trans one_currencyD(1) by metis
qed (blast intro: untouched_trans dest: one_currencyD(4-7))+

lemma gas_call_untouched:
  assumes "lawful S" "one_currency S P A" "gas_call P A st st'"
  shows "untouched (System S) (Currency S) (currency st) (currency st')"
  using holds_untouched.gas_call [OF assms(3), of S "currency st"] assms(1,2)
  by (simp add: untouched_def same_holds_def)

subsection \<open>What the sponsorship pallet does to the pool\<close>

definition pool_kept :: "('a, 'c, 'o, 'w) Config \<Rightarrow> 'a \<Rightarrow> nat \<Rightarrow> ('a, 'c) Storage \<Rightarrow> bool" where
  "pool_kept S pool n s \<longleftrightarrow>
     n < unat (minimum_balance (Currency S)) \<or> n \<le> unat (balance (Currency S) (ext s) pool)"

lemma pool_kept_frame [simp]:
  "pool_kept S pool n (deposit_event e s) = pool_kept S pool n s"
  "pool_kept S pool n (s\<lparr>Expirations := E\<rparr>) = pool_kept S pool n s"
  "pool_kept S pool n (s\<lparr>AutoUnlockQueue := q\<rparr>) = pool_kept S pool n s"
  "pool_kept S pool n (policy_state b r au l s) = pool_kept S pool n s"
  by (simp_all add: pool_kept_def)

interpretation pool: sponsor_hook_invariant S "\<lambda>s. lawful S \<longrightarrow> pool_kept S pool n s" "\<lambda>spo. spo \<noteq> pool"
  for S :: "('a, 'c, 'o, 'w) Config" and pool :: 'a and n :: nat
proof unfold_locales
  show "lawful S \<longrightarrow> pool_kept S pool n s'"
    if "spo \<noteq> pool" "lawful S \<longrightarrow> pool_kept S pool n s" "do_sponsor S spo b amount au l False s = Inr s'"
    for s s' :: "('a, 'c) Storage" and spo b amount au l
    using that sponsor_moves_holds(4) [of S spo b amount "ext s" _ pool]
    by (fastforce simp: do_sponsor_Inr emit_def pool_kept_def)
  show "lawful S \<longrightarrow> pool_kept S pool n s'"
    if "lawful S \<longrightarrow> pool_kept S pool n s" "revoke_sponsorship S b s = Inr (r, s')"
    for s s' :: "('a, 'c) Storage" and b r
    using that revoke_moves_keeps [of S b r "StorageDepositHeld s b" "ext s" _ pool]
    by (fastforce simp: revoke_sponsorship_Inr pool_kept_def)
qed simp_all

subsection \<open>What the token pallet does to the currency\<close>

text \<open>What the token pallet calls moves native funds only out of the account it names (the source of a
  transfer, the payer of a request) and touches no hold and no clock; the asset pallet leaves the
  native balances alone.\<close>

definition elsewhere_move ::
  "('a, 'c, 'o) frame_system \<Rightarrow> ('a, 'c, 'r) hold_fungible \<Rightarrow> 'a set \<Rightarrow> 'c \<Rightarrow> 'c \<Rightarrow> bool" where
  "elsewhere_move sys cur from c c' \<longleftrightarrow>
     untouched sys cur c c' \<and> (\<forall>a. a \<notin> from \<longrightarrow> unat (balance cur c a) \<le> unat (balance cur c' a))"

definition bridge_laws ::
  "('a, 'c, 'o) frame_system \<Rightarrow> ('a, 'c, 'r) hold_fungible \<Rightarrow> ('a, 'c, 'o, 'k, 'm, 'h, 'e, 'l, 'v) HftConfig \<Rightarrow> bool" where
  "bridge_laws sys cur T \<longleftrightarrow>
     hft_system T = sys \<and>
     (\<forall>src dst amt er c c'. native_transfer T src dst amt er c = Inr c' \<longrightarrow> elsewhere_move sys cur {src} c c') \<and>
     (\<forall>k src dst amt p c c'. asset_transfer T k src dst amt p c = Inr c' \<longrightarrow> elsewhere_move sys cur {} c c') \<and>
     (\<forall>k who amt p pr f c c'. burn_from T k who amt p pr f c = Inr c' \<longrightarrow> elsewhere_move sys cur {} c c') \<and>
     (\<forall>k who amt c c'. mint_into T k who amt c = Inr c' \<longrightarrow> elsewhere_move sys cur {} c c') \<and>
     (\<forall>p f c h c'. dispatch_request T p f c = Some (h, c') \<longrightarrow> elsewhere_move sys cur {payer f} c c')"

lemma bridge_lawsD:
  assumes "bridge_laws sys cur T"
  shows "hft_system T = sys"
    and "native_transfer T src dst amt er c = Inr c' \<Longrightarrow> elsewhere_move sys cur {src} c c'"
    and "asset_transfer T k src dst amt p c = Inr c' \<Longrightarrow> elsewhere_move sys cur {} c c'"
    and "burn_from T k src amt p pr f c = Inr c' \<Longrightarrow> elsewhere_move sys cur {} c c'"
    and "mint_into T k dst amt c = Inr c' \<Longrightarrow> elsewhere_move sys cur {} c c'"
    and "dispatch_request T post fm c = Some (h, c') \<Longrightarrow> elsewhere_move sys cur {payer fm} c c'"
  using assms unfolding bridge_laws_def by metis+

lemma elsewhere_move_refl [simp]: "elsewhere_move sys cur from c c"
  by (simp add: elsewhere_move_def untouched_def)

lemma elsewhere_move_empty: "elsewhere_move sys cur {} c c' \<Longrightarrow> elsewhere_move sys cur from c c'"
  by (simp add: elsewhere_move_def)

lemma elsewhere_move_trans:
  "elsewhere_move sys cur from c c1 \<Longrightarrow> elsewhere_move sys cur from c1 c2 \<Longrightarrow> elsewhere_move sys cur from c c2"
  by (auto simp: elsewhere_move_def untouched_def intro: order_trans)

lemma take_in_elsewhere:
  assumes "bridge_laws sys cur T" "take_in T k who amt st = Inr c"
  shows "elsewhere_move sys cur {who} (hext st) c"
  using assms(2)
  by (auto simp: take_in_def split: if_splits intro: elsewhere_move_empty bridge_lawsD(2-4) [OF assms(1)])

lemma pay_out_elsewhere:
  assumes "bridge_laws sys cur T" "pay_out T k who amt st = (r, st')"
  shows "elsewhere_move sys cur {pallet_account T} (hext st) (hext st')"
  using assms(2)
  by (auto simp: pay_out_def then_do_def try_result_def split: if_splits sum.splits
      intro: bridge_lawsD(2) [OF assms(1)] elsewhere_move_empty [OF bridge_lawsD(3) [OF assms(1)]]
        elsewhere_move_empty [OF bridge_lawsD(5) [OF assms(1)]])

lemma send_elsewhere:
  assumes "bridge_laws sys cur T" "send T og params st = Done st'" "ensure_signed sys og = Some who"
  shows "elsewhere_move sys cur {who} (hext st) (hext st')"
proof (rule send_Done [OF assms(2), where ?'b = unit], goal_cases)
  case (1 sender contract d c x h c')
  then have "sender = who" using assms(3) bridge_lawsD(1) [OF assms(1)] by simp
  with 1 take_in_elsewhere [OF assms(1) 1(4)] bridge_lawsD(6) [OF assms(1) 1(6)] show ?case
    by (auto intro: elsewhere_move_trans)
qed

text \<open>The calls of the token pallet: its dispatchables, signed by anyone but the pool, and the callbacks of
  ISMP. A message that carries a call is a message that carries none, followed by that call, which is a step
  of the pallet it addresses, and the increment of a nonce, which is a step elsewhere.\<close>

inductive bridge_call ::
  "('a, 'c, 'o, 'k, 'm, 'h, 'e, 'l, 'v) HftConfig \<Rightarrow> 'a \<Rightarrow>
   ('a, 'c, 'k, 'm, 'h) HftStorage \<Rightarrow> ('a, 'c, 'k, 'm, 'h) HftStorage \<Rightarrow> bool"
  for T pool where
  sent: "send T og params st = Done st' \<Longrightarrow> ensure_signed (hft_system T) og \<noteq> Some pool \<Longrightarrow> bridge_call T pool st st'"
| registered: "register_token T og reg st = Done st' \<Longrightarrow> bridge_call T pool st st'"
| updated: "update_token T og upd st = Done st' \<Longrightarrow> bridge_call T pool st st'"
| accepted: "on_accept T req st = (r, st') \<Longrightarrow> r \<noteq> Panic \<Longrightarrow>
    (\<And>message. abi_decode T (body req) = Inr message \<Longrightarrow> msg_data message = []) \<Longrightarrow> bridge_call T pool st st'"
| timed_out: "on_timeout T tmo st = (r, st') \<Longrightarrow> r \<noteq> Panic \<Longrightarrow> bridge_call T pool st st'"

lemma on_accept_elsewhere:
  assumes "bridge_laws sys cur T" "on_accept T req st = (r, st')"
    and "\<And>message. abi_decode T (body req) = Inr message \<Longrightarrow> msg_data message = []"
  shows "elsewhere_move sys cur {pallet_account T} (hext st) (hext st')"
  using assms(2)
proof (cases rule: on_accept_cases)
  case (paid message k bs amount st1)
  then have "msg_data message = []" using assms(3) by (simp add: accept_payment_def)
  with paid(3) have "hext st' = hext st1" by (simp add: execute_calldata_def)
  with pay_out_elsewhere [OF assms(1) paid(2)] show ?thesis by simp
qed simp

lemma on_timeout_elsewhere:
  assumes "bridge_laws sys cur T" "on_timeout T tmo st = (r, st')"
  shows "elsewhere_move sys cur {pallet_account T} (hext st) (hext st')"
  using assms(2) pay_out_elsewhere [OF assms(1)]
  by (cases "(T, tmo, st)" rule: on_timeout.cases)
    (auto simp: then_do_def try_result_def try_option_def local_amount_def Let_def
      split: if_splits sum.splits outcome.splits option.splits prod.splits)

lemma bridge_call_elsewhere:
  assumes "bridge_laws sys cur T" "pallet_account T \<noteq> pool" "bridge_call T pool st st'"
  shows "untouched sys cur (hext st) (hext st') \<and> unat (balance cur (hext st) pool) \<le> unat (balance cur (hext st') pool)"
proof -
  have "\<exists>from. pool \<notin> from \<and> elsewhere_move sys cur from (hext st) (hext st')"
    using assms(3)
  proof (cases rule: bridge_call.cases)
    case (sent og params)
    then obtain who where "ensure_signed sys og = Some who"
      using bridge_lawsD(1) [OF assms(1)] by (metis send_Done)
    with sent send_elsewhere [OF assms(1) sent(1)] bridge_lawsD(1) [OF assms(1)] show ?thesis
      by (intro exI [of _ "{who}"]) auto
  qed (use assms(1,2) registry_call_hext on_accept_elsewhere on_timeout_elsewhere in
      \<open>metis elsewhere_move_refl empty_iff singletonD\<close>)+
  then show ?thesis by (auto simp: elsewhere_move_def)
qed

subsection \<open>The composed chain\<close>

record ('a, 'c, 'cr, 'k, 'm, 'h) Chain =
  spon :: "('a, 'c) Storage"
  pay :: "('a, 'c, 'a PrepaidStorage, 'cr) PayState"
  hft :: "('a, 'c, 'k, 'm, 'h) HftStorage"

text \<open>The calls of the sponsorship pallet by anyone but the pool, which has no key.\<close>

inductive sponsorship_call ::
  "('a, 'c, 'o, 'w) Config \<Rightarrow> 'a \<Rightarrow> ('a, 'c) Storage \<Rightarrow> ('a, 'c) Storage \<Rightarrow> bool"
  for S pool where
  extrinsic: "dispatch S og call s = Inr s' \<Longrightarrow> ensure_signed (System S) og \<noteq> Some pool \<Longrightarrow>
    sponsorship_call S pool s s'"
| create: "create_sponsorship S spo b amount au l s = Inr s' \<Longrightarrow> spo \<noteq> pool \<Longrightarrow> sponsorship_call S pool s s'"
| unlock: "unlock_sponsorship S spo b s = Inr s' \<Longrightarrow> sponsorship_call S pool s s'"
| attempt: "try_auto_unlock S b s = Inr s' \<Longrightarrow> sponsorship_call S pool s s'"

text \<open>The currency is one: what a pallet leaves of it is what the others find.\<close>

definition with_currency :: "'c \<Rightarrow> ('a, 'c, 'cr, 'k, 'm, 'h) Chain \<Rightarrow> ('a, 'c, 'cr, 'k, 'm, 'h) Chain" where
  "with_currency c x = \<lparr>spon = (spon x)\<lparr>ext := c\<rparr>, pay = (pay x)\<lparr>currency := c\<rparr>, hft = (hft x)\<lparr>hext := c\<rparr>\<rparr>"

definition with_sponsorship :: "('a, 'c) Storage \<Rightarrow> ('a, 'c, 'cr, 'k, 'm, 'h) Chain \<Rightarrow> ('a, 'c, 'cr, 'k, 'm, 'h) Chain" where
  "with_sponsorship s x = (with_currency (ext s) x)\<lparr>spon := s\<rparr>"

definition with_payment :: "('a, 'c, 'a PrepaidStorage, 'cr) PayState \<Rightarrow> ('a, 'c, 'cr, 'k, 'm, 'h) Chain \<Rightarrow> ('a, 'c, 'cr, 'k, 'm, 'h) Chain" where
  "with_payment g x = (with_currency (currency g) x)\<lparr>pay := g\<rparr>"

definition with_bridge :: "('a, 'c, 'k, 'm, 'h) HftStorage \<Rightarrow> ('a, 'c, 'cr, 'k, 'm, 'h) Chain \<Rightarrow> ('a, 'c, 'cr, 'k, 'm, 'h) Chain" where
  "with_bridge b x = (with_currency (hext b) x)\<lparr>hft := b\<rparr>"

abbreviation pool_balance ::
  "('a, 'c, 'o, 'w) Config \<Rightarrow> ('a, 'c, 'o, 'i) PrepaidConfig \<Rightarrow> 'c \<Rightarrow> nat" where
  "pool_balance S P c \<equiv> unat (balance (Currency S) c (account_id P))"

text \<open>A step of the chain: a call of a pallet, an action of another pallet that leaves the clock, the
  holds of the pallet and the balance of the pool alone, or the start of a block.\<close>

inductive chain_step ::
  "('a, 'c, 'o, 'w) Config \<Rightarrow> ('a, 'c, 'o, 'i) PrepaidConfig \<Rightarrow>
   ('a, 'c, 'a PrepaidStorage, 'cr, 'o) Adapter \<Rightarrow> ('a, 'c, 'o, 'k, 'm, 'h, 'e, 'l, 'v) HftConfig \<Rightarrow> ('a, 'c, 'cr, 'k, 'm, 'h) Chain \<Rightarrow> ('a, 'c, 'cr, 'k, 'm, 'h) Chain \<Rightarrow> bool"
  for S P A T where
  sponsorship: "sponsorship_call S (account_id P) (spon x) s \<Longrightarrow> chain_step S P A T x (with_sponsorship s x)"
| gas: "gas_call P A (pay x) g \<Longrightarrow> chain_step S P A T x (with_payment g x)"
| bridge: "bridge_call T (account_id P) (hft x) b \<Longrightarrow> chain_step S P A T x (with_bridge b x)"
| elsewhere: "untouched (System S) (Currency S) (ext (spon x)) c \<Longrightarrow> pool_balance S P (ext (spon x)) \<le> pool_balance S P c \<Longrightarrow>
    chain_step S P A T x (with_currency c x)"
| new_block: "unat (block_number (System S) c) = unat (now S (spon x)) + 1 \<Longrightarrow>
    same_holds S (ext (spon x)) c \<Longrightarrow> pool_balance S P (ext (spon x)) \<le> pool_balance S P c \<Longrightarrow>
    on_initialize S (block_number (System S) c) ((spon x)\<lparr>ext := c\<rparr>) = Some (w, s) \<Longrightarrow>
    chain_step S P A T x (with_sponsorship s x)"

text \<open>The states of the chain, with the number of steps that left the pool, lower than before, below the
  minimum balance: only these can lose dust of the pool.\<close>

definition chain_genesis ::
  "('a, 'c, 'o, 'w) Config \<Rightarrow> 'a GenesisConfig \<Rightarrow> 'c \<Rightarrow> ('a, 'c, 'cr, 'k, 'm, 'h) Chain option" where
  "chain_genesis S g c =
     map_option (\<lambda>s. \<lparr>spon = s, pay = \<lparr>currency = ext s, prepaid = empty_prepaid, handed = [], gas_events = []\<rparr>,
        hft = hft_genesis (ext s)\<rparr>)
       (genesis_build S g (empty_storage c))"

definition drains ::
  "('a, 'c, 'o, 'w) Config \<Rightarrow> ('a, 'c, 'o, 'i) PrepaidConfig \<Rightarrow> ('a, 'c, 'cr, 'k, 'm, 'h) Chain \<Rightarrow> ('a, 'c, 'cr, 'k, 'm, 'h) Chain \<Rightarrow> bool" where
  "drains S P x x' \<longleftrightarrow>
     pool_balance S P (ext (spon x')) < pool_balance S P (ext (spon x)) \<and>
     pool_balance S P (ext (spon x')) < unat (minimum_balance (Currency S))"

inductive chain_reachable ::
  "('a, 'c, 'o, 'w) Config \<Rightarrow> ('a, 'c, 'o, 'i) PrepaidConfig \<Rightarrow>
   ('a, 'c, 'a PrepaidStorage, 'cr, 'o) Adapter \<Rightarrow> ('a, 'c, 'o, 'k, 'm, 'h, 'e, 'l, 'v) HftConfig \<Rightarrow> nat \<Rightarrow> ('a, 'c, 'cr, 'k, 'm, 'h) Chain \<Rightarrow> bool"
  for S P A T where
  genesis: "block_number (System S) c = 0 \<Longrightarrow> (\<And>r a. balance_on_hold (Currency S) c r a = 0) \<Longrightarrow>
    chain_genesis S g c = Some x \<Longrightarrow> chain_reachable S P A T 0 x"
| step: "chain_reachable S P A T n x \<Longrightarrow> chain_step S P A T x x' \<Longrightarrow>
    chain_reachable S P A T (if drains S P x x' then Suc n else n) x'"

lemma chain_fields [simp]:
  "spon (with_currency c x) = (spon x)\<lparr>ext := c\<rparr>" "pay (with_currency c x) = (pay x)\<lparr>currency := c\<rparr>"
  "hft (with_currency c x) = (hft x)\<lparr>hext := c\<rparr>"
  "spon (with_sponsorship s x) = s" "pay (with_sponsorship s x) = (pay x)\<lparr>currency := ext s\<rparr>"
  "hft (with_sponsorship s x) = (hft x)\<lparr>hext := ext s\<rparr>"
  "spon (with_payment g x) = (spon x)\<lparr>ext := currency g\<rparr>" "pay (with_payment g x) = g"
  "hft (with_payment g x) = (hft x)\<lparr>hext := currency g\<rparr>"
  "spon (with_bridge b x) = (spon x)\<lparr>ext := hext b\<rparr>" "pay (with_bridge b x) = (pay x)\<lparr>currency := hext b\<rparr>"
  "hft (with_bridge b x) = b"
  by (simp_all add: with_currency_def with_sponsorship_def with_payment_def with_bridge_def)

lemma sponsorship_call_step: "sponsorship_call S pool s s' \<Longrightarrow> pallet_step S s s'"
  by (induction rule: sponsorship_call.induct) (auto intro: pallet_step.intros)

lemma untouched_step: "untouched (System S) (Currency S) (ext s) c \<Longrightarrow> pallet_step S s (s\<lparr>ext := c\<rparr>)"
  by (simp add: untouched_def now_def same_holds_def pallet_step.other)

subsection \<open>The invariants of the pallets in the composition\<close>

lemma chain_reachable_sponsorship:
  assumes "lawful S" "one_currency S P A" "bridge_laws (System S) (Currency S) T" "pallet_account T \<noteq> account_id P"
    and "chain_reachable S P A T n x"
  shows "reachable S (spon x) \<and> ext (spon x) = currency (pay x) \<and> hext (hft x) = currency (pay x)"
  using assms(5)
proof (induction rule: chain_reachable.induct)
  case (genesis c g x)
  then show ?case by (auto simp: chain_genesis_def hft_genesis_def intro: reachable.genesis)
next
  case (step n x x')
  from step(2) show ?case
  proof (cases rule: chain_step.cases)
    case (bridge b)
    with bridge_call_elsewhere [OF assms(3,4) bridge(2)] step.IH
    have "pallet_step S (spon x) ((spon x)\<lparr>ext := hext b\<rparr>)" by (intro untouched_step) simp
    with step.IH bridge(1) show ?thesis by (auto intro: reachable.step)
  next
    case (sponsorship s)
    with step.IH show ?thesis by (auto intro: reachable.step sponsorship_call_step)
  next
    case (gas g)
    with gas_call_untouched [OF assms(1,2) gas(2)] step.IH
    have "pallet_step S (spon x) ((spon x)\<lparr>ext := currency g\<rparr>)" by (intro untouched_step) simp
    with step.IH gas(1) show ?thesis by (auto intro: reachable.step)
  next
    case (elsewhere c)
    with reachable.step [OF _ untouched_step [OF elsewhere(2)]] step.IH show ?thesis by simp
  next
    case (new_block c w s)
    with reachable.step [OF _ pallet_step.new_block [OF new_block(2,3,5)]] step.IH show ?thesis by simp
  qed
qed

lemma pool_kept_start: "pool_kept S pool (unat (balance (Currency S) (ext s) pool)) s"
  by (simp add: pool_kept_def)

lemma sponsorship_call_pool:
  assumes "lawful S" "sponsorship_call S pool s s'"
  shows "pool_kept S pool (unat (balance (Currency S) (ext s) pool)) s'"
  using assms(2)
proof (cases rule: sponsorship_call.cases)
  case (extrinsic og call)
  then show ?thesis
    using pool.dispatch_preserves [of S pool _ s og call s'] pool_kept_start [of S pool s] assms(1) by blast
next
  case (create spo b amount au l)
  then show ?thesis
    using pool.create_sponsorship_preserves [of spo pool S _ s b amount au l s'] pool_kept_start [of S pool s] assms(1)
    by blast
next
  case (unlock spo b)
  then show ?thesis
    using pool.unlock_sponsorship_preserves [of S pool _ s spo b s'] pool_kept_start [of S pool s] assms(1) by blast
next
  case (attempt b)
  then show ?thesis
    using pool.try_auto_unlock_preserves [of S pool _ s b s'] pool_kept_start [of S pool s] assms(1) by blast
qed

text \<open>One step of the chain widens the gap between the credit and the pool only when it drains the pool,
  and then by less than the minimum balance.\<close>

abbreviation drain_gap ::
  "('a, 'c, 'o, 'w) Config \<Rightarrow> ('a, 'c, 'o, 'i) PrepaidConfig \<Rightarrow> ('a, 'c, 'cr, 'k, 'm, 'h) Chain \<Rightarrow> ('a, 'c, 'cr, 'k, 'm, 'h) Chain \<Rightarrow> nat" where
  "drain_gap S P x x' \<equiv> (if drains S P x x' then unat (minimum_balance (Currency S)) - 1 else 0)"

lemma kept_gap:
  assumes "pool_kept S (account_id P) (pool_balance S P (ext (spon x))) s"
    and "owed \<le> pool_balance S P (ext (spon x)) + gap"
  shows "owed \<le> pool_balance S P (ext s) + (gap + drain_gap S P x (with_sponsorship s x))"
  using assms by (auto simp: pool_kept_def drains_def)

definition covered ::
  "('a, 'c, 'o, 'w) Config \<Rightarrow> ('a, 'c, 'o, 'i) PrepaidConfig \<Rightarrow> nat \<Rightarrow> ('a, 'c, 'cr, 'k, 'm, 'h) Chain \<Rightarrow> bool" where
  "covered S P gap x \<longleftrightarrow> credits_finite (prepaid (pay x)) \<and>
     total_credit (prepaid (pay x)) \<le> pool_balance S P (currency (pay x)) + gap"

lemma chain_step_covered:
  assumes laws: "lawful S" "one_currency S P A" "adapter_on P A"
    and bridge_laws: "bridge_laws (System S) (Currency S) T" "pallet_account T \<noteq> account_id P"
    and shared: "ext (spon x) = currency (pay x)" "hext (hft x) = currency (pay x)"
    and step: "chain_step S P A T x x'" and inv: "covered S P gap x"
  shows "covered S P (gap + drain_gap S P x x') x'"
  using step
proof (cases rule: chain_step.cases)
  case (bridge b)
  with bridge_call_elsewhere [OF bridge_laws bridge(2)] inv shared show ?thesis by (simp add: covered_def)
next
  case (sponsorship s)
  with sponsorship_call_pool [OF laws(1) sponsorship(2)] kept_gap [of S P x s] inv shared show ?thesis
    by (simp add: covered_def)
next
  case (gas g)
  have pool: "balance (Currency S) = balance (Fung A)" "minimum_balance (Currency S) = minimum_balance (Fung A)"
    "fee_account (Prep A) = account_id P"
    using laws(3) one_currencyD(2,3) [OF laws(2)] by (simp_all add: adapter_on_def)
  from inv shared have "gas_inv A gap (pay x)"
    by (simp add: covered_def gas_inv_def backed_def bal_def pool)
  from gas_call_inv [OF laws(3) gas(2) this] have
    "credits_finite (prepaid g)"
    "total_credit (prepaid g) \<le> pool_balance S P (currency g) + (gap + dust_gap A (pay x) g)"
    by (simp_all add: gas_inv_def backed_def bal_def pool)
  moreover have "dust_gap A (pay x) g \<le> drain_gap S P x x'"
    by (auto simp: gas drains_def empties_def bal_def pool shared)
  ultimately show ?thesis using gas(1) by (simp add: covered_def)
next
  case (elsewhere c)
  with inv shared show ?thesis by (simp add: covered_def)
next
  case (new_block c w s)
  let ?n = "pool_balance S P (ext (spon x))" and ?s = "(spon x)\<lparr>ext := c\<rparr>"
  have "pool_kept S (account_id P) ?n ?s" using new_block(4) by (simp add: pool_kept_def)
  moreover have "on_initialize S (now S ?s) ?s = Some (w, s)" using new_block(5) by (simp add: now_def)
  ultimately have "pool_kept S (account_id P) ?n s"
    using pool.on_initialize_preserves [of S "account_id P" ?n ?s w s] laws(1) by blast
  with kept_gap [of S P x s] inv shared new_block(1) show ?thesis by (simp add: covered_def)
qed

lemma chain_reachable_covered:
  assumes "lawful S" "one_currency S P A" "adapter_on P A"
    and "bridge_laws (System S) (Currency S) T" "pallet_account T \<noteq> account_id P"
    and "chain_reachable S P A T n x"
  shows "covered S P (n * (unat (minimum_balance (Currency S)) - 1)) x"
  using assms(6)
proof (induction rule: chain_reachable.induct)
  case (genesis c g x)
  then show ?case
    by (auto simp: chain_genesis_def covered_def empty_prepaid_def credits_finite_def total_credit_def)
next
  case (step n x x')
  from chain_reachable_sponsorship [OF assms(1,2,4,5) step(1)]
  have "ext (spon x) = currency (pay x)" "hext (hft x) = currency (pay x)" by simp_all
  from chain_step_covered [OF assms(1-5) this step(2) step.IH] show ?case by (auto simp: add.commute)
qed

subsection \<open>The runtime\<close>

text \<open>The runtime gives all three pallets the same \<^verbatim>\<open>Balances\<close>: \<open>balances\<close> is its view with holds, \<open>F\<close>
  the one with credits.\<close>

definition balances_laws ::
  "('a, 'c, 'o) frame_system \<Rightarrow> ('a, 'c, HoldReason) hold_fungible \<Rightarrow> ('a, 'c, 'cr) balanced \<Rightarrow> bool" where
  "balances_laws sys balances F \<longleftrightarrow>
     hold_currency_laws sys balances \<and> credit_laws F \<and> transfer_law F \<and>
     balance balances = balance F \<and> minimum_balance balances = minimum_balance F \<and>
     leaves_holds sys balances F (transfer F)"

lemma runtime_one_currency:
  assumes "balances_laws sys balances F"
  shows "lawful (runtime_sponsorship sys balances W root)"
    and "one_currency (runtime_sponsorship sys balances W root) (runtime_prepaid sys F acct)
      (runtime_adapter sys F acct)"
    and "adapter_on (runtime_prepaid sys F acct) (runtime_adapter sys F acct)"
proof -
  show "lawful (runtime_sponsorship sys balances W root)" using assms by (simp add: balances_laws_def)
  show "one_currency (runtime_sponsorship sys balances W root) (runtime_prepaid sys F acct)
      (runtime_adapter sys F acct)"
    using assms
    by (simp add: balances_laws_def one_currency_def runtime_prepaid_def runtime_adapter_def fungible.truncate_def)
  have "providers_law sys balances" "balance balances = balance F" "credit_laws F" "transfer_law F"
    using assms by (simp_all add: balances_laws_def hold_currency_laws_def)
  then show "adapter_on (runtime_prepaid sys F acct) (runtime_adapter sys F acct)"
    by (simp add: adapter_on_def runtime_prepaid_def runtime_adapter_def fungible.truncate_def
        transfer_law_def providers_law_def)
qed

lemma runtime_bridge:
  assumes "bridge_laws sys balances sdk" "pallet_account sdk \<noteq> into_account PrepaidGasPalletId"
  shows "bridge_laws (System (runtime_sponsorship sys balances W root)) (Currency (runtime_sponsorship sys balances W root))
      (runtime_hft ensure_root sdk)"
    and "pallet_account (runtime_hft ensure_root sdk) \<noteq> account_id (runtime_prepaid sys F into_account)"
  using assms by (simp_all add: bridge_laws_def runtime_hft_def pallet_account_def account_id_def runtime_prepaid_def)

end
