(* ===== verification/Node.thy ===== *)
theory Node
  imports Runtime
begin

text \<open>
  The chain specifications the node is built with (\<^verbatim>\<open>node/src/chain_spec.rs\<close>), the choice of one by name
  (\<^verbatim>\<open>node/src/command.rs\<close>) and what the command line hands to the embedded relay chain node
  (\<^verbatim>\<open>node/src/cli.rs\<close>). The parsers of the SDK, the names of the presets and the compiled runtime are
  parameters; an \<^verbatim>\<open>expect\<close> that fails is \<open>Panic\<close>.
\<close>

subsection \<open>Chain specifications\<close>

datatype ChainType = Development | Local

datatype Property = PropertyString string | PropertyNumber nat

record Extensions =
  relay_chain :: string

definition RELAY_CHAIN :: string where "RELAY_CHAIN = ''paseo-local''"

text \<open>A built specification; one that is read from a file may come without the extension.\<close>

record 'b ChainSpec =
  wasm_binary :: 'b
  extensions :: "Extensions option"
  spec_name :: string
  spec_id :: string
  chain_type :: ChainType
  genesis_preset :: string
  protocol_id :: "string option"
  fork_id :: "string option"
  properties :: "string \<rightharpoonup> Property"

definition try_get :: "'b ChainSpec \<Rightarrow> Extensions option" where
  "try_get spec = extensions spec"

definition development_chain_spec :: "string \<Rightarrow> 'b option \<Rightarrow> ('e, 'b ChainSpec) outcome" where
  "development_chain_spec dev_preset WASM_BINARY =
     (case WASM_BINARY of
        None \<Rightarrow> Panic
      | Some wasm \<Rightarrow> Done
          \<lparr>wasm_binary = wasm, extensions = Some \<lparr>relay_chain = RELAY_CHAIN\<rparr>,
           spec_name = ''Development'', spec_id = ''dev'', chain_type = Development,
           genesis_preset = dev_preset, protocol_id = None, fork_id = None,
           properties = [''tokenSymbol'' \<mapsto> PropertyString ''SCIO'', ''tokenDecimals'' \<mapsto> PropertyNumber 12,
             ''ss58Format'' \<mapsto> PropertyNumber 42]\<rparr>)"

definition local_chain_spec :: "string \<Rightarrow> 'b option \<Rightarrow> ('e, 'b ChainSpec) outcome" where
  "local_chain_spec local_preset WASM_BINARY =
     (case WASM_BINARY of
        None \<Rightarrow> Panic
      | Some wasm \<Rightarrow> Done
          \<lparr>wasm_binary = wasm, extensions = Some \<lparr>relay_chain = RELAY_CHAIN\<rparr>,
           spec_name = ''Local Testnet'', spec_id = ''local_testnet'', chain_type = Local,
           genesis_preset = local_preset, protocol_id = Some ''nulo-local'', fork_id = None,
           properties = [''tokenSymbol'' \<mapsto> PropertyString ''SCIO'', ''tokenDecimals'' \<mapsto> PropertyNumber 12,
             ''ss58Format'' \<mapsto> PropertyNumber 42]\<rparr>)"

subsection \<open>The command line\<close>

text \<open>\<^verbatim>\<open>from_json_file\<close>, the names of the presets and the binary belong to the SDK and the build.\<close>

definition load_spec ::
  "('a, 'k) PresetEnv \<Rightarrow> 'b option \<Rightarrow> (string \<Rightarrow> string + 'b ChainSpec) \<Rightarrow> string \<Rightarrow>
   (string, 'b ChainSpec) outcome" where
  "load_spec E wasm from_json_file i =
     (if i = ''dev'' then development_chain_spec (DEV_RUNTIME_PRESET E) wasm
      else if i = ''nulo-paseo'' then local_chain_spec (LOCAL_TESTNET_RUNTIME_PRESET E) wasm
      else if i = '''' \<or> i = ''local'' then local_chain_spec (LOCAL_TESTNET_RUNTIME_PRESET E) wasm
      else of_result id (from_json_file i))"

text \<open>\<^verbatim>\<open>RelayChainCli\<close>: the arguments after \<^verbatim>\<open>--\<close>, parsed by the SDK (\<open>base\<close>), and what is taken from the
  parachain.\<close>

record 'r RelayChainCli =
  base :: 'r
  relay_chain_id :: "string option"
  relay_base_path :: "string list option"

definition RelayChainCli_new :: "(string list \<Rightarrow> 'r) \<Rightarrow> 'b ChainSpec \<Rightarrow> string list \<Rightarrow> string list \<Rightarrow> 'r RelayChainCli" where
  "RelayChainCli_new parse_from spec base_path relay_chain_args =
     \<lparr>base = parse_from relay_chain_args, relay_chain_id = map_option relay_chain (try_get spec),
      relay_base_path = Some (base_path @ [''polkadot''])\<rparr>"

definition chain_id :: "('r \<Rightarrow> bool \<Rightarrow> 'e + string) \<Rightarrow> 'r RelayChainCli \<Rightarrow> bool \<Rightarrow> 'e + string" where
  "chain_id base_chain_id c is_dev =
     and_then (base_chain_id (base c) is_dev) (\<lambda>i.
       Inr (if i = '''' then (case relay_chain_id c of None \<Rightarrow> '''' | Some r \<Rightarrow> r) else i))"

definition base_path ::
  "('r \<Rightarrow> 'e + string list option) \<Rightarrow> 'r RelayChainCli \<Rightarrow> 'e + string list option" where
  "base_path shared_base_path c =
     and_then (shared_base_path (base c)) (\<lambda>p.
       Inr (case p of Some q \<Rightarrow> Some q | None \<Rightarrow> relay_base_path c))"

text \<open>The ports of the embedded relay chain node.\<close>

definition p2p_listen_port :: u16 where "p2p_listen_port = 30334"

definition rpc_listen_port :: u16 where "rpc_listen_port = 9945"

definition prometheus_listen_port :: u16 where "prometheus_listen_port = 9616"

end
