(* ===== verification/Node_Service.thy ===== *)
theory Node_Service
  imports Node
begin

text \<open>
  The start of a node (\<^verbatim>\<open>node/src/service.rs\<close>), its RPC modules (\<^verbatim>\<open>node/src/rpc.rs\<close>) and the dispatch of
  the command line (\<^verbatim>\<open>run\<close> of \<^verbatim>\<open>node/src/command.rs\<close>).

  The services of the SDK are the fields of \<open>Sdk\<close>: a field gives what the call returns, an error or its
  result. What the code itself decides is kept: which calls are made, in which order, under which
  conditions, and which tasks are given to the task manager with which parameters. The task manager is
  the list of these tasks, those the SDK adds within one call counted as one entry. Durations are in
  milliseconds.
\<close>

subsection \<open>Configuration, tasks and the SDK\<close>

datatype HeapAllocStrategy = Static u32 | Dynamic "u32 option"

record Executor =
  wasm_method :: string
  onchain_heap :: HeapAllocStrategy
  offchain_heap :: HeapAllocStrategy
  max_runtime_instances :: nat
  runtime_cache_size :: u8

record 'b Configuration =
  chain_spec :: "'b ChainSpec"
  data_path :: "string list"
  database_path :: "string option"
  is_authority :: bool
  telemetry_endpoints :: "string list option"
  default_heap_pages :: "u64 option"
  executor_wasm_method :: string
  executor_max_runtime_instances :: nat
  executor_runtime_cache_size :: u8
  offchain_worker_enabled :: bool
  allow_non_globals_in_dht :: bool
  public_addresses :: "string list"

record CollatorOptions =
  embedded_dht_bootnode :: bool
  dht_bootnode_discovery :: bool

datatype DARecoveryProfile = Collator | FullNode

record ('cl, 'rci, 'oh) StartRelayChainTasksParams =
  relay_tasks_client :: 'cl
  relay_tasks_para_id :: u32
  relay_tasks_interface :: 'rci
  da_recovery_profile :: DARecoveryProfile
  relay_tasks_slot_duration :: nat
  recovery_handle :: 'oh

record ('rci, 'net) StartBootnodeTasksParams =
  bootnode_options :: CollatorOptions
  bootnode_para_id :: u32
  bootnode_interface :: 'rci
  relay_chain_fork_id :: "string option"
  parachain_network :: 'net
  advertise_non_global_ips :: bool
  parachain_fork_id :: "string option"
  parachain_public_addresses :: "string list"

record ('cl, 'be, 'ks, 'rci, 'key, 'peer, 'oh) AuraParams =
  aura_client :: 'cl
  aura_backend :: 'be
  relay_client :: 'rci
  aura_keystore :: 'ks
  collator_key :: 'key
  collator_peer_id :: 'peer
  aura_para_id :: u32
  aura_overseer_handle :: 'oh
  relay_chain_slot_duration :: nat
  authoring_duration :: nat
  reinitialize :: bool
  max_pov_percentage :: "nat option"

datatype ('cl, 'be, 'ks, 'rci, 'key, 'net, 'peer, 'oh, 'hw) Task =
    TelemetryTask
  | TransactionPoolTask bool
  | ImportQueueTask "string list option"
  | RelayChainTask
  | NetworkTask u32
  | OffchainWorkersTask bool
  | ServiceTasks
  | HwbenchTelemetryTask "string list" 'hw
  | RelayChainTasks "('cl, 'rci, 'oh) StartRelayChainTasksParams"
  | BootnodeTasks "('rci, 'net) StartBootnodeTasksParams"
  | AuraTask "('cl, 'be, 'ks, 'rci, 'key, 'peer, 'oh) AuraParams"

datatype 'e ServiceError = SdkFailure 'e | Telemetry 'e | Application 'e | Other string

datatype ('cl, 'be) RpcModule = SystemRpc 'cl | TransactionPaymentRpc 'cl | IsmpRpc 'cl 'be

record ('b, 'cl, 'be, 'ks, 'rci, 'key, 'net, 'peer, 'oh, 'hw, 'e, 'rpc) Sdk =
  prepare_node_config :: "'b Configuration \<Rightarrow> 'b Configuration"
  TelemetryWorker_new :: "nat \<Rightarrow> 'e + unit"
  DEFAULT_HEAP_ALLOC_STRATEGY :: HeapAllocStrategy
  new_full_parts_record_import ::
    "'b Configuration \<Rightarrow> string list option \<Rightarrow> Executor \<Rightarrow> bool \<Rightarrow> 'e + 'cl \<times> 'be \<times> 'ks"
  build_relay_chain_interface ::
    "'b Configuration \<Rightarrow> 'b Configuration \<Rightarrow> string list option \<Rightarrow> CollatorOptions \<Rightarrow> 'hw option \<Rightarrow>
     'e + 'rci \<times> 'key option"
  runtime_parachain_id :: "'cl \<Rightarrow> 'e + u32"
  build_network :: "'b Configuration \<Rightarrow> 'cl \<Rightarrow> u32 \<Rightarrow> 'rci \<Rightarrow> 'e + 'net"
  local_peer_id :: "'net \<Rightarrow> 'peer"
  OffchainWorkers_new :: "'cl \<Rightarrow> 'ks \<Rightarrow> 'be \<Rightarrow> 'net \<Rightarrow> bool \<Rightarrow> bool \<Rightarrow> 'e + unit"
  spawn_tasks :: "'b Configuration \<Rightarrow> 'cl \<Rightarrow> 'be \<Rightarrow> 'ks \<Rightarrow> 'net \<Rightarrow> string list option \<Rightarrow> 'e + 'rpc \<Rightarrow> 'e + unit"
  overseer_handle :: "'rci \<Rightarrow> 'e + 'oh"
  start_relay_chain_tasks :: "('cl, 'rci, 'oh) StartRelayChainTasksParams \<Rightarrow> 'e + unit"
  rpc_new :: 'rpc
  rpc_merge :: "'rpc \<Rightarrow> ('cl, 'be) RpcModule \<Rightarrow> 'e + 'rpc"
  IsmpRpcHandler_new :: "'cl \<Rightarrow> 'be \<Rightarrow> 'e + unit"

subsection \<open>RPC\<close>

definition create_full ::
  "('b, 'cl, 'be, 'ks, 'rci, 'key, 'net, 'peer, 'oh, 'hw, 'e, 'rpc) Sdk \<Rightarrow> 'cl \<Rightarrow> 'be \<Rightarrow> 'e + 'rpc" where
  "create_full S client backend =
     and_then (rpc_merge S (rpc_new S) (SystemRpc client)) (\<lambda>m.
     and_then (rpc_merge S m (TransactionPaymentRpc client)) (\<lambda>m.
     and_then (IsmpRpcHandler_new S client backend) (\<lambda>_.
     rpc_merge S m (IsmpRpc client backend))))"

subsection \<open>The partial components\<close>

text \<open>A telemetry instance is named by the endpoints it was made for.\<close>

record ('cl, 'be, 'ks, 'task) Service =
  client :: 'cl
  backend :: 'be
  keystore :: 'ks
  task_manager :: "'task list"
  telemetry :: "string list option"

definition start_telemetry ::
  "('b, 'cl, 'be, 'ks, 'rci, 'key, 'net, 'peer, 'oh, 'hw, 'e, 'rpc) Sdk \<Rightarrow> 'b Configuration \<Rightarrow>
   ('e ServiceError, string list option) outcome" where
  "start_telemetry S config =
     (case telemetry_endpoints config of
        None \<Rightarrow> Done None
      | Some endpoints \<Rightarrow>
          if endpoints = [] then Done None
          else outcome_then (of_result Telemetry (TelemetryWorker_new S 16)) (\<lambda>_. Done (Some endpoints)))"

definition heap_pages ::
  "('b, 'cl, 'be, 'ks, 'rci, 'key, 'net, 'peer, 'oh, 'hw, 'e, 'rpc) Sdk \<Rightarrow> 'b Configuration \<Rightarrow> HeapAllocStrategy" where
  "heap_pages S config =
     (case default_heap_pages config of
        None \<Rightarrow> DEFAULT_HEAP_ALLOC_STRATEGY S
      | Some h \<Rightarrow> Static (ucast h))"

definition build_import_queue :: "string list option \<Rightarrow> ('cl, 'be, 'ks, 'rci, 'key, 'net, 'peer, 'oh, 'hw) Task" where
  "build_import_queue handle = ImportQueueTask handle"

definition new_partial ::
  "('b, 'cl, 'be, 'ks, 'rci, 'key, 'net, 'peer, 'oh, 'hw, 'e, 'rpc) Sdk \<Rightarrow> 'b Configuration \<Rightarrow>
   ('e ServiceError, ('cl, 'be, 'ks, ('cl, 'be, 'ks, 'rci, 'key, 'net, 'peer, 'oh, 'hw) Task) Service) outcome" where
  "new_partial S config =
     outcome_then (start_telemetry S config) (\<lambda>tele.
     let executor = \<lparr>wasm_method = executor_wasm_method config, onchain_heap = heap_pages S config,
           offchain_heap = heap_pages S config,
           max_runtime_instances = executor_max_runtime_instances config,
           runtime_cache_size = executor_runtime_cache_size config\<rparr> in
     outcome_then (of_result SdkFailure (new_full_parts_record_import S config tele executor True)) (\<lambda>(cl, be, ks).
     Done \<lparr>client = cl, backend = be, keystore = ks,
       task_manager =
         (case tele of None \<Rightarrow> [] | Some _ \<Rightarrow> [TelemetryTask]) @
         [TransactionPoolTask (is_authority config), build_import_queue tele],
       telemetry = tele\<rparr>))"

subsection \<open>The start of a node\<close>

definition start_consensus ::
  "'cl \<Rightarrow> 'be \<Rightarrow> ('cl, 'be, 'ks, 'rci, 'key, 'net, 'peer, 'oh, 'hw) Task list \<Rightarrow> 'rci \<Rightarrow> 'ks \<Rightarrow> nat \<Rightarrow> u32 \<Rightarrow>
   'key \<Rightarrow> 'peer \<Rightarrow> 'oh \<Rightarrow>
   ('e ServiceError, ('cl, 'be, 'ks, 'rci, 'key, 'net, 'peer, 'oh, 'hw) Task list) outcome" where
  "start_consensus cl be tasks rci ks slot_duration para_id key peer handle =
     Done (tasks @ [AuraTask
       \<lparr>aura_client = cl, aura_backend = be, relay_client = rci, aura_keystore = ks, collator_key = key,
        collator_peer_id = peer, aura_para_id = para_id, aura_overseer_handle = handle,
        relay_chain_slot_duration = slot_duration, authoring_duration = 2000, reinitialize = False,
        max_pov_percentage = None\<rparr>])"

definition start_offchain_workers ::
  "('b, 'cl, 'be, 'ks, 'rci, 'key, 'net, 'peer, 'oh, 'hw, 'e, 'rpc) Sdk \<Rightarrow> 'b Configuration \<Rightarrow>
   ('cl, 'be, 'ks, ('cl, 'be, 'ks, 'rci, 'key, 'net, 'peer, 'oh, 'hw) Task) Service \<Rightarrow> 'net \<Rightarrow>
   ('e ServiceError, ('cl, 'be, 'ks, 'rci, 'key, 'net, 'peer, 'oh, 'hw) Task list) outcome" where
  "start_offchain_workers S config params network =
     (if offchain_worker_enabled config
      then outcome_then
        (of_result SdkFailure (OffchainWorkers_new S (client params) (keystore params) (backend params) network
          (is_authority config) False))
        (\<lambda>_. Done [OffchainWorkersTask (is_authority config)])
      else Done [])"

definition hwbench_tasks ::
  "'hw option \<Rightarrow> string list option \<Rightarrow> ('cl, 'be, 'ks, 'rci, 'key, 'net, 'peer, 'oh, 'hw) Task list" where
  "hwbench_tasks hwbench tele =
     (case hwbench of
        None \<Rightarrow> []
      | Some hw \<Rightarrow> (case tele of None \<Rightarrow> [] | Some t \<Rightarrow> [HwbenchTelemetryTask t hw]))"

definition relay_chain_tasks_params ::
  "'cl \<Rightarrow> u32 \<Rightarrow> 'rci \<Rightarrow> bool \<Rightarrow> nat \<Rightarrow> 'oh \<Rightarrow> ('cl, 'rci, 'oh) StartRelayChainTasksParams" where
  "relay_chain_tasks_params cl para_id rci validator slot_duration handle =
     \<lparr>relay_tasks_client = cl, relay_tasks_para_id = para_id, relay_tasks_interface = rci,
      da_recovery_profile = (if validator then Collator else FullNode),
      relay_tasks_slot_duration = slot_duration, recovery_handle = handle\<rparr>"

definition bootnode_tasks_params ::
  "CollatorOptions \<Rightarrow> u32 \<Rightarrow> 'rci \<Rightarrow> 'net \<Rightarrow> 'b Configuration \<Rightarrow> 'b Configuration \<Rightarrow>
   ('rci, 'net) StartBootnodeTasksParams" where
  "bootnode_tasks_params options para_id rci network parachain_config polkadot_config =
     \<lparr>bootnode_options = options, bootnode_para_id = para_id, bootnode_interface = rci,
      relay_chain_fork_id = fork_id (chain_spec polkadot_config), parachain_network = network,
      advertise_non_global_ips = allow_non_globals_in_dht parachain_config,
      parachain_fork_id = fork_id (chain_spec parachain_config),
      parachain_public_addresses = public_addresses parachain_config\<rparr>"

definition start_parachain_node ::
  "('b, 'cl, 'be, 'ks, 'rci, 'key, 'net, 'peer, 'oh, 'hw, 'e, 'rpc) Sdk \<Rightarrow> 'b Configuration \<Rightarrow> 'b Configuration \<Rightarrow>
   CollatorOptions \<Rightarrow> 'hw option \<Rightarrow>
   ('e ServiceError, ('cl, 'be, 'ks, 'rci, 'key, 'net, 'peer, 'oh, 'hw) Task list \<times> 'cl) outcome" where
  "start_parachain_node S config polkadot_config options hwbench =
     (let parachain_config = prepare_node_config S config; validator = is_authority parachain_config in
     outcome_then (new_partial S parachain_config) (\<lambda>params.
     outcome_then (of_result Application
       (build_relay_chain_interface S polkadot_config parachain_config (telemetry params) options hwbench))
       (\<lambda>(relay_chain_interface, key).
     outcome_then (of_result (\<lambda>_. Other ''Failed to retrieve parachain id from runtime. Make sure you implement `cumulus_primitives_core::GetParachaiNidentity` runtime API.'')
       (runtime_parachain_id S (client params))) (\<lambda>para_id.
     outcome_then (of_result SdkFailure
       (build_network S parachain_config (client params) para_id relay_chain_interface)) (\<lambda>network.
     outcome_then (start_offchain_workers S parachain_config params network) (\<lambda>offchain_tasks.
     outcome_then (of_result SdkFailure
       (spawn_tasks S parachain_config (client params) (backend params) (keystore params) network (telemetry params)
         (create_full S (client params) (backend params)))) (\<lambda>_.
     let slot_duration = 6 * 1000 in
     outcome_then (of_result Application (overseer_handle S relay_chain_interface)) (\<lambda>handle.
     let relay_params = relay_chain_tasks_params (client params) para_id relay_chain_interface validator
           slot_duration handle in
     outcome_then (of_result SdkFailure (start_relay_chain_tasks S relay_params)) (\<lambda>_.
     let tasks = task_manager params @ [RelayChainTask, NetworkTask para_id] @ offchain_tasks @ [ServiceTasks] @
           hwbench_tasks hwbench (telemetry params) @
           [RelayChainTasks relay_params,
            BootnodeTasks
              (bootnode_tasks_params options para_id relay_chain_interface network parachain_config polkadot_config)] in
     outcome_then
       (if validator
        then (case key of
                None \<Rightarrow> Panic
              | Some k \<Rightarrow> start_consensus (client params) (backend params) tasks relay_chain_interface
                  (keystore params) slot_duration para_id k (local_peer_id S network) handle)
        else Done tasks)
       (\<lambda>all. Done (all, client params)))))))))))"

subsection \<open>The command line\<close>

datatype BenchmarkCmd = BenchmarkPallet | BenchmarkBlock | BenchmarkStorage | BenchmarkMachine | BenchmarkOther

datatype Subcommand =
    BuildSpec
  | ExportChainSpec string
  | CheckBlock
  | ExportBlocks
  | ExportState
  | ImportBlocks
  | Revert
  | PurgeChain
  | ExportGenesisHead
  | ExportGenesisWasm "string option"
  | Benchmark BenchmarkCmd

record Cli =
  subcommand :: "Subcommand option"
  collator_options :: CollatorOptions
  no_hardware_benchmarks :: bool
  relay_chain_args :: "string list"

text \<open>What a command of the SDK is run on.\<close>

datatype ('b, 'cl, 'be) Operation =
    RunBuildSpec "'b ChainSpec"
  | RunCheckBlock 'cl
  | RunExportSpec "'b ChainSpec"
  | RunExportBlocks 'cl "string option"
  | RunExportState 'cl "'b ChainSpec"
  | RunImportBlocks 'cl
  | RunRevert 'cl 'be
  | RunPurge "'b Configuration" "'b Configuration"
  | RunExportGenesisHead 'cl
  | RunExportGenesisWasm "'b ChainSpec"
  | RunBenchmarkPallet "'b ChainSpec"
  | RunBenchmarkBlock 'cl
  | RunBenchmarkStorage "'b Configuration" 'cl 'be
  | RunBenchmarkMachine "'b Configuration"

datatype 'e CliError = CommandFailure 'e | Input string | Service "'e ServiceError"

datatype ('b, 'cl, 'be, 'task) Ran = Ran "('b, 'cl, 'be) Operation" | Started "'task list" 'cl

text \<open>\<open>create_runner\<close> makes the configuration of a command, with the specification \<^verbatim>\<open>load_spec\<close> gives for its
  chain; \<open>create_configuration\<close> is the one of the relay chain node; \<open>exec\<close> runs a command.\<close>

record ('b, 'cl, 'be, 'r, 'hw, 'e) CliSdk =
  create_runner :: "(string \<Rightarrow> (string, 'b ChainSpec) outcome) \<Rightarrow> Subcommand option \<Rightarrow> ('e CliError, 'b Configuration) outcome"
  create_configuration :: "'r RelayChainCli \<Rightarrow> 'e + 'b Configuration"
  parse_from :: "string list \<Rightarrow> 'r"
  executable_name :: string
  exec :: "('b, 'cl, 'be) Operation \<Rightarrow> 'e + unit"
  gather_hwbench :: "string \<Rightarrow> 'hw"
  display :: "'e \<Rightarrow> string"
  runtime_benchmarks :: bool

definition run_op ::
  "('b, 'cl, 'be, 'r, 'hw, 'e) CliSdk \<Rightarrow> ('b, 'cl, 'be) Operation \<Rightarrow>
   ('e CliError, ('b, 'cl, 'be, 'task) Ran) outcome" where
  "run_op C op = outcome_then (of_result CommandFailure (exec C op)) (\<lambda>_. Done (Ran op))"

text \<open>\<^verbatim>\<open>construct_async_run\<close>: the command runs on the components of a node that is not started.\<close>

definition construct_async_run where
  "construct_async_run C S load cmd code =
     outcome_then (create_runner C load cmd) (\<lambda>config.
     outcome_then (map_fail Service (new_partial S config)) (\<lambda>components.
     run_op C (code components config)))"

definition relay_configuration ::
  "('b, 'cl, 'be, 'r, 'hw, 'e) CliSdk \<Rightarrow> Cli \<Rightarrow> 'b Configuration \<Rightarrow> ('e CliError, 'b Configuration) outcome" where
  "relay_configuration C cli config =
     (let polkadot_cli = RelayChainCli_new (parse_from C) (chain_spec config) (data_path config)
            (executable_name C # relay_chain_args cli) in
      of_result (\<lambda>err. Input (''Relay chain argument error: '' @ display C err)) (create_configuration C polkadot_cli))"

definition hwbench_of :: "('b, 'cl, 'be, 'r, 'hw, 'e) CliSdk \<Rightarrow> Cli \<Rightarrow> 'b Configuration \<Rightarrow> 'hw option" where
  "hwbench_of C cli config =
     (if no_hardware_benchmarks cli then None else map_option (gather_hwbench C) (database_path config))"

definition run_benchmark where
  "run_benchmark C S load cmd =
     outcome_then (create_runner C load (Some (Benchmark cmd))) (\<lambda>config.
     case cmd of
       BenchmarkPallet \<Rightarrow>
         if runtime_benchmarks C then run_op C (RunBenchmarkPallet (chain_spec config))
         else Fail (Input ''Benchmarking wasn't enabled when building the node. You can enable it with `--features runtime-benchmarks`.'')
     | BenchmarkBlock \<Rightarrow>
         outcome_then (map_fail Service (new_partial S config)) (\<lambda>partials. run_op C (RunBenchmarkBlock (client partials)))
     | BenchmarkStorage \<Rightarrow>
         if runtime_benchmarks C
         then outcome_then (map_fail Service (new_partial S config)) (\<lambda>partials.
           run_op C (RunBenchmarkStorage config (client partials) (backend partials)))
         else Fail (Input ''Compile with --features=runtime-benchmarks to enable storage benchmarks.'')
     | BenchmarkMachine \<Rightarrow> run_op C (RunBenchmarkMachine config)
     | BenchmarkOther \<Rightarrow> Fail (Input ''Benchmarking sub-command unsupported''))"

definition run where
  "run C S load cli =
     (case subcommand cli of
        Some BuildSpec \<Rightarrow>
          outcome_then (create_runner C load (subcommand cli)) (\<lambda>config. run_op C (RunBuildSpec (chain_spec config)))
      | Some CheckBlock \<Rightarrow>
          construct_async_run C S load (subcommand cli) (\<lambda>components config. RunCheckBlock (client components))
      | Some (ExportChainSpec i) \<Rightarrow>
          outcome_then (map_fail Input (load i)) (\<lambda>spec. run_op C (RunExportSpec spec))
      | Some ExportBlocks \<Rightarrow>
          construct_async_run C S load (subcommand cli)
            (\<lambda>components config. RunExportBlocks (client components) (database_path config))
      | Some ExportState \<Rightarrow>
          construct_async_run C S load (subcommand cli)
            (\<lambda>components config. RunExportState (client components) (chain_spec config))
      | Some ImportBlocks \<Rightarrow>
          construct_async_run C S load (subcommand cli) (\<lambda>components config. RunImportBlocks (client components))
      | Some Revert \<Rightarrow>
          construct_async_run C S load (subcommand cli)
            (\<lambda>components config. RunRevert (client components) (backend components))
      | Some PurgeChain \<Rightarrow>
          outcome_then (create_runner C load (subcommand cli)) (\<lambda>config.
          outcome_then (relay_configuration C cli config) (\<lambda>polkadot_config.
          run_op C (RunPurge config polkadot_config)))
      | Some ExportGenesisHead \<Rightarrow>
          outcome_then (create_runner C load (subcommand cli)) (\<lambda>config.
          outcome_then (map_fail Service (new_partial S config)) (\<lambda>partials.
          run_op C (RunExportGenesisHead (client partials))))
      | Some (ExportGenesisWasm chain) \<Rightarrow>
          outcome_then (create_runner C load (subcommand cli)) (\<lambda>_.
          outcome_then (map_fail Input (load (case chain of None \<Rightarrow> '''' | Some i \<Rightarrow> i))) (\<lambda>spec.
          run_op C (RunExportGenesisWasm spec)))
      | Some (Benchmark cmd) \<Rightarrow> run_benchmark C S load cmd
      | None \<Rightarrow>
          outcome_then (create_runner C load None) (\<lambda>config.
          let hwbench = hwbench_of C cli config in
          outcome_then (relay_configuration C cli config) (\<lambda>polkadot_config.
          outcome_then (map_fail Service
            (start_parachain_node S config polkadot_config (collator_options cli) hwbench)) (\<lambda>(tasks, cl).
          Done (Started tasks cl)))))"

subsection \<open>What a start does\<close>

fun aura_tasks :: "('cl, 'be, 'ks, 'rci, 'key, 'net, 'peer, 'oh, 'hw) Task list \<Rightarrow>
    ('cl, 'be, 'ks, 'rci, 'key, 'peer, 'oh) AuraParams list" where
  "aura_tasks [] = []"
| "aura_tasks (AuraTask p # ts) = p # aura_tasks ts"
| "aura_tasks (_ # ts) = aura_tasks ts"

fun relay_chain_tasks :: "('cl, 'be, 'ks, 'rci, 'key, 'net, 'peer, 'oh, 'hw) Task list \<Rightarrow>
    ('cl, 'rci, 'oh) StartRelayChainTasksParams list" where
  "relay_chain_tasks [] = []"
| "relay_chain_tasks (RelayChainTasks p # ts) = p # relay_chain_tasks ts"
| "relay_chain_tasks (_ # ts) = relay_chain_tasks ts"

lemma aura_tasks_append [simp]: "aura_tasks (xs @ ys) = aura_tasks xs @ aura_tasks ys"
  by (induction xs rule: aura_tasks.induct) simp_all

lemma relay_chain_tasks_append [simp]: "relay_chain_tasks (xs @ ys) = relay_chain_tasks xs @ relay_chain_tasks ys"
  by (induction xs rule: relay_chain_tasks.induct) simp_all

lemma hwbench_tasks_plain [simp]: "aura_tasks (hwbench_tasks hw t) = []" "relay_chain_tasks (hwbench_tasks hw t) = []"
  by (simp_all add: hwbench_tasks_def split: option.split)

lemma new_partial_plain:
  assumes "new_partial S config = Done params"
  shows "aura_tasks (task_manager params) = []" "relay_chain_tasks (task_manager params) = []"
  using assms
  by (auto simp: new_partial_def result_simps Let_def build_import_queue_def split: option.splits)

lemma start_offchain_workers_plain:
  assumes "start_offchain_workers S config params network = Done tasks"
  shows "aura_tasks tasks = []" "relay_chain_tasks tasks = []"
  using assms by (auto simp: start_offchain_workers_def result_simps split: if_splits)

lemma new_partial_no_panic: "new_partial S config \<noteq> Panic"
  by (auto simp: new_partial_def start_telemetry_def result_simps Let_def split: option.splits if_splits)

lemma start_offchain_workers_no_panic: "start_offchain_workers S config params network \<noteq> Panic"
  by (auto simp: start_offchain_workers_def result_simps split: if_splits)

lemma start_parachain_node_Done:
  assumes "start_parachain_node S config relay_config opts hw = Done (tasks, cl)"
  obtains params rci key para_id network offchain handle where
    "new_partial S (prepare_node_config S config) = Done params" "cl = client params"
    "runtime_parachain_id S cl = Inr para_id"
    "start_offchain_workers S (prepare_node_config S config) params network = Done offchain"
    "build_relay_chain_interface S relay_config (prepare_node_config S config) (telemetry params) opts hw = Inr (rci, key)"
    "tasks = task_manager params @ [RelayChainTask, NetworkTask para_id] @ offchain @ [ServiceTasks] @
       hwbench_tasks hw (telemetry params) @
       [RelayChainTasks (relay_chain_tasks_params cl para_id rci (is_authority (prepare_node_config S config)) 6000 handle),
        BootnodeTasks (bootnode_tasks_params opts para_id rci network (prepare_node_config S config) relay_config)] @
       (if is_authority (prepare_node_config S config)
        then [AuraTask
          \<lparr>aura_client = cl, aura_backend = backend params, relay_client = rci, aura_keystore = keystore params,
           collator_key = the key, collator_peer_id = local_peer_id S network, aura_para_id = para_id,
           aura_overseer_handle = handle, relay_chain_slot_duration = 6000, authoring_duration = 2000,
           reinitialize = False, max_pov_percentage = None\<rparr>]
        else [])"
    "is_authority (prepare_node_config S config) \<Longrightarrow> key \<noteq> None"
proof (cases "is_authority (prepare_node_config S config)")
  case True
  with assms that show ?thesis
    by (auto simp: start_parachain_node_def start_consensus_def result_simps Let_def split: option.splits)
next
  case False
  with assms that show ?thesis
    by (auto simp: start_parachain_node_def result_simps Let_def)
qed

lemma start_parachain_node_Panic:
  assumes "start_parachain_node S config relay_config opts hw = Panic"
  shows "is_authority (prepare_node_config S config) \<and>
    (\<exists>rci params. new_partial S (prepare_node_config S config) = Done params \<and>
       build_relay_chain_interface S relay_config (prepare_node_config S config) (telemetry params) opts hw =
         Inr (rci, None))"
  using assms
  by (auto simp: start_parachain_node_def start_consensus_def result_simps Let_def new_partial_no_panic
      start_offchain_workers_no_panic split: option.splits if_splits)

lemma run_op_Done: "run_op C op = Done r \<Longrightarrow> r = Ran op"
  by (simp add: run_op_def result_simps)

lemma construct_async_run_Done: "construct_async_run C S load cmd code = Done r \<Longrightarrow> \<exists>op. r = Ran op"
  by (auto simp: construct_async_run_def result_simps dest: run_op_Done)

lemma run_benchmark_Done: "run_benchmark C S load cmd = Done r \<Longrightarrow> \<exists>op. r = Ran op"
  by (cases cmd) (auto simp: run_benchmark_def result_simps dest: run_op_Done split: if_splits)

lemma run_Started:
  assumes "run C S load cli = Done (Started tasks cl)"
  shows "subcommand cli = None \<and> (\<exists>config relay_config.
    create_runner C load None = Done config \<and> relay_configuration C cli config = Done relay_config \<and>
    start_parachain_node S config relay_config (collator_options cli) (hwbench_of C cli config) = Done (tasks, cl))"
proof (cases "subcommand cli")
  case None
  with assms show ?thesis by (auto simp: run_def result_simps Let_def)
next
  case (Some c)
  with assms have False
    by (cases c) (auto simp: run_def result_simps dest: run_op_Done construct_async_run_Done run_benchmark_Done)
  then show ?thesis ..
qed

text \<open>C37. A node is started only by a command line without subcommand, and it collates exactly when
  its configuration makes it an authority. The relay chain tasks are started once, with the recovery
  profile of a collator for an authority and of a full node otherwise; a single Aura task is started for
  an authority, after everything else, for the parachain identifier the runtime reports and on the
  overseer the relay chain tasks use, and none otherwise. The relay chain slot both are given is the slot
  the runtime assumes, and the time for authoring is within a slot of the parachain.\<close>

theorem node_start:
  assumes "run C S load cli = Done (Started tasks cl)"
  shows "subcommand cli = None \<and> (\<exists>config para_id relay_params.
    create_runner C load None = Done config \<and> runtime_parachain_id S cl = Inr para_id \<and>
    relay_chain_tasks tasks = [relay_params] \<and> relay_tasks_para_id relay_params = para_id \<and>
    relay_tasks_slot_duration relay_params = unat RELAY_CHAIN_SLOT_DURATION_MILLIS \<and>
    (if is_authority (prepare_node_config S config)
     then da_recovery_profile relay_params = Collator \<and>
       (\<exists>p. aura_tasks tasks = [p] \<and> last tasks = AuraTask p \<and> aura_client p = cl \<and> aura_para_id p = para_id \<and>
          aura_overseer_handle p = recovery_handle relay_params \<and>
          relay_chain_slot_duration p = unat RELAY_CHAIN_SLOT_DURATION_MILLIS \<and>
          authoring_duration p \<le> unat SLOT_DURATION)
     else da_recovery_profile relay_params = FullNode \<and> aura_tasks tasks = []))"
proof -
  from run_Started [OF assms] obtain config relay_config where
    r: "subcommand cli = None" "create_runner C load None = Done config"
      "start_parachain_node S config relay_config (collator_options cli) (hwbench_of C cli config) = Done (tasks, cl)"
    by blast
  show ?thesis
  proof (rule start_parachain_node_Done [OF r(3)], goal_cases)
    case (1 params rci key para_id network offchain handle)
    with r(1,2) show ?case
      by (simp add: new_partial_plain start_offchain_workers_plain relay_chain_tasks_params_def
          RELAY_CHAIN_SLOT_DURATION_MILLIS_def SLOT_DURATION_def MILLI_SECS_PER_BLOCK_def)
  qed
qed

text \<open>A collator on services that answer at once.\<close>

definition sample_spec :: "nat ChainSpec" where
  "sample_spec =
     \<lparr>wasm_binary = 7, extensions = Some \<lparr>relay_chain = RELAY_CHAIN\<rparr>, spec_name = ''Local Testnet'',
      spec_id = ''local_testnet'', chain_type = Local, genesis_preset = ''local_testnet'',
      protocol_id = None, fork_id = None, properties = Map.empty\<rparr>"

definition sample_configuration :: "nat Configuration" where
  "sample_configuration =
     \<lparr>chain_spec = sample_spec, data_path = [''data''], database_path = None, is_authority = True,
      telemetry_endpoints = Some [], default_heap_pages = Some 2048, executor_wasm_method = ''compiled'',
      executor_max_runtime_instances = 8, executor_runtime_cache_size = 2, offchain_worker_enabled = True,
      allow_non_globals_in_dht = False, public_addresses = []\<rparr>"

definition sample_sdk :: "(nat, unit, unit, unit, unit, nat, unit, nat, unit, unit, string, nat) Sdk" where
  "sample_sdk =
     \<lparr>prepare_node_config = id, TelemetryWorker_new = (\<lambda>_. Inr ()), DEFAULT_HEAP_ALLOC_STRATEGY = Dynamic None,
      new_full_parts_record_import = (\<lambda>_ _ _ _. Inr ((), (), ())),
      build_relay_chain_interface = (\<lambda>_ _ _ _ _. Inr ((), Some 3)), runtime_parachain_id = (\<lambda>_. Inr 5153),
      build_network = (\<lambda>_ _ _ _. Inr ()), local_peer_id = (\<lambda>_. 4), OffchainWorkers_new = (\<lambda>_ _ _ _ _ _. Inr ()),
      spawn_tasks = (\<lambda>_ _ _ _ _ _ rpc. map_sum id (\<lambda>_. ()) rpc), overseer_handle = (\<lambda>_. Inr ()),
      start_relay_chain_tasks = (\<lambda>_. Inr ()), rpc_new = 0, rpc_merge = (\<lambda>m _. Inr (Suc m)),
      IsmpRpcHandler_new = (\<lambda>_ _. Inr ())\<rparr>"

definition sample_cli_sdk :: "(nat, unit, unit, nat, unit, string) CliSdk" where
  "sample_cli_sdk =
     \<lparr>create_runner = (\<lambda>_ _. Done sample_configuration), create_configuration = (\<lambda>_. Inr sample_configuration),
      parse_from = length, executable_name = ''nulo-node'', exec = (\<lambda>_. Inr ()), gather_hwbench = (\<lambda>_. ()),
      display = id, runtime_benchmarks = False\<rparr>"

definition sample_cli :: Cli where
  "sample_cli =
     \<lparr>subcommand = None, collator_options = \<lparr>embedded_dht_bootnode = True, dht_bootnode_discovery = True\<rparr>,
      no_hardware_benchmarks = False, relay_chain_args = []\<rparr>"

theorem node_start_witness:
  "\<exists>tasks p. run sample_cli_sdk sample_sdk (\<lambda>_. Fail []) sample_cli = Done (Started tasks ()) \<and>
     aura_tasks tasks = [p] \<and> aura_para_id p = 5153 \<and>
     relay_chain_slot_duration p = unat RELAY_CHAIN_SLOT_DURATION_MILLIS"
proof -
  obtain tasks where r: "run sample_cli_sdk sample_sdk (\<lambda>_. Fail []) sample_cli = Done (Started tasks ())"
    by (simp add: run_def sample_cli_def sample_cli_sdk_def relay_configuration_def hwbench_of_def Let_def
        start_parachain_node_def new_partial_def start_telemetry_def start_offchain_workers_def start_consensus_def
        create_full_def sample_sdk_def sample_configuration_def and_then_def)
  have "prepare_node_config sample_sdk = id" "runtime_parachain_id sample_sdk () = Inr 5153"
    "create_runner sample_cli_sdk (\<lambda>_. Fail []) None = Done sample_configuration" "is_authority sample_configuration"
    by (simp_all add: sample_sdk_def sample_cli_sdk_def sample_configuration_def)
  with node_start [OF r] r show ?thesis by (intro exI [of _ tasks]) auto
qed

end
