(* ===== verification/Spec2Isabelle.thy ===== *)
theory Spec2Isabelle
  imports Sponsorship_Properties Gas_Properties Hft_Properties Runtime_Composition Node_Service
begin

text \<open>
Verification of the Nulo chain: the four pallets of the repository, the runtime that composes them and
the node that runs it.

  \<^bold>\<open>The program.\<close> A parachain runtime built on the Polkadot SDK with four pallets of its own.
  \<^verbatim>\<open>pallet-existential-sponsorship\<close> lets an account fund another one that stays on hold and comes
  back to the sponsor. \<^verbatim>\<open>pallet-prepaid-gas\<close> sells fee credit; \<^verbatim>\<open>pallet-gas-transaction-payment\<close>
  is the fee handler that spends it, through the trait \<^verbatim>\<open>PrepaidFee\<close>, and falls back to the native
  balance. \<^verbatim>\<open>pallet-hyper-fungible-token\<close> sends tokens to other chains and receives them as a module
  of ISMP. The runtime gives each pallet its configuration, the same balances to all of them, and routes
  ISMP requests. The node chooses a chain specification, starts the services of the SDK and collates.

  \<^bold>\<open>Conventions.\<close> A pallet's \<^verbatim>\<open>Config\<close> is a record of the operations and constants it is generic
  in, its storage a record with a field per storage item, integers are words of their width with the
  saturating operations written out, \<^verbatim>\<open>Result\<close> is a sum. The SDK is not part of the repository: its
  operations are fields of the records in \<open>Frame_Interface\<close> (and of \<open>HftConfig\<close>), over an opaque
  state, and what a property relies on is a named predicate (\<open>hold_currency_laws\<close>, \<open>credit_laws\<close>,
  \<open>spendable_law\<close>, \<open>balances_laws\<close>, \<open>bridge_laws\<close>, \<open>asset_laws\<close>, \<open>fee_law\<close>, \<open>dispatcher_law\<close>, \<open>codec_laws\<close>, \<open>calls_law\<close>,
  \<open>ref_time_laws\<close>, \<open>proof_size_laws\<close>). The laws allow for the
  minimum balance: an account that is left with less than it may lose the rest as dust, wherever the
  operation is not asked to preserve the account. \<open>Sample_Ledger\<close> and
  \<open>Sample_Bridge\<close> give concrete operations that meet the laws, with and without dust, and every property
  with hypotheses is applied to them in a witness. All recursion is structural, so no fuel is used anywhere.

  \<^bold>\<open>Theories and sources.\<close>
  \<^item> \<open>Nulo_Prelude\<close>: words, results, bounded vectors, sums over storage maps.
  \<^item> \<open>Sponsorship\<close>: \<^verbatim>\<open>pallet-existential-sponsorship/src/lib.rs\<close>, one definition per function,
    extrinsic and hook. \<open>Sponsorship_Effects\<close> inverts the operations; \<open>Sponsorship_Invariants\<close> and
    \<open>Sponsorship_Indexes\<close> hold the invariants, as instances of the locales
    \<open>revocation_invariant\<close>, \<open>sponsor_invariant\<close>, \<open>storage_invariant\<close>, \<open>sponsor_hook_invariant\<close> and \<open>hook_invariant\<close>; \<open>Sponsorship_Hook\<close> has the loops of
    \<^verbatim>\<open>on_initialize\<close>, the step relation \<open>pallet_step\<close> and reachability
    (locale \<open>reachable_invariant\<close>); \<open>Sponsorship_Liveness\<close> shows that revocations succeed
    and that the queue pass ends what is due,
    \<open>Sponsorship_Events\<close> that the event log determines the records, \<open>Sponsorship_History\<close> where a change of a
    record comes from, traced through the block hook, and what a block creates, and \<open>Sponsorship_Provider\<close>
    states the trait \<^verbatim>\<open>SponsorshipProvider\<close> as a locale, interpreted on the pallet.
  \<^item> \<open>GasPayment\<close> (\<^verbatim>\<open>pallet-gas-transaction-payment/src/lib.rs\<close>): the fee handler, and the trait
    \<^verbatim>\<open>PrepaidFee\<close> as the locale \<open>prepaid_fee\<close>; \<open>PrepaidGas\<close>
    (\<^verbatim>\<open>pallet-prepaid-gas/src/lib.rs\<close>) interprets it; \<open>Gas_Accounting\<close> proves, in the locale, how
    value flows through a withdrawal and its settlement.
  \<^item> \<open>Hft_Types\<close>, \<open>Hft_Conversion\<close>, \<open>Hft\<close>: \<^verbatim>\<open>pallet-hyper-fungible-token\<close>
    (\<^verbatim>\<open>types.rs\<close>, \<^verbatim>\<open>error.rs\<close>, \<^verbatim>\<open>impls.rs\<close>, \<^verbatim>\<open>lib.rs\<close>, \<^verbatim>\<open>module.rs\<close>), with
    panics as outcomes; \<open>Hft_Registry\<close> has the abstract registry, the steps of the pallet and the
    locale \<open>registry_invariant\<close>; \<open>Hft_Ledger\<close> has what transfers do to holdings and the case analysis of
    the callbacks, \<open>Hft_Custody\<close> the histories of the bridge and the account that backs them.
  \<^item> \<open>Weights\<close>: the \<^verbatim>\<open>weights.rs\<close> files; \<open>Runtime\<close>: constants, fee polynomial, pallet
    configurations and router (\<^verbatim>\<open>runtime/src/lib.rs\<close>, \<^verbatim>\<open>runtime/src/configs/mod.rs\<close>) and the genesis
    presets (\<^verbatim>\<open>runtime/src/genesis_config_presets.rs\<close>). \<open>Runtime_Composition\<close> puts sponsorship, fees,
    prepaid gas and the token pallet on one currency: the state \<open>Chain\<close>, the steps of the pallets interleaved
    (\<open>chain_step\<close>, \<open>chain_reachable\<close>), and the locale \<open>currency_invariant\<close> for what a pallet's use of the
    currency keeps of another's.
  \<^item> \<open>Node\<close>: the chain specifications and their choice (\<^verbatim>\<open>node/src/chain_spec.rs\<close>, \<^verbatim>\<open>load_spec\<close>) and the
    relay chain's command line (\<^verbatim>\<open>node/src/cli.rs\<close>); \<open>Node_Service\<close>: \<^verbatim>\<open>node/src/service.rs\<close>,
    \<^verbatim>\<open>node/src/rpc.rs\<close> and \<^verbatim>\<open>run\<close> of \<^verbatim>\<open>node/src/command.rs\<close>, a start as the list of the tasks it
    gives to the task manager.

  \<^bold>\<open>What is shown.\<close> \<open>Sponsorship_Properties\<close> (C1 to C14, C34): in every reachable state the ledgers,
  holds, limits, expiry index and queue agree with the records; the block hook never panics, ends
  the leases that are due and unlocks what has met its condition; only entitled parties, a due unlock or the end
  of its lease change a sponsorship, in calls and in the hook; a lease until the current block never ends; sponsoring and unlocking is a
  round trip; errors come in the order of the checks; the events determine the records.
  \<open>Gas_Properties\<close> (C15 to C20, C23): prepaid credit is covered by the pool up to dust; fees are conserved
  on both paths; a fee that can be paid is paid; a failed withdrawal takes nothing; dust of the pool
  leaves credit that is refused. \<open>Hft_Properties\<close> (C21, C22, C24 to C31, C33, C40):
  the amount conversion keeps the worth and truncates, or breaks for absurd decimals and for ERC-20 decimals
  below the local ones; a sent message can be
  refunded and a refund restores every holding; what is outstanding on other chains is held in custody; the registry refines map updates and stays consistent;
  messages pay exactly, calls are authorised, and the error and panic paths leave the states stated.
  This theory (C32, C35, C36, C38, C39): sponsorships and prepaid credit keep their invariants when the
  pallets run on the same balances, within the bounds of the runtime's constants; the weight of the block
  hook, EVM accounts, and that the chain specifications of the node fit the runtime; beside them the fee
  of the base weight and the routing of requests. \<open>Node_Service\<close> (C37): which tasks a start begins.

  \<^bold>\<open>Not modelled.\<close> The parts of the node without decisions of their own (texts of the command line, getters
  that forward to the relay chain's command line, logging, the closures handed to the SDK), \<^verbatim>\<open>runtime/src/apis.rs\<close>
  (forwarding to SDK pallets), \<^verbatim>\<open>runtime/src/configs/xcm_config.rs\<close> and the configuration of SDK pallets
  (type-level choices without code), benchmarks, mocks and tests, the weight implementations for
  \<^verbatim>\<open>()\<close> of the test runtimes. The effect of \<^verbatim>\<open>OU\<close>, the handler of collected fees, is the list of credits it
  is given. In the composition a message of the bridge that carries a call is the message without it
  followed by the call as a step of its own.
\<close>

section \<open>The runtime\<close>

subsection \<open>Sponsorship under the configuration of the runtime\<close>

text \<open>Under the runtime's configuration every reachable state of the sponsorship pallet keeps each
  sponsor within 1000 existential deposits (one unit) and 64 accounts, every sponsorship carries at
  least one existential deposit, and no lease reaches more than 7 days of 6-second blocks ahead. The
  hypothesis the general bounds rest on, that the limits are below the largest integers so that
  saturation cannot hide an overrun, is met by the constants.\<close>

theorem runtime_sponsorship_bounded:
  assumes "clock_law sys balances" and "reachable (runtime_sponsorship sys balances W ensure_root) s"
  shows "total_amount p s \<le> unat UNIT \<and> total_count p s \<le> 64 \<and>
    (\<forall>b r. Sponsorships s b = Some r \<longrightarrow> EXISTENTIAL_DEPOSIT \<le> rec_amount r \<and>
       (\<forall>n. rec_lease r = Until n \<longrightarrow>
          unat n \<le> unat (now (runtime_sponsorship sys balances W ensure_root) s) + 7 * 24 * 600))"
proof -
  let ?T = "runtime_sponsorship sys balances W ensure_root"
  have "record_inv ?T s" using records.reachable_I [OF assms(2)] assms(1) by simp
  moreover have "EXISTENTIAL_DEPOSIT \<le> minimum_sponsorship ?T"
    by (simp add: minimum_sponsorship_def runtime_sponsorship_def SponsorshipMinAmount_def)
  ultimately have "\<forall>b r. Sponsorships s b = Some r \<longrightarrow> EXISTENTIAL_DEPOSIT \<le> rec_amount r \<and>
       (\<forall>n. rec_lease r = Until n \<longrightarrow> unat n \<le> unat (now ?T s) + 7 * 24 * 600)"
    by (auto simp: record_inv_def record_ok_def intro: order_trans)
  moreover have "total_amount p s \<le> unat UNIT \<and> total_count p s \<le> 64"
    using reachable_caps [OF runtime_exact_caps assms(2), of p] by (simp add: UNIT_def)
  ultimately show ?thesis by simp
qed

text \<open>A concrete weight: two saturating counters.\<close>

definition sample_weights :: "u64 \<Rightarrow> (u64 \<times> u64) weight_ops" where
  "sample_weights per_nanos =
     \<lparr>from_parts = Pair,
      weight_add = (\<lambda>x y. (saturating_add (fst x) (fst y), saturating_add (snd x) (snd y))),
      weight_mul = (\<lambda>x n. (saturating_mul (fst x) n, saturating_mul (snd x) n)),
      db_reads = (\<lambda>n. (saturating_mul (db_read (RocksDbWeight per_nanos)) n, 0)),
      db_writes = (\<lambda>n. (saturating_mul (db_write (RocksDbWeight per_nanos)) n, 0)),
      db_reads_writes = (\<lambda>r w.
        (saturating_add (saturating_mul (db_read (RocksDbWeight per_nanos)) r)
           (saturating_mul (db_write (RocksDbWeight per_nanos)) w), 0))\<rparr>"

definition sample_runtime :: "(nat, HoldReason vault, nat, u64 \<times> u64) Config" where
  "sample_runtime = runtime_sponsorship sample_system sample_currency (sample_weights 1000) (\<lambda>og. og = 0)"

definition runtime_vault :: "HoldReason vault" where
  "runtime_vault = \<lparr>vault_clock = 0, vault_free = (\<lambda>_. 0)(11 := 1000000000000), vault_held = (\<lambda>_ _. 0)\<rparr>"

definition runtime_record :: "nat SponsorshipRecord" where
  "runtime_record =
     \<lparr>rec_sponsor = 11, rec_amount = 2000000000, rec_auto_unlock = Enabled FreeGeSponsored,
      rec_lease = Until 100, rec_created_at = 0\<rparr>"

lemmas runtime_evaluation = sample_defs sample_runtime_def runtime_sponsorship_def sponsorship_constants runtime_vault_def

lemma runtime_sponsor:
  "\<exists>s. sponsor sample_runtime 11 12 2000000000 (Enabled FreeGeSponsored) (Until 100) (empty_storage runtime_vault) =
     Inr s \<and> Sponsorships s = [12 \<mapsto> runtime_record] \<and> now sample_runtime s = 0"
  by (simp add: runtime_evaluation runtime_record_def)

lemma sample_runtime_reachable: "reachable sample_runtime (empty_storage runtime_vault)"
  by (rule reachable.genesis [of _ runtime_vault "[]"])
    (simp_all add: sample_runtime_def runtime_vault_def)

lemma runtime_sponsor_reachable:
  obtains s where "reachable sample_runtime s" "Sponsorships s = [12 \<mapsto> runtime_record]" "now sample_runtime s = 0"
proof -
  from runtime_sponsor obtain s where s:
    "sponsor sample_runtime 11 12 2000000000 (Enabled FreeGeSponsored) (Until 100) (empty_storage runtime_vault) = Inr s"
    "Sponsorships s = [12 \<mapsto> runtime_record]" "now sample_runtime s = 0"
    by blast
  have "reachable sample_runtime s"
    by (rule reachable.step [OF sample_runtime_reachable], rule pallet_step.call
        [where og = 11 and call = "CallSponsor 12 2000000000 (Enabled FreeGeSponsored) (Until 100)"])
      (simp add: s(1))
  with s show thesis by (intro that)
qed

lemma sample_clock:
  "clock_law sample_system (sample_currency :: (nat, HoldReason vault, HoldReason) hold_fungible)"
  using sample_lawful(2) by (simp add: sample_config_def)

theorem runtime_sponsorship_bounded_witness:
  "\<exists>s. reachable sample_runtime s \<and> Sponsorships s 12 = Some runtime_record \<and>
    total_amount 11 s \<le> unat UNIT \<and> total_count 11 s \<le> 64 \<and>
    EXISTENTIAL_DEPOSIT \<le> rec_amount runtime_record \<and> unat (100 :: BlockNumber) \<le> 7 * 24 * 600"
proof -
  obtain s where s: "reachable sample_runtime s" "Sponsorships s = [12 \<mapsto> runtime_record]" "now sample_runtime s = 0"
    by (rule runtime_sponsor_reachable)
  have lease: "rec_lease runtime_record = Until 100" by (simp add: runtime_record_def)
  from runtime_sponsorship_bounded [OF sample_clock s(1) [unfolded sample_runtime_def], of 11] s lease
  show ?thesis by (auto simp flip: sample_runtime_def)
qed

text \<open>The weight the hook reports, read in either part: at most 64 times the weight of an entry of each kind.\<close>

lemma hook_weight_part:
  assumes "part_laws W f part read write" and "clock_law sys balances"
    and "reachable (runtime_sponsorship sys balances W ensure_root) s"
    and "on_initialize (runtime_sponsorship sys balances W ensure_root) n (s\<lparr>ext := c\<rparr>) = Some (w, s')"
  shows "f w \<le> 64 * (unat (part 6000000 1000) + read + write) + 64 * (unat (part 7000000 1000) + read + write)"
proof -
  let ?T = "runtime_sponsorship sys balances W ensure_root"
  have "clocked ?T" using assms(2) by simp
  from on_initialize_weight [OF this assms(3,4)] obtain p q where
    w: "w = weight_saturating_add (WeightInfo ?T)
      (on_initialize_process_expiries (WeightInfo ?T) p) (on_initialize_process_auto_unlock (WeightInfo ?T) q)"
    and "p \<le> 64" "q \<le> 64"
    by (metis runtime_sponsorship_simps(8))
  then have pq: "unat p \<le> 64" "unat q \<le> 64" by (simp_all add: word_le_nat_alt)
  have "f w \<le> f (process_expiries_weight (SubstrateWeight W) p) + f (process_auto_unlock_weight (SubstrateWeight W) q)"
    unfolding w using assms(1) by (simp add: runtime_sponsorship_def part_laws_def)
  also have "\<dots> \<le> unat p * (unat (part 6000000 1000) + read + write) + unat q * (unat (part 7000000 1000) + read + write)"
    using per_item_weight [OF assms(1), of 6000000 1000 p] per_item_weight [OF assms(1), of 7000000 1000 q]
    by (intro add_mono) (simp_all add: SubstrateWeight_def Let_def)
  also have "\<dots> \<le> 64 * (unat (part 6000000 1000) + read + write) + 64 * (unat (part 7000000 1000) + read + write)"
    using pq by (intro add_mono mult_right_mono) simp_all
  finally show ?thesis .
qed

text \<open>C35. The sponsorship pallet's block hook fits in the share of a block the runtime reserves for
  \<^verbatim>\<open>on_initialize\<close>, in both parts of its weight: in every reachable state, at the start of any block, the
  computation time it reports and the storage proof it reports are at most 5 percent of those of the maximum block
  weight, with the database weights of the runtime, the time units of the SDK (1000 per nanosecond) and a relay
  chain that takes proofs of at least 5 MiB. The bound comes from the limit of 64 entries per block that the pallet
  keeps for both of its queues.\<close>

theorem hook_fits_in_block:
  assumes "ref_time_laws W rt (unat (db_read (RocksDbWeight 1000))) (unat (db_write (RocksDbWeight 1000)))"
    and "proof_size_laws W ps" and "5 * 1024 * 1024 \<le> unat pov"
    and "clock_law sys balances" and "reachable (runtime_sponsorship sys balances W ensure_root) s"
    and "on_initialize (runtime_sponsorship sys balances W ensure_root) n (s\<lparr>ext := c\<rparr>) = Some (w, s')"
  shows "100 * rt w \<le> AVERAGE_ON_INITIALIZE_RATIO * rt (MAXIMUM_BLOCK_WEIGHT W (1000 * 1000000000) pov) \<and>
    100 * ps w \<le> AVERAGE_ON_INITIALIZE_RATIO * ps (MAXIMUM_BLOCK_WEIGHT W (1000 * 1000000000) pov)"
proof -
  have "rt w \<le> 16832000000" using hook_weight_part [OF assms(1,4-6)] by (simp add: RocksDbWeight_def)
  moreover have "rt (MAXIMUM_BLOCK_WEIGHT W (1000 * 1000000000) pov) = 2000000000000"
    using assms(1) by (simp add: MAXIMUM_BLOCK_WEIGHT_def part_laws_def saturating_mul_def)
  moreover have "ps w \<le> 128000" using hook_weight_part [OF assms(2,4-6)] by simp
  moreover have "ps (MAXIMUM_BLOCK_WEIGHT W (1000 * 1000000000) pov) = unat pov"
    using assms(2) by (simp add: MAXIMUM_BLOCK_WEIGHT_def part_laws_def)
  ultimately show ?thesis using assms(3) by (simp add: AVERAGE_ON_INITIALIZE_RATIO_def)
qed

lemma unat_saturating_mul: "unat (saturating_mul a b) \<le> unat a * unat b"
  by (auto simp: saturating_mul_def unat_word_ariths unat_max_word)

lemma sample_ref_time:
  "ref_time_laws (sample_weights 1000) (\<lambda>x. unat (fst x))
     (unat (db_read (RocksDbWeight 1000))) (unat (db_write (RocksDbWeight 1000)))"
proof -
  have rw: "unat (saturating_add (saturating_mul x r) (saturating_mul y w)) \<le> unat r * unat x + unat w * unat y"
    for x y r w :: u64
    unfolding unat_saturating_add
    using unat_saturating_mul [of x r] unat_saturating_mul [of y w] by (simp add: mult.commute min.coboundedI1)
  show ?thesis
    by (simp add: part_laws_def sample_weights_def unat_saturating_mul rw)
      (simp add: unat_saturating_add)
qed

lemma sample_proof_size: "proof_size_laws (sample_weights 1000) (\<lambda>x. unat (snd x))"
  by (simp add: part_laws_def sample_weights_def unat_saturating_mul) (simp add: unat_saturating_add)

text \<open>A block in which the hook has a queued account to visit.\<close>

lemma runtime_hook:
  "\<exists>s w s'. sponsor sample_runtime 11 12 2000000000 (Enabled FreeGeSponsored) (Until 100) (empty_storage runtime_vault) = Inr s \<and>
     on_initialize sample_runtime 1 (s\<lparr>ext := (ext s)\<lparr>vault_clock := 1\<rparr>\<rparr>) = Some (w, s') \<and> w = (132000000, 1000)"
  by (simp add: runtime_evaluation on_initialize_def process_expirations_def process_auto_unlock_queue_def
      auto_unlock_condition_met_def SubstrateWeight_def sample_weights_def saturating_mul_def RocksDbWeight_def)

theorem hook_fits_in_block_witness:
  "\<exists>s w s'. reachable sample_runtime s \<and>
    on_initialize sample_runtime 1 (s\<lparr>ext := (ext s)\<lparr>vault_clock := 1\<rparr>\<rparr>) = Some (w, s') \<and> w = (132000000, 1000) \<and>
    100 * unat (fst w) \<le> AVERAGE_ON_INITIALIZE_RATIO *
      unat (fst (MAXIMUM_BLOCK_WEIGHT (sample_weights 1000) (1000 * 1000000000) 5242880)) \<and>
    100 * unat (snd w) \<le> AVERAGE_ON_INITIALIZE_RATIO *
      unat (snd (MAXIMUM_BLOCK_WEIGHT (sample_weights 1000) (1000 * 1000000000) 5242880))"
proof -
  from runtime_hook obtain s w s' where
    s: "sponsor sample_runtime 11 12 2000000000 (Enabled FreeGeSponsored) (Until 100) (empty_storage runtime_vault) = Inr s"
    and o: "on_initialize sample_runtime 1 (s\<lparr>ext := (ext s)\<lparr>vault_clock := 1\<rparr>\<rparr>) = Some (w, s')" "w = (132000000, 1000)"
    by blast
  have "reachable sample_runtime s"
    by (rule reachable.step [OF sample_runtime_reachable], rule pallet_step.call
        [where og = 11 and call = "CallSponsor 12 2000000000 (Enabled FreeGeSponsored) (Until 100)"])
      (simp add: s)
  with hook_fits_in_block [OF sample_ref_time sample_proof_size _ sample_clock this [unfolded sample_runtime_def]
      o(1) [unfolded sample_runtime_def], of 5242880] o
  show ?thesis by (intro exI [of _ s] exI [of _ w] exI [of _ s']) simp
qed

subsection \<open>The pallets together\<close>

text \<open>C32. On the chain, where fees are withdrawn and settled, prepaid gas is bought and tokens are sent to and
  received from other chains, all on the same balances, between any two calls of the sponsorship pallet, the sponsorship pallet keeps its books: in
  every state of the composed runtime the balances hold for each account exactly what the record of its
  sponsorship says and the storage deposits of what it sponsors, the ledger of each sponsor is the sum
  of its sponsorships, at most one unit for at most 64 accounts, and every sponsorship is of at least the
  existential deposit with a lease of at most 7 days of 6-second blocks from now.\<close>

theorem runtime_composition_keeps_sponsorships:
  assumes "balances_laws sys balances F" and "bridge_laws sys balances sdk"
    and "pallet_account sdk \<noteq> into_account PrepaidGasPalletId"
    and "chain_reachable (runtime_sponsorship sys balances W ensure_root) (runtime_prepaid sys F into_account)
      (runtime_adapter sys F into_account) (runtime_hft ensure_root sdk) n x"
  shows "unat (balance_on_hold balances (currency (pay x)) Sponsorship a) =
      (case Sponsorships (spon x) a of None \<Rightarrow> 0 | Some r \<Rightarrow> unat (rec_amount r)) \<and>
    unat (balance_on_hold balances (currency (pay x)) StorageDeposit a) =
      total_count a (spon x) * unat RuntimeStorageDeposit \<and>
    unat (active_amount (SponsorLedger (spon x) a)) = total_amount a (spon x) \<and>
    total_amount a (spon x) \<le> unat UNIT \<and> total_count a (spon x) \<le> 64 \<and>
    (\<forall>b r. Sponsorships (spon x) b = Some r \<longrightarrow> EXISTENTIAL_DEPOSIT \<le> rec_amount r \<and>
       (\<forall>n. rec_lease r = Until n \<longrightarrow> unat n \<le> unat (block_number sys (currency (pay x))) + 7 * 24 * 600))"
proof -
  let ?S = "runtime_sponsorship sys balances W ensure_root"
  have law: "lawful ?S" by (rule runtime_one_currency(1) [OF assms(1)])
  have reach: "reachable ?S (spon x)" and shared: "ext (spon x) = currency (pay x)"
    using chain_reachable_sponsorship [OF law runtime_one_currency(2) [OF assms(1)]
        runtime_bridge [where into_account = into_account, OF assms(2,3)] assms(4)] by simp_all
  have "hold_inv ?S (spon x)" "ledger_inv (spon x)"
    using holds.reachable_I [OF reach] ledger.reachable_I [OF reach] law runtime_exact_caps by blast+
  moreover have "clock_law sys balances" using assms(1) by (simp add: balances_laws_def hold_currency_laws_def)
  note runtime_sponsorship_bounded [OF this reach, of a]
  moreover have "now ?S (spon x) = block_number sys (currency (pay x))" by (simp add: now_def shared)
  moreover have "SponsorshipStorageDeposit ?S = RuntimeStorageDeposit" by (simp add: runtime_sponsorship_def)
  ultimately show ?thesis
    using sponsored_by_const [of a "unat RuntimeStorageDeposit" "spon x"]
    by (auto simp: hold_inv_def ledger_inv_def simp flip: shared)
qed

text \<open>The token pallet on the sample vault: native transfers are transfers of the vault, and there are no other
  assets.\<close>

definition vault_sdk ::
  "(nat, HoldReason vault, nat, u32, nat, nat, string, unit, u64 \<times> u64) HftConfig" where
  "vault_sdk =
     \<lparr>hft_system = sample_system, create_origin = (\<lambda>og. og = 0),
      native_transfer = (\<lambda>src dst amt _ v. case move_funds src dst amt v of None \<Rightarrow> Inl ''funds'' | Some w \<Rightarrow> Inr w),
      asset_transfer = (\<lambda>_ _ _ _ _ _. Inl ''no asset''), burn_from = (\<lambda>_ _ _ _ _ _ _. Inl ''no asset''),
      mint_into = (\<lambda>_ _ _ _. Inl ''no asset''), asset_decimals = (\<lambda>_ _. 6), NativeAssetId = 0, NativeDecimals = 12,
      EvmToSubstrate = length, account_from = (\<lambda>bs. unat (last bs)),
      account_bytes = (\<lambda>a. replicate 31 0 @ [word_of_nat a]), account_of_pallet_id = (\<lambda>_. 98),
      module_id_bytes = map of_char, dispatch_request = (\<lambda>_ _ v. Some (7, v)), is_evm = (\<lambda>m. m = 2),
      abi_encode = sample_encode, abi_decode = sample_decode, decode_calldata = (\<lambda>_. Inl ''calldata''),
      decode_signature = (\<lambda>s. Inr (Ed25519 s)), decode_call = (\<lambda>_. Inr ()), account_nonce = (\<lambda>_ _. 0),
      inc_account_nonce = (\<lambda>_ v. v), encode_payload = (\<lambda>_ bs. bs), keccak_256 = id,
      ed25519_verify = (\<lambda>s m _. s = m), sr25519_verify = (\<lambda>s m _. s = m), ecdsa_recover = (\<lambda>_ _. None),
      dispatch_call = (\<lambda>_ _ st. Inr st), hft_weights = sample_weights 1000\<rparr>"

abbreviation vault_bridge ::
  "(nat, HoldReason vault, nat, u32, nat, nat, string, unit, u64 \<times> u64) HftConfig" where
  "vault_bridge \<equiv> runtime_hft (\<lambda>og. og = 0) vault_sdk"

lemma move_funds_elsewhere:
  "move_funds src dst amt v = Some w \<Longrightarrow>
   elsewhere_move sample_system (sample_currency :: (nat, HoldReason vault, HoldReason) hold_fungible) {src} v w"
  by (auto simp: move_funds_def elsewhere_move_def untouched_def sample_currency_def sample_system_def
      split: option.splits dest!: credit_Some debit_Some)

lemma vault_bridge_laws: "bridge_laws sample_system sample_currency vault_sdk"
  by (auto simp: bridge_laws_def vault_sdk_def split: option.splits dest: move_funds_elsewhere)

lemma vault_accounts: "pallet_account vault_sdk \<noteq> (\<lambda>_. 99) PrepaidGasPalletId"
  by (simp add: pallet_account_def vault_sdk_def)

definition composed_genesis :: "(nat, HoldReason vault, u128, u32, nat, nat) Chain" where
  "composed_genesis =
     \<lparr>spon = empty_storage runtime_vault,
      pay = \<lparr>currency = runtime_vault, prepaid = empty_prepaid, handed = [], gas_events = []\<rparr>,
      hft = hft_genesis runtime_vault\<rparr>"

abbreviation sample_pool :: "(nat, HoldReason vault, nat, string) PrepaidConfig" where
  "sample_pool \<equiv> runtime_prepaid sample_system sample_balanced (\<lambda>_. 99)"

abbreviation sample_fees :: "(nat, HoldReason vault, nat PrepaidStorage, u128, nat) Adapter" where
  "sample_fees \<equiv> runtime_adapter sample_system sample_balanced (\<lambda>_. 99)"

lemma sample_balances_laws:
  "balances_laws sample_system (sample_currency :: (nat, HoldReason vault, HoldReason) hold_fungible) sample_balanced"
  using sample_laws sample_credit_laws sample_transfer
  by (auto simp: balances_laws_def leaves_holds_def untouched_def move_funds_def sample_balanced_def
      split: option.splits)

lemma composed_genesis_reachable:
  "chain_reachable sample_runtime sample_pool sample_fees vault_bridge 0 composed_genesis"
  by (rule chain_reachable.genesis [of _ runtime_vault "[]"])
    (simp_all add: sample_runtime_def runtime_vault_def chain_genesis_def composed_genesis_def)

lemma sample_pool_account: "account_id sample_pool = 99"
  by (simp add: account_id_def runtime_prepaid_def)

lemma composed_sponsored:
  obtains n x where "chain_reachable sample_runtime sample_pool sample_fees vault_bridge n x"
    "Sponsorships (spon x) = [12 \<mapsto> runtime_record]"
proof -
  from runtime_sponsor obtain s where s:
    "sponsor sample_runtime 11 12 2000000000 (Enabled FreeGeSponsored) (Until 100) (empty_storage runtime_vault) = Inr s"
    "Sponsorships s = [12 \<mapsto> runtime_record]"
    by blast
  have "sponsorship_call sample_runtime 99 (spon composed_genesis) s"
    using s(1) by (intro sponsorship_call.extrinsic
        [where og = 11 and call = "CallSponsor 12 2000000000 (Enabled FreeGeSponsored) (Until 100)"])
      (simp_all add: composed_genesis_def sample_runtime_def)
  then have "chain_step sample_runtime sample_pool sample_fees vault_bridge composed_genesis (with_sponsorship s composed_genesis)"
    by (intro chain_step.sponsorship) (simp add: sample_pool_account)
  from that [OF chain_reachable.step [OF composed_genesis_reachable this]] s(2) show thesis by simp
qed

theorem runtime_composition_keeps_sponsorships_witness:
  "\<exists>n x. chain_reachable sample_runtime sample_pool sample_fees vault_bridge n x \<and> Sponsorships (spon x) 12 = Some runtime_record \<and>
     unat (balance_on_hold sample_currency (currency (pay x)) Sponsorship 12) = unat (rec_amount runtime_record) \<and>
     unat (active_amount (SponsorLedger (spon x) 11)) = total_amount 11 (spon x)"
proof -
  obtain n x where x: "chain_reachable sample_runtime sample_pool sample_fees vault_bridge n x"
    "Sponsorships (spon x) = [12 \<mapsto> runtime_record]"
    by (rule composed_sponsored)
  note p = runtime_composition_keeps_sponsorships [where into_account = "\<lambda>_. 99", OF sample_balances_laws vault_bridge_laws vault_accounts x(1) [unfolded sample_runtime_def]]
  from p [of 12] p [of 11] x show ?thesis by (intro exI [of _ n] exI [of _ x]) simp
qed

text \<open>C36. Prepaid credit stays covered while the sponsorship and token pallets work on the same balances,
  whoever they pay, sponsor or release, the pool of the prepaid credit included: from genesis on, the credit outstanding
  exceeds the balance of the pool by less than the minimum balance for each of the \<open>n\<close> steps that left the
  pool below it, and not at all as long as no step did.\<close>

theorem runtime_composition_keeps_credit_covered:
  assumes "balances_laws sys balances F" and "bridge_laws sys balances sdk"
    and "pallet_account sdk \<noteq> into_account PrepaidGasPalletId"
    and "chain_reachable (runtime_sponsorship sys balances W ensure_root) (runtime_prepaid sys F into_account)
      (runtime_adapter sys F into_account) (runtime_hft ensure_root sdk) n x"
  shows "total_credit (prepaid (pay x)) \<le>
    unat (balance F (currency (pay x)) (into_account PrepaidGasPalletId)) + n * (unat (minimum_balance F) - 1)"
proof -
  have "covered (runtime_sponsorship sys balances W ensure_root) (runtime_prepaid sys F into_account)
      (n * (unat (minimum_balance balances) - 1)) x"
    using chain_reachable_covered [OF runtime_one_currency [OF assms(1)]
        runtime_bridge [where into_account = into_account, OF assms(2,3)] assms(4)] by simp
  moreover have "balance balances = balance F" "minimum_balance balances = minimum_balance F"
    using assms(1) by (simp_all add: balances_laws_def)
  ultimately show ?thesis by (simp add: covered_def account_id_def runtime_prepaid_def)
qed

theorem runtime_composition_keeps_credit_covered_witness:
  "\<exists>x. chain_reachable sample_runtime sample_pool sample_fees vault_bridge 0 x \<and>
     remaining_credit 12 (prepaid (pay x)) = 100 \<and>
     total_credit (prepaid (pay x)) \<le> unat (vault_free (currency (pay x)) 99)"
proof -
  obtain p c where b: "purchase sample_pool 11 12 100 (prepaid (pay composed_genesis), currency (pay composed_genesis)) =
      Inr (p, c)" and r: "remaining_credit 12 p = 100" and f: "vault_free c 99 = 100"
    by (simp add: composed_genesis_def runtime_prepaid_def MinPrepaidGasPurchase_def runtime_vault_def gas_sample
        sample_balanced_def)
  let ?g = "(pay composed_genesis)\<lparr>prepaid := p, currency := c\<rparr>"
  have "gas_call sample_pool sample_fees (pay composed_genesis) ?g"
    by (rule gas_call.buy [OF b]) (simp add: runtime_prepaid_def account_id_def)
  then have "chain_step sample_runtime sample_pool sample_fees vault_bridge composed_genesis (with_payment ?g composed_genesis)"
    by (rule chain_step.gas)
  from chain_reachable.step [OF composed_genesis_reachable this]
  have x: "chain_reachable sample_runtime sample_pool sample_fees vault_bridge 0 (with_payment ?g composed_genesis)"
    by (simp add: drains_def f sample_pool_account sample_runtime_def composed_genesis_def runtime_vault_def)
  from runtime_composition_keeps_credit_covered [where into_account = "\<lambda>_. 99", OF sample_balances_laws vault_bridge_laws vault_accounts x [unfolded sample_runtime_def]] r x
  show ?thesis by (intro exI [of _ "with_payment ?g composed_genesis"]) simp
qed

subsection \<open>Fees\<close>

text \<open>The fee polynomial is linear with a fraction only, and maps the base weight of an extrinsic to
  exactly a thousandth of a \<^verbatim>\<open>MILLI_UNIT\<close>: the coefficient times the base weight is
  \<^verbatim>\<open>MICRO_UNIT\<close>.\<close>

theorem base_weight_fee:
  "\<exists>x. WeightToFee 1000 = [x] \<and> degree x = 1 \<and> \<not> negative x \<and> coeff_integer x = 0 \<and>
    unat (ExtrinsicBaseWeight_ref_time 1000) * unat (fst (coeff_frac x)) =
      unat (snd (coeff_frac x)) * unat MICRO_UNIT \<and>
    unat MILLI_UNIT = 1000 * unat MICRO_UNIT"
  by (simp add: WeightToFee_def Let_def ExtrinsicBaseWeight_ref_time_def saturating_mul_def MILLI_UNIT_def
      MICRO_UNIT_def)

subsection \<open>Routing and accounts of the bridge\<close>

text \<open>The router finds the module of every request the token pallet dispatches: the module
  identifier \<^verbatim>\<open>send\<close> puts into a request is routed back to the token pallet, for acceptance and
  timeouts alike, unless it is the identifier of Hyperbridge, which is asked first. Bytes that name
  none of the three modules are refused with themselves in the error.\<close>

theorem requests_route_back:
  assumes "module_id_bytes T PALLET_ID \<noteq> hyperbridge_id"
  shows "module_for_id hyperbridge_id gateway T (from_module (request_of src (send_post T params contract msg))) =
      Inr HyperFungibleToken \<and>
    (module_for_id hyperbridge_id gateway T bytes = Inl e \<longleftrightarrow>
      e = ModuleNotFound bytes \<and> bytes \<noteq> hyperbridge_id \<and> \<not> is_module T bytes \<and> \<not> gateway bytes)"
  using assms by (auto simp: module_for_id_def is_module_def request_of_def send_post_def)

lemma sample_module_id: "module_id_bytes sample_hft PALLET_ID \<noteq> [0]"
  by (simp add: sample_hft_def PALLET_ID_def)

theorem requests_route_back_witness:
  "module_for_id [0] (\<lambda>_. False) sample_hft
     (from_module (request_of 2 (send_post sample_hft sample_send [5, 5] (message_to 11 [] [])))) =
       Inr HyperFungibleToken \<and>
   (module_for_id [0] (\<lambda>_. False) sample_hft [1] = Inl (ModuleNotFound [1]) \<longleftrightarrow>
      ModuleNotFound [1] = ModuleNotFound [1] \<and> [1] \<noteq> [0 :: byte] \<and> \<not> is_module sample_hft [1] \<and> \<not> False)"
  by (rule requests_route_back [OF sample_module_id])

text \<open>C38. In the runtime an EVM address has one account, however it is named: the account credited for a
  20-byte recipient is the account the runtime maps the address to, the origin of calls the address
  sends from an EVM chain, and the account for which a signature of that address is accepted. So
  tokens received at an EVM address can be spent by its owner.\<close>

theorem evm_address_one_account:
  fixes sdk :: "('a, 'c, 'o, u32, 'm, 'h, 'e, 'l, 'w) HftConfig"
  assumes "length addr = 20" and "is_evm sdk src"
    and "ecdsa_recover sdk sig (keccak_256 sdk (ethereum_preimage payload)) = Some pub_key"
    and "drop 12 (keccak_256 sdk pub_key) = addr"
  shows "\<exists>bs. address_bytes addr = Some bs \<and>
    account_from sdk bs = EvmToSubstrate (runtime_hft root sdk) addr \<and>
    sender_origin (runtime_hft root sdk) src addr = Done (account_from sdk bs) \<and>
    verify_signature (runtime_hft root sdk) (account_from sdk bs) bs payload (Ecdsa sig) = Inr ()"
  using assms
  by (simp add: address_bytes_def runtime_hft_def evm_to_substrate_def sender_origin_def)

definition evm_sdk :: "(byte, book, nat, u32, nat, nat, string, unit, u64 \<times> u64) HftConfig" where
  "evm_sdk = sample_hft\<lparr>ecdsa_recover := \<lambda>_ _. Some [], keccak_256 := \<lambda>_. replicate 32 7\<rparr>"

theorem evm_address_one_account_witness:
  "\<exists>bs. address_bytes (replicate 20 7) = Some bs \<and>
    account_from evm_sdk bs = EvmToSubstrate (runtime_hft (\<lambda>og. og = 0) evm_sdk) (replicate 20 7) \<and>
    sender_origin (runtime_hft (\<lambda>og. og = 0) evm_sdk) 2 (replicate 20 7) = Done (account_from evm_sdk bs) \<and>
    verify_signature (runtime_hft (\<lambda>og. og = 0) evm_sdk) (account_from evm_sdk bs) bs [] (Ecdsa []) = Inr ()"
proof (rule evm_address_one_account)
  show "ecdsa_recover evm_sdk [] (keccak_256 evm_sdk (ethereum_preimage [])) = Some []"
    by (simp add: evm_sdk_def)
qed (simp_all add: evm_sdk_def)

subsection \<open>Genesis and chain specifications\<close>

text \<open>The runtime has a preset for exactly the names it lists, and every preset is well formed: it funds each
  well-known account, with at least what a collator has to bond, makes Alice and Bob the collators, each with
  its own key as its Aura key, bonds sixteen existential deposits and makes Alice the sudo key.\<close>

definition good_patch :: "('a, 'k) PresetEnv \<Rightarrow> ('a, 'k) GenesisPatch \<Rightarrow> bool" where
  "good_patch E g \<longleftrightarrow>
     map fst (gen_balances g) = well_known (keyring E) \<and>
     (\<forall>(a, x) \<in> set (gen_balances g). gen_candidacy_bond g \<le> x) \<and>
     gen_invulnerables g = [fst (Alice (keyring E)), fst (Bob (keyring E))] \<and>
     gen_keys g = [(fst (Alice (keyring E)), fst (Alice (keyring E)), \<lparr>aura = snd (Alice (keyring E))\<rparr>),
       (fst (Bob (keyring E)), fst (Bob (keyring E)), \<lparr>aura = snd (Bob (keyring E))\<rparr>)] \<and>
     unat (gen_candidacy_bond g) = 16 * unat EXISTENTIAL_DEPOSIT \<and>
     gen_sudo_key g = Some (fst (Alice (keyring E))) \<and> gen_parachain_id g = PARACHAIN_ID"

lemma presets_good:
  "good_patch E (local_testnet_genesis (SAFE_XCM_VERSION E) (keyring E))"
  "good_patch E (development_config_genesis (SAFE_XCM_VERSION E) (keyring E))"
  by (auto simp: good_patch_def local_testnet_genesis_def development_config_genesis_def testnet_genesis_def o_def
      template_session_keys_def EXISTENTIAL_DEPOSIT_def MILLI_UNIT_def split: prod.splits)

lemma preset_iff_listed: "get_preset E i \<noteq> None \<longleftrightarrow> i \<in> set (preset_names E)"
  by (auto simp: get_preset_def preset_names_def)

lemma preset_good: "get_preset E i = Some b \<Longrightarrow> \<exists>g. b = to_json E g \<and> good_patch E g"
  using presets_good [of E] by (auto simp: get_preset_def split: if_splits)

text \<open>C39. Every chain specification the node starts with is one the user gave as a file or one that fits the
  runtime. Whatever name is asked for, the built-in specifications answer to exactly \<^verbatim>\<open>dev\<close>, \<^verbatim>\<open>nulo-paseo\<close>,
  \<^verbatim>\<open>local\<close> and the empty name, and every other name is read as a file. The genesis preset a built-in one names is
  one the runtime lists and has; in it every well-known account is funded with at least the collators' bond, the two
  collators have each their own Aura key, and the parachain is that of the runtime. The decimals the specification
  announces are those of the unit of the runtime and of the bridge, its address format is the runtime's, and the
  embedded relay chain node is sent to \<^verbatim>\<open>paseo-local\<close>, the chain the code names (the README says \<^verbatim>\<open>paseo\<close>), unless the
  arguments choose another.\<close>

theorem built_in_specs_fit_runtime:
  assumes "load_spec E (Some wasm) from_json_file i = Done spec"
  shows "i \<notin> {''dev'', ''nulo-paseo'', '''', ''local''} \<and> from_json_file i = Inr spec \<or>
    i \<in> {''dev'', ''nulo-paseo'', '''', ''local''} \<and>
    wasm_binary spec = wasm \<and> genesis_preset spec \<in> set (preset_names E) \<and>
    (\<exists>g. get_preset E (genesis_preset spec) = Some (to_json E g) \<and>
       map fst (gen_balances g) = well_known (keyring E) \<and>
       (\<forall>(a, x) \<in> set (gen_balances g). gen_candidacy_bond g \<le> x) \<and>
       gen_invulnerables g = [fst (Alice (keyring E)), fst (Bob (keyring E))] \<and>
       gen_keys g = [(fst (Alice (keyring E)), fst (Alice (keyring E)), \<lparr>aura = snd (Alice (keyring E))\<rparr>),
         (fst (Bob (keyring E)), fst (Bob (keyring E)), \<lparr>aura = snd (Bob (keyring E))\<rparr>)] \<and>
       unat (gen_candidacy_bond g) = 16 * unat EXISTENTIAL_DEPOSIT \<and>
       gen_sudo_key g = Some (fst (Alice (keyring E))) \<and> gen_parachain_id g = PARACHAIN_ID) \<and>
    (\<exists>d. properties spec ''tokenDecimals'' = Some (PropertyNumber d) \<and>
       unat UNIT = 10 ^ d \<and> d = unat TokenGatewayDecimals) \<and>
    properties spec ''ss58Format'' = Some (PropertyNumber (unat SS58Prefix)) \<and>
    chain_id base_chain_id (RelayChainCli_new parser spec path relay_args) is_dev =
      map_sum id (\<lambda>c. if c = '''' then ''paseo-local'' else c) (base_chain_id (parser relay_args) is_dev)"
proof (cases "i \<in> {''dev'', ''nulo-paseo'', '''', ''local''}")
  case False
  with assms have "from_json_file i = Inr spec" by (auto simp: load_spec_def result_simps)
  with False show ?thesis by blast
next
  case True
  have listed: "genesis_preset spec \<in> set (preset_names E)"
    and built: "wasm_binary spec = wasm" "extensions spec = Some \<lparr>relay_chain = RELAY_CHAIN\<rparr>"
      "properties spec ''tokenDecimals'' = Some (PropertyNumber 12)" "properties spec ''ss58Format'' = Some (PropertyNumber 42)"
    using assms True by (auto simp: load_spec_def development_chain_spec_def local_chain_spec_def preset_names_def)
  then obtain b where b: "get_preset E (genesis_preset spec) = Some b" using preset_iff_listed [of E] by blast
  with preset_good obtain g where g: "b = to_json E g" "good_patch E g" by metis
  have relay: "chain_id base_chain_id (RelayChainCli_new parser spec path relay_args) is_dev =
      map_sum id (\<lambda>c. if c = '''' then ''paseo-local'' else c) (base_chain_id (parser relay_args) is_dev)"
    by (simp add: chain_id_def RelayChainCli_new_def try_get_def built(2) RELAY_CHAIN_def and_then_def
        split: sum.split)
  have numbers: "\<exists>d. properties spec ''tokenDecimals'' = Some (PropertyNumber d) \<and>
      unat UNIT = 10 ^ d \<and> d = unat TokenGatewayDecimals"
    by (simp add: built UNIT_def TokenGatewayDecimals_def)
  show ?thesis
    using True b g relay numbers built(1,4) listed unfolding good_patch_def
    by (intro disjI2 conjI exI [of _ g]) (simp_all add: SS58Prefix_def)
qed

definition sample_presets :: "(nat, nat) PresetEnv" where
  "sample_presets =
     \<lparr>SAFE_XCM_VERSION = 5, keyring = \<lparr>Alice = (11, 1), Bob = (12, 2), well_known = [11, 12, 13]\<rparr>,
      LOCAL_TESTNET_RUNTIME_PRESET = ''local_testnet'', DEV_RUNTIME_PRESET = ''development'',
      to_json = (\<lambda>g. map (word_of_nat \<circ> fst) (gen_balances g))\<rparr>"

definition sample_files :: "string \<Rightarrow> string + nat ChainSpec" where
  "sample_files path = Inl ''no such file''"

theorem built_in_specs_fit_runtime_witness:
  "\<exists>spec. load_spec sample_presets (Some 7) sample_files ''nulo-paseo'' = Done spec \<and>
     genesis_preset spec = ''local_testnet'' \<and> genesis_preset spec \<in> set (preset_names sample_presets) \<and>
     (\<exists>g. get_preset sample_presets (genesis_preset spec) = Some (to_json sample_presets g) \<and>
        map (\<lambda>(acc, _, k). (acc, aura k)) (gen_keys g) = [(11, 1), (12, 2)]) \<and>
     chain_id (\<lambda>_ _. Inr '''' :: string + string) (RelayChainCli_new length spec [''data''] [''node'']) False =
       Inr ''paseo-local''"
proof -
  obtain spec where s: "load_spec sample_presets (Some 7) sample_files ''nulo-paseo'' = Done spec"
    "genesis_preset spec = ''local_testnet''"
    by (simp add: load_spec_def local_chain_spec_def sample_presets_def)
  have k: "Alice (keyring sample_presets) = (11, 1)" "Bob (keyring sample_presets) = (12, 2)"
    by (simp_all add: sample_presets_def)
  from built_in_specs_fit_runtime [OF s(1), of "\<lambda>_ _. Inr '''' :: string + string" length "[''data'']" "[''node'']" False] s
  show ?thesis by (intro exI [of _ spec]) (auto simp: k)
qed

end
